(* ===== verification/Sysd_Prelude.thy ===== *)
theory Sysd_Prelude
  imports Main "HOL-Library.Word" "HOL-Library.Sublist"
begin

text \<open>
  What every component of the ops-sysd model shares: the result type of code that can run into
  undefined behaviour or an abort (\<open>fault\<close>, \<open>'a run\<close>), its sequencing, the named collections the
  component proofs use, lemmas on list updates, and two interfaces as locales: a state machine
  with an invariant, and a table of rows that are looked up by a key and created when missing.
\<close>

named_theorems run_simps \<open>sequencing of faulting code\<close>
named_theorems cstr_simps \<open>C string operations on concrete and symbolic arguments\<close>
named_theorems row_simps \<open>insertion, lookup and update of database rows\<close>

section \<open>Faults and sequencing\<close>

text \<open>
  A \<open>fault\<close> is an outcome in which the C program does not go on in a defined way: an access
  outside an object, a null pointer dereference, an access to a freed object or a second
  release of it, an overflow of a signed integer, or a failed assertion or an \<open>abort\<close>. Return codes of the functions themselves are ordinary values under \<open>Inr\<close>.
\<close>

datatype fault =
    Out_Of_Bounds_Read
  | Out_Of_Bounds_Write
  | Null_Dereference
  | Use_After_Free
  | Double_Free
  | Signed_Overflow
  | Assertion_Failure

type_synonym 'a run = "fault + 'a"
type_synonym byte = "8 word"
type_synonym c_int = "32 word"

definition INT_MAX :: nat where "INT_MAX = 2 ^ 31 - 1"

definition and_then :: "'a run \<Rightarrow> ('a \<Rightarrow> 'b run) \<Rightarrow> 'b run" where
  "and_then m f = (case m of Inl e \<Rightarrow> Inl e | Inr x \<Rightarrow> f x)"

lemma and_then_Inl [simp, run_simps]: "and_then (Inl e) f = Inl e"
  by (simp add: and_then_def)

lemma and_then_Inr [simp, run_simps]: "and_then (Inr x) f = f x"
  by (simp add: and_then_def)

lemma and_then_assoc [run_simps]: "and_then (and_then m f) g = and_then m (\<lambda>x. and_then (f x) g)"
  by (cases m) simp_all

lemma and_then_eq_Inr:
  "and_then m f = Inr y \<longleftrightarrow> (\<exists>x. m = Inr x \<and> f x = Inr y)"
  by (cases m) simp_all

lemma and_then_cong [fundef_cong]:
  "m = m' \<Longrightarrow> (\<And>x. m' = Inr x \<Longrightarrow> f x = f' x) \<Longrightarrow> and_then m f = and_then m' f'"
  by (cases m') simp_all

text \<open>
  \<open>for_range i n body\<close> is the loop \<open>for (k = i; k < i + n; k++) body(k)\<close>, left at the first fault.
\<close>

fun for_range :: "nat \<Rightarrow> nat \<Rightarrow> (nat \<Rightarrow> 's \<Rightarrow> 's run) \<Rightarrow> 's \<Rightarrow> 's run" where
  "for_range i 0 body s = Inr s"
| "for_range i (Suc n) body s = and_then (body i s) (for_range (Suc i) n body)"

lemma for_range_pure:
  "(\<And>k s. i \<le> k \<Longrightarrow> k < i + n \<Longrightarrow> body k s = Inr (f k s)) \<Longrightarrow>
   for_range i n body s = Inr (fold f [i..<i + n] s)"
proof (induction n arbitrary: i s)
  case (Suc n)
  then have "for_range (Suc i) n body (f i s) = Inr (fold f [Suc i..<Suc i + n] (f i s))" by simp
  moreover have "[i..<i + Suc n] = i # [Suc i..<Suc i + n]" by (simp add: upt_conv_Cons del: upt_Suc)
  ultimately show ?case using Suc.prems by (simp del: upt_Suc)
qed simp

section \<open>Lists updated in place\<close>

lemma list_all_upt: "list_all P [0..<n] \<longleftrightarrow> (\<forall>k < n. P k)"
  by (auto simp: list_all_iff)


text \<open>
  \<open>upd_nth i f xs\<close> is the array write \<open>xs[i] = f(xs[i])\<close> for an index inside the array.
\<close>

definition upd_nth :: "nat \<Rightarrow> ('a \<Rightarrow> 'a) \<Rightarrow> 'a list \<Rightarrow> 'a list" where
  "upd_nth i f xs = xs[i := f (xs ! i)]"

lemma length_upd_nth [simp, row_simps]: "length (upd_nth i f xs) = length xs"
  by (simp add: upd_nth_def)

lemma nth_upd_nth [row_simps]:
  "i < length xs \<Longrightarrow> upd_nth i f xs ! j = (if i = j then f (xs ! i) else xs ! j)"
  by (simp add: upd_nth_def)

lemma nth_upd_nth_other [simp, row_simps]: "i \<noteq> j \<Longrightarrow> upd_nth i f xs ! j = xs ! j"
  by (simp add: upd_nth_def)

lemma nth_upd_nth_same [simp, row_simps]: "i < length xs \<Longrightarrow> upd_nth i f xs ! i = f (xs ! i)"
  by (simp add: upd_nth_def)

lemma upd_nth_last: "upd_nth (length xs) f (xs @ [x]) = xs @ [f x]"
  by (simp add: upd_nth_def)

lemma map_upd_nth_field:
  "(\<And>x. g (f x) = g x) \<Longrightarrow> map g (upd_nth i f xs) = map g xs"
  by (cases "i < length xs") (auto simp: upd_nth_def map_update list_update_beyond
      intro: list_update_same_conv [THEN iffD2])

lemma set_upd_nth: "x \<in> set (upd_nth i f xs) \<Longrightarrow> x \<in> set xs \<or> (i < length xs \<and> x = f (xs ! i))"
  by (cases "i < length xs")
     (auto simp: upd_nth_def list_update_beyond dest: set_update_subset_insert [THEN subsetD])

lemma map_fst_map_snd: "map fst (map (\<lambda>(k, v). (k, f v)) xs) = map fst xs"
  by (induction xs) auto

section \<open>State machines with an invariant\<close>

text \<open>
  A component that is driven by events: the states it may start in, its step function, and a
  predicate every step keeps. Interpreted by the \<open>Package_Info\<close> loader and by the main loop.
\<close>

locale state_machine =
  fixes start :: "'s \<Rightarrow> bool"
    and step :: "'e \<Rightarrow> 's \<Rightarrow> 's"
    and inv :: "'s \<Rightarrow> bool"
  assumes inv_start: "start s \<Longrightarrow> inv s"
    and inv_step: "inv s \<Longrightarrow> inv (step e s)"
begin

lemma fold_inv: "inv s \<Longrightarrow> inv (fold step es s)"
  by (induction es arbitrary: s) (auto intro: inv_step)

lemma run_inv: "start s \<Longrightarrow> inv (fold step es s)"
  by (intro fold_inv inv_start)

lemma fold_monotone:
  assumes "\<And>e t. inv t \<Longrightarrow> P t \<Longrightarrow> P (step e t)" and "inv s" and "P s"
  shows "P (fold step es s)"
  using assms(2,3) by (induction es arbitrary: s) (auto intro: inv_step assms(1))

end

section \<open>Tables whose rows are found by a key or created\<close>

text \<open>
  The profile and queue tables of the quality-of-service code are all used the same way: look a
  key up, insert a row when there is none, go on with the row. The provider says what a lookup
  returns after an insertion; the client lemmas about \<open>ensure\<close> follow once for all of them.
\<close>

locale keyed_rows =
  fixes find :: "'k \<Rightarrow> 's \<Rightarrow> 'r option"
    and create :: "'k \<Rightarrow> 's \<Rightarrow> 's"
    and ensure :: "'k \<Rightarrow> 's \<Rightarrow> 's"
    and inv :: "'s \<Rightarrow> bool"
  assumes ensure_def: "ensure k s = (case find k s of None \<Rightarrow> create k s | Some _ \<Rightarrow> s)"
    and find_create: "inv s \<Longrightarrow> find k s = None \<Longrightarrow> find k (create k s) \<noteq> None"
    and find_create_other: "inv s \<Longrightarrow> find j s = Some r \<Longrightarrow> find k s = None \<Longrightarrow> find j (create k s) = Some r"
    and inv_create: "inv s \<Longrightarrow> find k s = None \<Longrightarrow> inv (create k s)"
begin

lemma inv_ensure: "inv s \<Longrightarrow> inv (ensure k s)"
  by (auto simp: ensure_def inv_create split: option.splits)

lemma find_ensure: "inv s \<Longrightarrow> \<exists>r. find k (ensure k s) = Some r"
  by (cases "find k s") (auto simp: ensure_def dest: find_create)

lemma find_ensure_keep: "inv s \<Longrightarrow> find j s = Some r \<Longrightarrow> find j (ensure k s) = Some r"
  by (auto simp: ensure_def find_create_other split: option.splits)

lemma ensure_present: "find k s = Some r \<Longrightarrow> ensure k s = s"
  by (simp add: ensure_def)

lemma ensure_idem: "inv s \<Longrightarrow> ensure k (ensure k s) = ensure k s"
  using find_ensure [of s k] by (auto intro: ensure_present)

end

end
