(* ===== verification/C_Strings.thy ===== *)
theory C_Strings
  imports Sysd_Prelude
begin

text \<open>
  The C library's string functions, as far as ops-sysd uses them. A C string is a \<open>string\<close>
  without its terminating NUL; a byte buffer is a list of bytes. A copy into an array of fixed
  size is written with the size, so that truncation and overruns are visible in the model.
\<close>

section \<open>Comparison\<close>

fun strncmp :: "string \<Rightarrow> string \<Rightarrow> nat \<Rightarrow> int" where
  "strncmp s t 0 = 0"
| "strncmp [] [] (Suc n) = 0"
| "strncmp [] (d # t) (Suc n) = -1"
| "strncmp (c # s) [] (Suc n) = 1"
| "strncmp (c # s) (d # t) (Suc n) =
     (if c = d then strncmp s t n else if (of_char c :: nat) < of_char d then -1 else 1)"

fun strcmp :: "string \<Rightarrow> string \<Rightarrow> int" where
  "strcmp [] [] = 0"
| "strcmp [] (d # t) = -1"
| "strcmp (c # s) [] = 1"
| "strcmp (c # s) (d # t) =
     (if c = d then strcmp s t else if (of_char c :: nat) < of_char d then -1 else 1)"

text \<open>\<open>strncmp(s, tag, strlen(tag)) == 0\<close> asks whether \<open>tag\<close> is a prefix of \<open>s\<close>, no more.\<close>

lemma strncmp_tag [cstr_simps]: "strncmp s tag (length tag) = 0 \<longleftrightarrow> prefix tag s"
  by (induction s tag "length tag" rule: strncmp.induct) auto

lemma strncmp_tag_first [cstr_simps]: "strncmp tag s (length tag) = 0 \<longleftrightarrow> prefix tag s"
  by (induction tag s "length tag" rule: strncmp.induct) auto

lemma strcmp_eq [cstr_simps]: "strcmp s t = 0 \<longleftrightarrow> s = t"
  by (induction s t rule: strcmp.induct) auto

section \<open>Copies and concatenation into arrays\<close>

text \<open>
  The characters that \<open>strncpy(dst, src, n)\<close> copies before it pads with NULs, read from the
  bytes \<open>src\<close> that remain of the source object; \<open>None\<close> when it reads past their end.
\<close>

fun strncpy_read :: "byte list \<Rightarrow> nat \<Rightarrow> byte list option" where
  "strncpy_read src 0 = Some []"
| "strncpy_read [] (Suc n) = None"
| "strncpy_read (b # bs) (Suc n) = (if b = 0 then Some [] else map_option ((#) b) (strncpy_read bs n))"

definition string_of_bytes :: "byte list \<Rightarrow> string" where
  "string_of_bytes bs = map (\<lambda>b. char_of (unat b)) bs"

lemma strncpy_read_inside:
  "n \<le> length src \<Longrightarrow> strncpy_read src n = Some (takeWhile (\<lambda>b. b \<noteq> 0) (take n src))"
  by (induction src n rule: strncpy_read.induct) auto

lemma length_strncpy_read: "strncpy_read src n = Some bs \<Longrightarrow> length bs \<le> n"
  by (induction src n arbitrary: bs rule: strncpy_read.induct) (auto split: if_splits)

text \<open>
  \<open>snprintf\<close> and the idiom \<open>strncpy(dst, s, n - 1); dst[n - 1] = 0\<close> keep at most
  \<open>n - 1\<close> characters; \<open>strncat(buf, s, m)\<close> appends at most \<open>m\<close>.
\<close>

definition trunc_copy :: "nat \<Rightarrow> string \<Rightarrow> string" where
  "trunc_copy n s = take (n - 1) s"

definition strncat :: "string \<Rightarrow> string \<Rightarrow> nat \<Rightarrow> string" where
  "strncat buf s m = buf @ take m s"

lemma length_trunc_copy [cstr_simps]: "0 < n \<Longrightarrow> length (trunc_copy n s) < n"
  by (auto simp: trunc_copy_def)

lemma trunc_copy_fits [cstr_simps]: "length s < n \<Longrightarrow> trunc_copy n s = s"
  by (simp add: trunc_copy_def)

text \<open>What a C string can hold.\<close>

definition c_string :: "string \<Rightarrow> bool" where
  "c_string s \<longleftrightarrow> CHR 0x00 \<notin> set s"

lemma c_string_take [cstr_simps]: "c_string s \<Longrightarrow> c_string (take n s)"
  by (auto simp: c_string_def dest: in_set_takeD)

lemma c_string_trunc_copy [cstr_simps]: "c_string s \<Longrightarrow> c_string (trunc_copy n s)"
  by (simp add: trunc_copy_def c_string_take)

lemma c_string_of_bytes: "c_string (string_of_bytes bs) \<longleftrightarrow> 0 \<notin> set bs"
proof -
  have "char_of (unat b) = CHR 0x00 \<longleftrightarrow> b = 0" for b :: byte
  proof -
    have "unat b < 256" by (rule order_less_le_trans [OF unsigned_less]) simp
    then have "char_of (unat b) = (char_of (0 :: nat) :: char) \<longleftrightarrow> unat b = 0" by (simp add: char_of_eq_iff take_bit_eq_mod)
    moreover have "(char_of (0 :: nat) :: char) = CHR 0x00" by code_simp
    ultimately show ?thesis by (metis unat_eq_zero)
  qed
  then show ?thesis by (auto simp: c_string_def string_of_bytes_def image_iff) metis+
qed

lemma strncpy_read_no_nul: "strncpy_read src n = Some bs \<Longrightarrow> 0 \<notin> set bs"
  by (induction src n arbitrary: bs rule: strncpy_read.induct) (auto split: if_splits)

section \<open>Arrays of characters\<close>

text \<open>
  A character array that the code reads as a string is the list of all its elements, NULs included.
  \<open>strncpy(dst, s, strlen(s))\<close> into a zeroed array of \<open>cap\<close> elements writes the characters of \<open>s\<close>
  and no NUL; \<open>copy_into cap s\<close> is what the array then holds, whatever went past its end. Reading
  a string from an array without a NUL leaves the array.
\<close>

definition copy_into :: "nat \<Rightarrow> string \<Rightarrow> string" where
  "copy_into cap s = take cap (s @ replicate cap (CHR 0x00))"

definition c_string_at :: "string \<Rightarrow> string run" where
  "c_string_at buf =
     (if CHR 0x00 \<in> set buf then Inr (takeWhile (\<lambda>c. c \<noteq> CHR 0x00) buf) else Inl Out_Of_Bounds_Read)"

lemma length_copy_into [simp]: "length (copy_into cap s) = cap"
  by (simp add: copy_into_def)

lemma copy_into_zero [simp]: "copy_into 0 s = []"
  by (simp add: copy_into_def)

lemma c_string_at_Nil [simp]: "c_string_at [] = Inl Out_Of_Bounds_Read"
  by (simp add: c_string_at_def)

lemma c_string_at_terminated [cstr_simps]: "c_string s \<Longrightarrow> c_string_at (s @ CHR 0x00 # rest) = Inr s"
  by (induction s) (auto simp: c_string_at_def c_string_def split: if_splits)

text \<open>
  What \<open>strncat(dst, src, n)\<close> takes from an array \<open>src\<close>: it reads up to the NUL, but no more than
  \<open>n\<close> elements.
\<close>

definition c_string_upto :: "nat \<Rightarrow> string \<Rightarrow> string run" where
  "c_string_upto n buf =
     (if CHR 0x00 \<in> set buf \<or> n \<le> length buf then Inr (takeWhile (\<lambda>c. c \<noteq> CHR 0x00) (take n buf))
      else Inl Out_Of_Bounds_Read)"

lemma takeWhile_take: "takeWhile P (take n xs) = take n (takeWhile P xs)"
  by (induction xs arbitrary: n) (auto simp: take_Cons split: nat.split)

lemma c_string_upto_at: "c_string_at buf = Inr s \<Longrightarrow> c_string_upto n buf = Inr (take n s)"
  by (auto simp: c_string_at_def c_string_upto_def takeWhile_take split: if_splits)

text \<open>The copy can be read back just when the array has room for the terminator too.\<close>

lemma c_string_at_copy_into:
  "c_string s \<Longrightarrow> c_string_at (copy_into cap s) = (if length s < cap then Inr s else Inl Out_Of_Bounds_Read)"
proof (cases "length s < cap")
  case True
  then obtain k where "cap - length s = Suc k" by (metis Suc_diff_Suc)
  moreover from True have "copy_into cap s = s @ replicate (cap - length s) (CHR 0x00)"
    by (simp add: copy_into_def min_def)
  moreover assume "c_string s"
  ultimately show ?thesis using True by (simp add: c_string_at_terminated)
qed (auto simp: copy_into_def c_string_at_def c_string_def dest: in_set_takeD)

section \<open>Characters\<close>

definition isspace :: "char \<Rightarrow> bool" where
  "isspace c \<longleftrightarrow> c = CHR '' '' \<or> 9 \<le> (of_char c :: nat) \<and> (of_char c :: nat) \<le> 13"

definition tolower :: "char \<Rightarrow> char" where
  "tolower c = (let k = (of_char c :: nat) in if 65 \<le> k \<and> k \<le> 90 then char_of (k + 32) else c)"

section \<open>Decimal formatting\<close>

text \<open>\<open>%d\<close> and \<open>PRId64\<close>: the decimal digits, with a minus sign for a negative value.\<close>

fun nat_digits :: "nat \<Rightarrow> string" where
  "nat_digits n = (if n < 10 then [char_of (48 + n)] else nat_digits (n div 10) @ [char_of (48 + n mod 10)])"

declare nat_digits.simps [simp del]

definition show_d :: "int \<Rightarrow> string" where
  "show_d i = (if i < 0 then CHR ''-'' # nat_digits (nat (- i)) else nat_digits (nat i))"

definition nat_value :: "string \<Rightarrow> nat" where
  "nat_value s = foldl (\<lambda>n c. 10 * n + (of_char c - 48)) 0 s"

definition int_value :: "string \<Rightarrow> int" where
  "int_value s = (case s of [] \<Rightarrow> 0
     | c # cs \<Rightarrow> if c = CHR ''-'' then - int (nat_value cs) else int (nat_value s))"

lemma of_char_digit [simp]: "d < 10 \<Longrightarrow> (of_char (char_of (48 + d :: nat)) :: nat) = 48 + d"
  by (simp add: of_char_of)

lemma nat_value_digits: "nat_value (nat_digits n) = n"
proof (induction n rule: nat_digits.induct)
  case (1 n)
  then show ?case
    by (subst nat_digits.simps) (auto simp: nat_value_def)
qed

lemma digit_not_minus: "d < 10 \<Longrightarrow> char_of (48 + d :: nat) \<noteq> CHR ''-''"
proof
  assume "d < 10" and "char_of (48 + d) = CHR ''-''"
  then have "(of_char (CHR ''-'') :: nat) = 48 + d" using of_char_digit by metis
  then show False by simp
qed

lemma nat_digits_not_minus: "c \<in> set (nat_digits n) \<Longrightarrow> c \<noteq> CHR ''-''"
proof (induction n rule: nat_digits.induct)
  case (1 n)
  show ?case
    using 1 digit_not_minus [of n] digit_not_minus [of "n mod 10"]
    by (subst (asm) (2) nat_digits.simps) (auto split: if_splits)
qed

lemma nat_digits_nonempty [simp]: "nat_digits n \<noteq> []"
  by (subst nat_digits.simps) simp

text \<open>The printed number reads back: no two values are printed alike.\<close>

lemma int_value_show_d: "int_value (show_d i) = i"
proof (cases "i < 0")
  case True
  then show ?thesis by (simp add: int_value_def show_d_def nat_value_digits)
next
  case False
  obtain c cs where d: "nat_digits (nat i) = c # cs"
    by (cases "nat_digits (nat i)") simp_all
  then have "c \<noteq> CHR ''-''" using nat_digits_not_minus [of c "nat i"] by simp
  with False d show ?thesis
    using nat_value_digits [of "nat i"] by (simp add: int_value_def show_d_def)
qed

lemma length_nat_digits: "0 < k \<Longrightarrow> n < 10 ^ k \<Longrightarrow> length (nat_digits n) \<le> k"
proof (induction n arbitrary: k rule: nat_digits.induct)
  case (1 n)
  show ?case
  proof (cases "n < 10")
    case True
    with 1 show ?thesis by (subst nat_digits.simps) simp
  next
    case False
    from 1 obtain j where k: "k = Suc j" by (cases k) auto
    with 1 False have j: "0 < j" by (cases j) auto
    from 1 k have "n div 10 < 10 ^ j" by (simp add: div_less_iff_less_mult mult.commute)
    with 1 False j have "length (nat_digits (n div 10)) \<le> j" by simp
    with False k show ?thesis by (subst nat_digits.simps) simp
  qed
qed

lemma length_show_d_c_int: "length (show_d (sint (w :: c_int))) \<le> 11"
proof -
  have "sint w < 2 ^ 31" and "- (2 ^ 31) \<le> sint w"
    using sint_range_size [of w] by (auto simp: word_size)
  then have "nat (sint w) < 10 ^ 10" and "nat (- sint w) < 10 ^ 10" by simp_all
  then show ?thesis
    using length_nat_digits [of 10 "nat (sint w)"] length_nat_digits [of 10 "nat (- sint w)"]
    by (auto simp: show_d_def)
qed

lemma length_show_d_int64:
  assumes "- (2 ^ 63) \<le> i" and "i < 2 ^ 63"
  shows "length (show_d i) \<le> 20"
proof -
  have "nat i < 10 ^ 19" and "nat (- i) < 10 ^ 19" using assms by simp_all
  then have "length (nat_digits (nat i)) \<le> 19" and "length (nat_digits (nat (- i))) \<le> 19"
    by (simp_all only: length_nat_digits zero_less_numeral)
  then show ?thesis by (simp add: show_d_def)
qed

end
