(* ===== verification/Options.thy ===== *)
theory Options
  imports C_Strings
begin

text \<open>
  The command line of the daemon, \<open>usage\<close> and \<open>parse_options\<close> of \<open>src/sysd.c\<close>. \<open>getopt_long\<close> of the
  C library is modelled with its abbreviations, attached and separate arguments, clusters of short
  options and the reordering of operands. The options for logging and for daemons belong to the
  OVS library: their table entries and what their handlers do are parameters.
\<close>

section \<open>Options and the library\<close>

datatype arg_kind = No_Argument | Required_Argument | Optional_Argument

record long_option =
  opt_name :: string
  opt_kind :: arg_kind
  opt_val :: int

text \<open>
  \<open>short_kind\<close> is what \<open>getopt_long\<close> reads off the string of short options: which characters are
  options, and whether they take an argument. \<open>handler_exit\<close> says with which code the handler of an
  option ends the process, if it does.
\<close>

record option_library =
  short_kind :: "char \<Rightarrow> arg_kind option"
  posixly_correct :: bool
  daemon_long_options :: "long_option list"
  vlog_long_options :: "long_option list"
  has_handler :: "int \<Rightarrow> bool"
  handler_exit :: "int \<Rightarrow> string option \<Rightarrow> int option"
  program_name :: string
  ovs_rundir :: string
  daemon_usage :: string
  vlog_usage :: string

definition UCHAR_MAX :: int where "UCHAR_MAX = 255"
definition OPT_PEER_CA_CERT :: int where "OPT_PEER_CA_CERT = UCHAR_MAX + 1"
definition OPT_UNIXCTL :: int where "OPT_UNIXCTL = OPT_PEER_CA_CERT + 1"
definition HELP_CHAR :: int where "HELP_CHAR = 104"
definition ERROR_CHAR :: int where "ERROR_CHAR = 63"

definition long_options :: "option_library \<Rightarrow> long_option list" where
  "long_options lib =
     \<lparr>opt_name = ''help'', opt_kind = No_Argument, opt_val = HELP_CHAR\<rparr> #
     \<lparr>opt_name = ''unixctl'', opt_kind = Required_Argument, opt_val = OPT_UNIXCTL\<rparr> #
     daemon_long_options lib @ vlog_long_options lib"

section \<open>The scanner of the C library\<close>

text \<open>
  The state of a scan: what is left of a cluster of short options, the arguments not looked at,
  and the operands met so far. A step returns the option's value, -1 at the end, or \<open>'?'\<close> for an
  error, the argument of the option, and the new state.
\<close>

type_synonym scan = "string \<times> string list \<times> string list"
type_synonym scanned = "int \<times> string option \<times> scan"

definition is_option_word :: "string \<Rightarrow> bool" where
  "is_option_word w \<longleftrightarrow> prefix ''-'' w \<and> w \<noteq> ''-''"

text \<open>
  An exact name, or else a name that begins so; several of them must not differ in their effect.
\<close>

definition find_long :: "long_option list \<Rightarrow> string \<Rightarrow> long_option option" where
  "find_long tab nm =
     (case List.find (\<lambda>opt. opt_name opt = nm) tab of
        Some opt \<Rightarrow> Some opt
      | None \<Rightarrow>
          (case filter (\<lambda>opt. prefix nm (opt_name opt)) tab of
             [] \<Rightarrow> None
           | opt # opts \<Rightarrow>
               if list_all (\<lambda>q. opt_kind q = opt_kind opt \<and> opt_val q = opt_val opt) opts then Some opt else None))"

definition scan_error :: "scan \<Rightarrow> scanned" where
  "scan_error st = (ERROR_CHAR, None, st)"

text \<open>What follows \<open>--\<close>: the name, and the argument behind the equals sign, if there is one.\<close>

definition name_and_value :: "string \<Rightarrow> string \<times> string option" where
  "name_and_value w =
     (takeWhile (\<lambda>c. c \<noteq> CHR ''='') w,
      case dropWhile (\<lambda>c. c \<noteq> CHR ''='') w of [] \<Rightarrow> None | _ # v \<Rightarrow> Some v)"

definition scan_long :: "long_option list \<Rightarrow> string \<Rightarrow> string list \<Rightarrow> string list \<Rightarrow> scanned" where
  "scan_long tab w args ops =
     (let (nm, val) = name_and_value w
      in case find_long tab nm of
           None \<Rightarrow> scan_error ([], args, ops)
         | Some opt \<Rightarrow>
             (case val of
                Some v \<Rightarrow>
                  if opt_kind opt = No_Argument then scan_error ([], args, ops)
                  else (opt_val opt, Some v, [], args, ops)
              | None \<Rightarrow>
                  if opt_kind opt = Required_Argument then
                    (case args of
                       [] \<Rightarrow> scan_error ([], [], ops)
                     | a # args' \<Rightarrow> (opt_val opt, Some a, [], args', ops))
                  else (opt_val opt, None, [], args, ops)))"

definition scan_short :: "option_library \<Rightarrow> char \<Rightarrow> string \<Rightarrow> string list \<Rightarrow> string list \<Rightarrow> scanned" where
  "scan_short lib c cs args ops =
     (case short_kind lib c of
        None \<Rightarrow> scan_error (cs, args, ops)
      | Some No_Argument \<Rightarrow> (of_char c, None, cs, args, ops)
      | Some Optional_Argument \<Rightarrow> (of_char c, if cs = [] then None else Some cs, [], args, ops)
      | Some Required_Argument \<Rightarrow>
          if cs \<noteq> [] then (of_char c, Some cs, [], args, ops)
          else (case args of
             [] \<Rightarrow> scan_error ([], [], ops)
           | a # args' \<Rightarrow> (of_char c, Some a, [], args', ops)))"

fun scan_words :: "option_library \<Rightarrow> long_option list \<Rightarrow> string list \<Rightarrow> string list \<Rightarrow> scanned" where
  "scan_words lib tab [] ops = (-1, None, [], [], ops)"
| "scan_words lib tab (w # args) ops =
     (if w = ''--'' then (-1, None, [], [], ops @ args)
      else if \<not> is_option_word w then
        (if posixly_correct lib then (-1, None, [], [], ops @ w # args) else scan_words lib tab args (ops @ [w]))
      else if prefix ''--'' w then scan_long tab (drop 2 w) args ops
      else scan_short lib (w ! 1) (drop 2 w) args ops)"

definition getopt_long :: "option_library \<Rightarrow> long_option list \<Rightarrow> scan \<Rightarrow> scanned" where
  "getopt_long lib tab st =
     (case st of
        ([], args, ops) \<Rightarrow> scan_words lib tab args ops
      | (c # cs, args, ops) \<Rightarrow> scan_short lib c cs args ops)"

section \<open>usage and parse_options\<close>

definition line_feed :: string where "line_feed = [CHR 0x0A]"

definition usage :: "option_library \<Rightarrow> string" where
  "usage lib =
     program_name lib @ '': OpenSwitch system daemon'' @ line_feed @
     ''usage: '' @ program_name lib @ '' [OPTIONS] [DATABASE]'' @ line_feed @
     ''where DATABASE is a socket on which ovsdb-server is listening'' @ line_feed @
     ''      (default: '' @ [CHR 0x22] @ ''unix:'' @ ovs_rundir lib @ ''/db.sock'' @ [CHR 0x22] @ '').'' @ line_feed @
     daemon_usage lib @ vlog_usage lib @ line_feed @ ''Other options:'' @ line_feed @
     ''  --unixctl=SOCKET        override default control socket name'' @ line_feed @
     ''  -h, --help              display this help message'' @ line_feed"

text \<open>
  What \<open>parse_options\<close> ends with: the process exits, with what it has printed, or the database
  socket is known, with the path of the control socket and the options the library has handled.
\<close>

datatype parsed = Exits int string | Parsed string "string option" "(int \<times> string option) list"

definition scan_weight :: "scan \<Rightarrow> nat" where
  "scan_weight st = (case st of (w, args, ops) \<Rightarrow> length w + sum_list (map (\<lambda>a. length a + 1) args))"

lemma scan_weight_simps [simp]: "scan_weight (w, args, ops) = length w + sum_list (map (\<lambda>a. length a + 1) args)"
  by (simp add: scan_weight_def)

lemma scan_long_weight: "scan_weight (snd (snd (scan_long tab w args ops))) \<le> scan_weight ([], args, ops)"
  by (cases args) (simp_all add: scan_long_def scan_error_def split: prod.split option.split)

lemma scan_short_weight: "scan_weight (snd (snd (scan_short lib ch cs args ops))) \<le> scan_weight (cs, args, ops)"
  by (cases args) (simp_all add: scan_short_def scan_error_def split: option.split arg_kind.split)

lemma scan_words_weight:
  "fst (scan_words lib tab args ops) \<noteq> -1 \<Longrightarrow>
     scan_weight (snd (snd (scan_words lib tab args ops))) < scan_weight ([], args, ops)"
proof (induction lib tab args ops rule: scan_words.induct)
  case (2 lib tab w args ops)
  consider "w = ''--''" | "w \<noteq> ''--''" "\<not> is_option_word w" "posixly_correct lib"
    | "w \<noteq> ''--''" "\<not> is_option_word w" "\<not> posixly_correct lib"
    | "w \<noteq> ''--''" "is_option_word w" "prefix ''--'' w" | "w \<noteq> ''--''" "is_option_word w" "\<not> prefix ''--'' w" by blast
  then show ?case
  proof cases
    case 3
    with 2 show ?thesis by force
  next
    case 4
    with scan_long_weight [of tab "drop 2 w" args ops] show ?thesis by simp
  next
    case 5
    with scan_short_weight [of lib "w ! 1" "drop 2 w" args ops] show ?thesis by simp
  qed (use 2 in auto)
qed simp

lemma getopt_long_weight:
  assumes "fst (getopt_long lib tab st) \<noteq> -1"
  shows "scan_weight (snd (snd (getopt_long lib tab st))) < scan_weight st"
proof (cases st rule: prod_cases3)
  case (fields w args ops)
  show ?thesis
  proof (cases w)
    case Nil
    with assms fields scan_words_weight [of lib tab args ops] show ?thesis by (simp add: getopt_long_def)
  next
    case (Cons c cs)
    with fields scan_short_weight [of lib c cs args ops] show ?thesis by (simp add: getopt_long_def)
  qed
qed

lemma getopt_long_decreases:
  "(c, y) = getopt_long lib tab st \<Longrightarrow> (v, st') = y \<Longrightarrow> c \<noteq> -1 \<Longrightarrow> scan_weight st' < scan_weight st"
  using getopt_long_weight [of lib tab st] by (metis fst_conv snd_conv)

text \<open>
  The loop over the options. \<open>abort\<close> is an assertion failure. Options have positive values, so that
  -1 is the end only.
\<close>

function option_loop :: "option_library \<Rightarrow> scan \<Rightarrow> string option \<Rightarrow> (int \<times> string option) list \<Rightarrow>
    (parsed + string list \<times> string option \<times> (int \<times> string option) list) run" where
  "option_loop lib st unixctl_path handled =
     (case getopt_long lib (long_options lib) st of
        (c, optarg, st') \<Rightarrow>
          if c = -1 then Inr (Inr (snd (snd st'), unixctl_path, handled))
          else if c = HELP_CHAR then Inr (Inl (Exits 0 (usage lib)))
          else if c = OPT_UNIXCTL then option_loop lib st' optarg handled
          else if has_handler lib c then
            (case handler_exit lib c optarg of
               Some code \<Rightarrow> Inr (Inl (Exits code []))
             | None \<Rightarrow> option_loop lib st' unixctl_path (handled @ [(c, optarg)]))
          else if c = ERROR_CHAR then Inr (Inl (Exits 1 []))
          else Inl Assertion_Failure)"
  by pat_completeness auto
termination
  by (relation "measure (\<lambda>(lib, st, u, h). scan_weight st)", simp)
     (simp only: in_measure prod.case, erule (2) getopt_long_decreases)+

declare option_loop.simps [simp del]

definition default_remote :: "option_library \<Rightarrow> string" where
  "default_remote lib = ''unix:'' @ ovs_rundir lib @ ''/db.sock''"

definition parse_options :: "option_library \<Rightarrow> string list \<Rightarrow> parsed run" where
  "parse_options lib args =
     and_then (option_loop lib ([], args, []) None []) (\<lambda>r.
       case r of
         Inl p \<Rightarrow> Inr p
       | Inr (operands, unixctl_path, handled) \<Rightarrow>
           (case operands of
              [] \<Rightarrow> Inr (Parsed (default_remote lib) unixctl_path handled)
            | [remote] \<Rightarrow> Inr (Parsed remote unixctl_path handled)
            | _ \<Rightarrow> Inr (Exits 1 [])))"

section \<open>Command lines as they are written\<close>

text \<open>
  The words of a command line by what they mean: an operand, the path of the control socket in
  either spelling, an option of the library with or without an argument.
\<close>

datatype cmd_word =
    Operand string
  | Unixctl_Word string
  | Unixctl_Words string
  | Library_Option long_option "string option"

fun spell :: "cmd_word \<Rightarrow> string list" where
  "spell (Operand w) = [w]"
| "spell (Unixctl_Word path) = [''--unixctl='' @ path]"
| "spell (Unixctl_Words path) = [''--unixctl'', path]"
| "spell (Library_Option opt None) = [''--'' @ opt_name opt]"
| "spell (Library_Option opt (Some v)) = [''--'' @ opt_name opt @ ''='' @ v]"

text \<open>The library accepts its own option: it handles it and goes on, and it wants the argument that is there.\<close>

definition library_option_ok :: "option_library \<Rightarrow> long_option \<Rightarrow> string option \<Rightarrow> bool" where
  "library_option_ok lib opt v \<longleftrightarrow>
     opt \<in> set (daemon_long_options lib @ vlog_long_options lib) \<and> opt_name opt \<noteq> [] \<and>
     opt_val opt \<notin> {-1, HELP_CHAR, OPT_UNIXCTL} \<and> has_handler lib (opt_val opt) \<and>
     handler_exit lib (opt_val opt) v = None \<and>
     (case v of None \<Rightarrow> opt_kind opt \<noteq> Required_Argument | Some _ \<Rightarrow> opt_kind opt \<noteq> No_Argument)"

fun word_ok :: "option_library \<Rightarrow> cmd_word \<Rightarrow> bool" where
  "word_ok lib (Operand w) \<longleftrightarrow> \<not> is_option_word w"
| "word_ok lib (Unixctl_Word path) \<longleftrightarrow> True"
| "word_ok lib (Unixctl_Words path) \<longleftrightarrow> True"
| "word_ok lib (Library_Option opt v) \<longleftrightarrow> library_option_ok lib opt v"

definition option_table_ok :: "option_library \<Rightarrow> bool" where
  "option_table_ok lib \<longleftrightarrow> distinct (map opt_name (long_options lib)) \<and>
     list_all (\<lambda>opt. CHR ''='' \<notin> set (opt_name opt)) (long_options lib)"

fun operands :: "cmd_word list \<Rightarrow> string list" where
  "operands [] = []"
| "operands (Operand w # ws) = w # operands ws"
| "operands (_ # ws) = operands ws"

fun last_unixctl :: "string option \<Rightarrow> cmd_word list \<Rightarrow> string option" where
  "last_unixctl u [] = u"
| "last_unixctl u (Unixctl_Word path # ws) = last_unixctl (Some path) ws"
| "last_unixctl u (Unixctl_Words path # ws) = last_unixctl (Some path) ws"
| "last_unixctl u (_ # ws) = last_unixctl u ws"

fun library_calls :: "cmd_word list \<Rightarrow> (int \<times> string option) list" where
  "library_calls [] = []"
| "library_calls (Library_Option opt v # ws) = (opt_val opt, v) # library_calls ws"
| "library_calls (_ # ws) = library_calls ws"

section \<open>Lemmas\<close>

lemma find_by_name:
  "inj_on f (set xs) \<Longrightarrow> x \<in> set xs \<Longrightarrow> List.find (\<lambda>q. f q = f x) xs = Some x"
  by (induction xs) (auto simp: inj_on_def)

lemma find_long_exact:
  assumes "option_table_ok lib" and "opt \<in> set (long_options lib)"
  shows "find_long (long_options lib) (opt_name opt) = Some opt"
  using assms find_by_name [of opt_name "long_options lib" opt]
  by (simp add: option_table_ok_def distinct_map find_long_def)

lemma name_and_value_split:
  assumes "CHR ''='' \<notin> set nm"
  shows "name_and_value nm = (nm, None)" and "name_and_value (nm @ CHR ''='' # v) = (nm, Some v)"
  using assms by (induction nm) (auto simp: name_and_value_def split: list.splits)

lemmas scan_word = scan_words.simps(2)

declare scan_word [simp del]

lemma long_word_scanned:
  assumes "option_table_ok lib" and "opt \<in> set (long_options lib)" and "opt_name opt \<noteq> []"
  shows "scan_words lib (long_options lib) ((''--'' @ opt_name opt @ ''='' @ v) # args) ops =
      (if opt_kind opt = No_Argument then scan_error ([], args, ops) else (opt_val opt, Some v, [], args, ops))"
    and "scan_words lib (long_options lib) ((''--'' @ opt_name opt) # args) ops =
      (if opt_kind opt = Required_Argument then
         (case args of [] \<Rightarrow> scan_error ([], [], ops) | a # args' \<Rightarrow> (opt_val opt, Some a, [], args', ops))
       else (opt_val opt, None, [], args, ops))"
proof -
  have nm: "CHR ''='' \<notin> set (opt_name opt)" using assms(1,2) by (simp add: option_table_ok_def list_all_iff)
  note find_long_exact [OF assms(1,2)]
  then show "scan_words lib (long_options lib) ((''--'' @ opt_name opt @ ''='' @ v) # args) ops =
      (if opt_kind opt = No_Argument then scan_error ([], args, ops) else (opt_val opt, Some v, [], args, ops))"
    using assms(3) name_and_value_split(2) [OF nm]
    by (cases "opt_name opt") (simp_all add: scan_word is_option_word_def scan_long_def)
  show "scan_words lib (long_options lib) ((''--'' @ opt_name opt) # args) ops =
      (if opt_kind opt = Required_Argument then
         (case args of [] \<Rightarrow> scan_error ([], [], ops) | a # args' \<Rightarrow> (opt_val opt, Some a, [], args', ops))
       else (opt_val opt, None, [], args, ops))"
    using assms(3) name_and_value_split(1) [OF nm] find_long_exact [OF assms(1,2)]
    by (cases "opt_name opt") (simp_all add: scan_word is_option_word_def scan_long_def)
qed

definition unixctl_option :: long_option where
  "unixctl_option = \<lparr>opt_name = ''unixctl'', opt_kind = Required_Argument, opt_val = OPT_UNIXCTL\<rparr>"

definition help_option :: long_option where
  "help_option = \<lparr>opt_name = ''help'', opt_kind = No_Argument, opt_val = HELP_CHAR\<rparr>"

lemma own_options: "unixctl_option \<in> set (long_options lib)" "help_option \<in> set (long_options lib)"
  by (simp_all add: long_options_def unixctl_option_def help_option_def)

lemma own_option_words:
  assumes "option_table_ok lib"
  shows "scan_words lib (long_options lib) ((''--unixctl='' @ path) # args) ops = (OPT_UNIXCTL, Some path, [], args, ops)"
    and "scan_words lib (long_options lib) (''--unixctl'' # path # args) ops = (OPT_UNIXCTL, Some path, [], args, ops)"
    and "scan_words lib (long_options lib) (''--help'' # args) ops = (HELP_CHAR, None, [], args, ops)"
proof -
  have nm: "opt_name unixctl_option = ''unixctl''" "opt_kind unixctl_option = Required_Argument" "opt_val unixctl_option = OPT_UNIXCTL"
    "opt_name help_option = ''help''" "opt_kind help_option = No_Argument" "opt_val help_option = HELP_CHAR"
    by (simp_all add: unixctl_option_def help_option_def)
  note socket = long_word_scanned [OF assms own_options(1), unfolded nm] and usage = long_word_scanned [OF assms own_options(2), unfolded nm]
  show "scan_words lib (long_options lib) ((''--unixctl='' @ path) # args) ops = (OPT_UNIXCTL, Some path, [], args, ops)"
    using socket(1) [of path args ops] by simp
  show "scan_words lib (long_options lib) (''--unixctl'' # path # args) ops = (OPT_UNIXCTL, Some path, [], args, ops)"
    using socket(2) [of "path # args" ops] by simp
  show "scan_words lib (long_options lib) (''--help'' # args) ops = (HELP_CHAR, None, [], args, ops)"
    using usage(2) [of args ops] by simp
qed

lemma option_values: "HELP_CHAR \<noteq> -1" "OPT_UNIXCTL \<noteq> -1" "OPT_UNIXCTL \<noteq> HELP_CHAR"
  by (simp_all add: HELP_CHAR_def OPT_UNIXCTL_def OPT_PEER_CA_CERT_def UCHAR_MAX_def)

lemma option_loop_words:
  "option_loop lib ([], args, ops) u h =
     (case scan_words lib (long_options lib) args ops of
        (c, optarg, st') \<Rightarrow>
          if c = -1 then Inr (Inr (snd (snd st'), u, h))
          else if c = HELP_CHAR then Inr (Inl (Exits 0 (usage lib)))
          else if c = OPT_UNIXCTL then option_loop lib st' optarg h
          else if has_handler lib c then
            (case handler_exit lib c optarg of
               Some code \<Rightarrow> Inr (Inl (Exits code []))
             | None \<Rightarrow> option_loop lib st' u (h @ [(c, optarg)]))
          else if c = ERROR_CHAR then Inr (Inl (Exits 1 []))
          else Inl Assertion_Failure)"
  by (subst option_loop.simps) (simp add: getopt_long_def)

text \<open>One word of the command line, and then all of them.\<close>

lemma option_loop_word:
  assumes "option_table_ok lib" and "\<not> posixly_correct lib" and "word_ok lib w"
  shows "option_loop lib ([], spell w @ args, ops) u h =
    option_loop lib ([], args, ops @ operands [w]) (last_unixctl u [w]) (h @ library_calls [w])"
proof (cases w)
  case (Operand a)
  then have "a \<noteq> ''--''" "\<not> is_option_word a" using assms(3) by (auto simp: is_option_word_def)
  then show ?thesis using Operand assms(2) by (simp add: option_loop_words scan_word)
next
  case (Unixctl_Word path)
  then show ?thesis
    using own_option_words(1) [OF assms(1), of path args ops] option_values
    by (simp add: option_loop_words [of lib "_ # _"])
next
  case (Unixctl_Words path)
  then show ?thesis
    using own_option_words(2) [OF assms(1), of path args ops] option_values
    by (simp add: option_loop_words [of lib "_ # _"])
next
  case (Library_Option opt v)
  then have opt: "library_option_ok lib opt v" using assms(3) by simp
  then have "opt \<in> set (long_options lib)" "opt_name opt \<noteq> []" by (auto simp: library_option_ok_def long_options_def)
  note long_word_scanned [OF assms(1) this]
  with Library_Option opt show ?thesis
    by (cases v) (auto simp: option_loop_words [of lib "_ # _"] library_option_ok_def)
qed

lemma settings_Cons:
  "operands (w # ws) = operands [w] @ operands ws" "last_unixctl u (w # ws) = last_unixctl (last_unixctl u [w]) ws"
  "library_calls (w # ws) = library_calls [w] @ library_calls ws"
  by (cases w; simp)+

lemma option_loop_spelled:
  assumes "option_table_ok lib" and "\<not> posixly_correct lib" and "list_all (word_ok lib) ws"
  shows "option_loop lib ([], concat (map spell ws) @ args, ops) u h =
    option_loop lib ([], args, ops @ operands ws) (last_unixctl u ws) (h @ library_calls ws)"
  using assms(3)
proof (induction ws arbitrary: ops u h)
  case (Cons w ws)
  then have "option_loop lib ([], spell w @ (concat (map spell ws) @ args), ops) u h =
      option_loop lib ([], concat (map spell ws) @ args, ops @ operands [w]) (last_unixctl u [w]) (h @ library_calls [w])"
    by (intro option_loop_word assms(1,2)) simp
  with Cons show ?case by (simp add: settings_Cons(1,3) [of w ws] settings_Cons(2) [of u w ws])
qed simp

text \<open>With nothing behind them, or with further operands behind \<open>--\<close>.\<close>

lemma parse_spelled:
  assumes "option_table_ok lib" and "\<not> posixly_correct lib" and "list_all (word_ok lib) ws"
    and "tail = [] \<and> rest = [] \<or> tail = ''--'' # rest"
  shows "parse_options lib (concat (map spell ws) @ tail) =
      Inr (case operands ws @ rest of
             [] \<Rightarrow> Parsed (''unix:'' @ ovs_rundir lib @ ''/db.sock'') (last_unixctl None ws) (library_calls ws)
           | [db] \<Rightarrow> Parsed db (last_unixctl None ws) (library_calls ws)
           | _ \<Rightarrow> Exits 1 [])"
proof -
  note spelled = option_loop_spelled [OF assms(1-3), where u = None and h = "[]" and ops = "[]", simplified]
  have "option_loop lib ([], tail, ops) u h = Inr (Inr (ops @ rest, u, h))" for ops u h
    using assms(4) by (auto simp: option_loop_words scan_word)
  then show ?thesis by (simp add: parse_options_def spelled default_remote_def split: list.split)
qed

section \<open>Property\<close>

text \<open>
  C17. Command lines: options may be written in any order and around the operand, with the argument
  of \<open>--unixctl\<close> attached or apart, and everything after \<open>--\<close> is an operand. The daemon gets the one
  operand as its database, the default socket in the run directory when there is none, the path of
  the last \<open>--unixctl\<close>, and the options of the library in their order; with more operands it exits
  with an error, and a request for help prints the usage and exits with success, whatever follows.
\<close>

theorem command_line_settings:
  assumes "option_table_ok lib" and "\<not> posixly_correct lib" and "list_all (word_ok lib) ws"
    and "short_kind lib (CHR ''h'') = Some No_Argument" and "help \<in> {''--help'', ''-h''}"
    and "tail = [] \<and> rest = [] \<or> tail = ''--'' # rest"
  shows "parse_options lib (concat (map spell ws) @ tail) =
      Inr (case operands ws @ rest of
             [] \<Rightarrow> Parsed (''unix:'' @ ovs_rundir lib @ ''/db.sock'') (last_unixctl None ws) (library_calls ws)
           | [db] \<Rightarrow> Parsed db (last_unixctl None ws) (library_calls ws)
           | _ \<Rightarrow> Exits 1 []) \<and>
    parse_options lib (concat (map spell ws) @ help # others) = Inr (Exits 0 (usage lib))"
proof
  note spelled = option_loop_spelled [OF assms(1-3), where u = None and h = "[]" and ops = "[]", simplified]
  show "parse_options lib (concat (map spell ws) @ tail) =
      Inr (case operands ws @ rest of
             [] \<Rightarrow> Parsed (''unix:'' @ ovs_rundir lib @ ''/db.sock'') (last_unixctl None ws) (library_calls ws)
           | [db] \<Rightarrow> Parsed db (last_unixctl None ws) (library_calls ws)
           | _ \<Rightarrow> Exits 1 [])"
    by (rule parse_spelled [OF assms(1-3,6)])
  have "scan_words lib (long_options lib) (help # others) ops = (HELP_CHAR, None, [], others, ops)" for ops
    using assms(4,5) own_option_words(3) [OF assms(1), of others ops]
    by (auto simp: scan_word is_option_word_def scan_short_def HELP_CHAR_def)
  then have "option_loop lib ([], help # others, ops) u h = Inr (Inl (Exits 0 (usage lib)))" for ops u h
    using option_values by (simp add: option_loop_words [of lib "_ # _"])
  then show "parse_options lib (concat (map spell ws) @ help # others) = Inr (Exits 0 (usage lib))"
    by (simp add: parse_options_def spelled)
qed

definition sample_library :: option_library where
  "sample_library = \<lparr>short_kind = (\<lambda>c. if c = CHR ''h'' then Some No_Argument else None), posixly_correct = False,
     daemon_long_options = [\<lparr>opt_name = ''detach'', opt_kind = No_Argument, opt_val = 300\<rparr>,
       \<lparr>opt_name = ''pidfile'', opt_kind = Optional_Argument, opt_val = 301\<rparr>],
     vlog_long_options = [], has_handler = (\<lambda>c. c = 300 \<or> c = 301), handler_exit = (\<lambda>_ _. None),
     program_name = ''ops-sysd'', ovs_rundir = ''/var/run/openvswitch'', daemon_usage = [], vlog_usage = []\<rparr>"

theorem command_line_settings_witness:
  "parse_options sample_library [''--pidfile=p'', ''db'', ''--unixctl'', ''s'', ''--detach''] =
     Inr (Parsed ''db'' (Some ''s'') [(301, Some ''p''), (300, None)])"
proof -
  let ?det = "\<lparr>opt_name = ''detach'', opt_kind = No_Argument, opt_val = 300\<rparr>"
  let ?pid = "\<lparr>opt_name = ''pidfile'', opt_kind = Optional_Argument, opt_val = 301\<rparr>"
  let ?ws = "[Library_Option ?pid (Some ''p''), Operand ''db'', Unixctl_Words ''s'', Library_Option ?det None]"
  have "option_table_ok sample_library" by (simp add: option_table_ok_def long_options_def sample_library_def)
  moreover have "list_all (word_ok sample_library) ?ws"
    by (simp add: library_option_ok_def is_option_word_def sample_library_def HELP_CHAR_def OPT_UNIXCTL_def
        OPT_PEER_CA_CERT_def UCHAR_MAX_def)
  moreover have "\<not> posixly_correct sample_library" "short_kind sample_library (CHR ''h'') = Some No_Argument"
    by (simp_all add: sample_library_def)
  ultimately show ?thesis
    using command_line_settings [of sample_library ?ws "''-h''" "[]" "[]"] by simp
qed

end
