(* ===== verification/Fru.thy ===== *)
theory Fru
  imports C_Strings
begin

unbundle bit_operations_syntax

text \<open>
  The FRU EEPROM reader of \<open>src/sysd_fru.c\<close>: the header, the loop over the type-length-value
  fields with its switch on the type code, the checksum test and the read of the device. The
  bytes of the buffer are explicit, so that every access beyond it and every copy beyond a fixed
  array is an outcome of the model. zlib's \<open>crc32\<close>, the device read and the lookup of fru.yaml are
  arguments. The loop is shown to decode exactly the field list an image encodes.
\<close>

section \<open>Data\<close>

record fru_eeprom =
  country_code :: string
  device_version :: byte
  diag_version :: "string option"
  label_revision :: "string option"
  base_mac_address :: "byte list"
  manufacture_date :: string
  manufacturer :: "string option"
  num_macs :: "16 word"
  onie_version :: "string option"
  part_number :: "string option"
  platform_name :: "string option"
  product_name :: "string option"
  serial_number :: "string option"
  service_tag :: "string option"
  vendor :: "string option"

text \<open>The record as \<open>calloc\<close> leaves it.\<close>

definition fru_zero :: fru_eeprom where
  "fru_zero = \<lparr>country_code = [], device_version = 0, diag_version = None, label_revision = None,
     base_mac_address = replicate 6 0, manufacture_date = [], manufacturer = None, num_macs = 0,
     onie_version = None, part_number = None, platform_name = None, product_name = None,
     serial_number = None, service_tag = None, vendor = None\<rparr>"

datatype fru_code =
    FRU_PRODUCT_NAME_TYPE
  | FRU_PART_NUMBER_TYPE
  | FRU_SERIAL_NUMBER_TYPE
  | FRU_BASE_MAC_ADDRESS_TYPE
  | FRU_MANUFACTURE_DATE_TYPE
  | FRU_DEVICE_VERSION_TYPE
  | FRU_LABEL_REVISION_TYPE
  | FRU_PLATFORM_NAME_TYPE
  | FRU_ONIE_VERSION_TYPE
  | FRU_NUM_MAC_TYPE
  | FRU_MANUFACTURER_TYPE
  | FRU_COUNTRY_CODE_TYPE
  | FRU_VENDOR_TYPE
  | FRU_DIAG_VERSION_TYPE
  | FRU_SERVICE_TAG_TYPE
  | FRU_VENDOR_EXTENSION_TYPE
  | FRU_CRC_TYPE

text \<open>The codes of \<open>include/sysd_fru.h\<close>; \<open>None\<close> is the default branch of the switch.\<close>

definition fru_codes :: "(byte \<times> fru_code) list" where
  "fru_codes =
     [(0x21, FRU_PRODUCT_NAME_TYPE), (0x22, FRU_PART_NUMBER_TYPE), (0x23, FRU_SERIAL_NUMBER_TYPE),
      (0x24, FRU_BASE_MAC_ADDRESS_TYPE), (0x25, FRU_MANUFACTURE_DATE_TYPE),
      (0x26, FRU_DEVICE_VERSION_TYPE), (0x27, FRU_LABEL_REVISION_TYPE),
      (0x28, FRU_PLATFORM_NAME_TYPE), (0x29, FRU_ONIE_VERSION_TYPE), (0x2a, FRU_NUM_MAC_TYPE),
      (0x2b, FRU_MANUFACTURER_TYPE), (0x2c, FRU_COUNTRY_CODE_TYPE), (0x2d, FRU_VENDOR_TYPE),
      (0x2e, FRU_DIAG_VERSION_TYPE), (0x2f, FRU_SERVICE_TAG_TYPE),
      (0xfd, FRU_VENDOR_EXTENSION_TYPE), (0xfe, FRU_CRC_TYPE)]"

definition fru_code_of :: "byte \<Rightarrow> fru_code option" where
  "fru_code_of = map_of fru_codes"

definition FRU_COUNTRY_CODE_LEN :: nat where "FRU_COUNTRY_CODE_LEN = 2"
definition FRU_MANUFACTURE_DATE_LEN :: nat where "FRU_MANUFACTURE_DATE_LEN = 19"
definition FRU_BASE_MAC_ADDRESS_LEN :: nat where "FRU_BASE_MAC_ADDRESS_LEN = 6"
definition SUPPORTED_OCP_FRU_EEPROM_VERSION :: byte where "SUPPORTED_OCP_FRU_EEPROM_VERSION = 1"

text \<open>\<open>sizeof(fru_header_t)\<close>: 8 bytes of identifier, the version, two bytes of length.\<close>

definition fru_header_size :: nat where "fru_header_size = 11"

section \<open>The switch\<close>

text \<open>\<open>SYSD_MALLOC(field, tlv_len + 1); strncpy(field, tlv_value, tlv_len); field[tlv_len] = 0\<close>\<close>

definition heap_string :: "byte list \<Rightarrow> nat \<Rightarrow> string run" where
  "heap_string tlv_value tlv_len =
     (case strncpy_read tlv_value tlv_len of
        None \<Rightarrow> Inl Out_Of_Bounds_Read
      | Some bs \<Rightarrow> Inr (string_of_bytes bs))"

text \<open>
  \<open>strncpy(field, tlv_value, tlv_len + 1); field[tlv_len] = 0\<close> into an array of \<open>cap\<close> bytes
\<close>

definition array_string :: "nat \<Rightarrow> byte list \<Rightarrow> nat \<Rightarrow> string run" where
  "array_string cap tlv_value tlv_len =
     (if cap < tlv_len + 1 then Inl Out_Of_Bounds_Write
      else case strncpy_read tlv_value (tlv_len + 1) of
        None \<Rightarrow> Inl Out_Of_Bounds_Read
      | Some bs \<Rightarrow> Inr (string_of_bytes (take tlv_len bs)))"

definition calc_crc :: "(32 word \<Rightarrow> byte list \<Rightarrow> 32 word) \<Rightarrow> byte list \<Rightarrow> 32 word" where
  "calc_crc crc32 buf = crc32 (crc32 0 []) buf"

text \<open>Big-endian numbers as the code assembles them with shifts.\<close>

definition be16 :: "byte \<Rightarrow> byte \<Rightarrow> 16 word" where
  "be16 b0 b1 = ucast ((push_bit 8 (ucast b0 :: c_int)) OR ucast b1)"

definition be32 :: "byte \<Rightarrow> byte \<Rightarrow> byte \<Rightarrow> byte \<Rightarrow> 32 word" where
  "be32 b0 b1 b2 b3 =
     push_bit 24 (ucast b0) OR push_bit 16 (ucast b1) OR push_bit 8 (ucast b2) OR ucast b3"

text \<open>
  One iteration's switch: \<open>bp\<close> is the whole buffer, \<open>tlv_value\<close> what follows the length byte up to
  the end of the buffer. The result is the function's own success flag (false is its \<open>return
  false\<close>) with the record.
\<close>

fun fru_store :: "(32 word \<Rightarrow> byte list \<Rightarrow> 32 word) \<Rightarrow> byte list \<Rightarrow> nat \<Rightarrow> fru_code \<Rightarrow> nat \<Rightarrow>
    byte list \<Rightarrow> fru_eeprom \<Rightarrow> (bool \<times> fru_eeprom) run" where
  "fru_store crc32 bp len FRU_PRODUCT_NAME_TYPE tlv_len tlv_value fru =
     and_then (heap_string tlv_value tlv_len) (\<lambda>s. Inr (True, fru\<lparr>product_name := Some s\<rparr>))"
| "fru_store crc32 bp len FRU_PART_NUMBER_TYPE tlv_len tlv_value fru =
     and_then (heap_string tlv_value tlv_len) (\<lambda>s. Inr (True, fru\<lparr>part_number := Some s\<rparr>))"
| "fru_store crc32 bp len FRU_SERIAL_NUMBER_TYPE tlv_len tlv_value fru =
     and_then (heap_string tlv_value tlv_len) (\<lambda>s. Inr (True, fru\<lparr>serial_number := Some s\<rparr>))"
| "fru_store crc32 bp len FRU_NUM_MAC_TYPE tlv_len tlv_value fru =
     (case tlv_value of
        b0 # b1 # _ \<Rightarrow> Inr (True, fru\<lparr>num_macs := be16 b0 b1\<rparr>)
      | _ \<Rightarrow> Inl Out_Of_Bounds_Read)"
| "fru_store crc32 bp len FRU_BASE_MAC_ADDRESS_TYPE tlv_len tlv_value fru =
     (if length tlv_value < FRU_BASE_MAC_ADDRESS_LEN then Inl Out_Of_Bounds_Read
      else Inr (True, fru\<lparr>base_mac_address := take FRU_BASE_MAC_ADDRESS_LEN tlv_value\<rparr>))"
| "fru_store crc32 bp len FRU_MANUFACTURE_DATE_TYPE tlv_len tlv_value fru =
     and_then (array_string (FRU_MANUFACTURE_DATE_LEN + 1) tlv_value tlv_len)
       (\<lambda>s. Inr (True, fru\<lparr>manufacture_date := s\<rparr>))"
| "fru_store crc32 bp len FRU_DEVICE_VERSION_TYPE tlv_len tlv_value fru =
     (case tlv_value of
        b0 # _ \<Rightarrow> Inr (True, fru\<lparr>device_version := b0\<rparr>)
      | _ \<Rightarrow> Inl Out_Of_Bounds_Read)"
| "fru_store crc32 bp len FRU_LABEL_REVISION_TYPE tlv_len tlv_value fru =
     and_then (heap_string tlv_value tlv_len) (\<lambda>s. Inr (True, fru\<lparr>label_revision := Some s\<rparr>))"
| "fru_store crc32 bp len FRU_PLATFORM_NAME_TYPE tlv_len tlv_value fru =
     and_then (heap_string tlv_value tlv_len) (\<lambda>s. Inr (True, fru\<lparr>platform_name := Some s\<rparr>))"
| "fru_store crc32 bp len FRU_ONIE_VERSION_TYPE tlv_len tlv_value fru =
     and_then (heap_string tlv_value tlv_len) (\<lambda>s. Inr (True, fru\<lparr>onie_version := Some s\<rparr>))"
| "fru_store crc32 bp len FRU_MANUFACTURER_TYPE tlv_len tlv_value fru =
     and_then (heap_string tlv_value tlv_len) (\<lambda>s. Inr (True, fru\<lparr>manufacturer := Some s\<rparr>))"
| "fru_store crc32 bp len FRU_COUNTRY_CODE_TYPE tlv_len tlv_value fru =
     and_then (array_string (FRU_COUNTRY_CODE_LEN + 1) tlv_value tlv_len)
       (\<lambda>s. Inr (True, fru\<lparr>country_code := s\<rparr>))"
| "fru_store crc32 bp len FRU_VENDOR_TYPE tlv_len tlv_value fru =
     and_then (heap_string tlv_value tlv_len) (\<lambda>s. Inr (True, fru\<lparr>vendor := Some s\<rparr>))"
| "fru_store crc32 bp len FRU_DIAG_VERSION_TYPE tlv_len tlv_value fru =
     and_then (heap_string tlv_value tlv_len) (\<lambda>s. Inr (True, fru\<lparr>diag_version := Some s\<rparr>))"
| "fru_store crc32 bp len FRU_SERVICE_TAG_TYPE tlv_len tlv_value fru =
     and_then (heap_string tlv_value tlv_len) (\<lambda>s. Inr (True, fru\<lparr>service_tag := Some s\<rparr>))"
| "fru_store crc32 bp len FRU_VENDOR_EXTENSION_TYPE tlv_len tlv_value fru = Inr (True, fru)"
| "fru_store crc32 bp len FRU_CRC_TYPE tlv_len tlv_value fru =
     (let crc_len = int len + int fru_header_size - int tlv_len
      in if crc_len < 0 \<or> int (length bp) < crc_len then Inl Out_Of_Bounds_Read
         else case tlv_value of
           v0 # v1 # v2 # v3 # _ \<Rightarrow>
             Inr (calc_crc crc32 (take (nat crc_len) bp) = be32 v0 v1 v2 v3, fru)
         | _ \<Rightarrow> Inl Out_Of_Bounds_Read)"

section \<open>The loop and the device\<close>

text \<open>
  The \<open>while (idx < len)\<close> loop of \<open>sysd_process_eeprom\<close>: the code and length bytes are read behind
  the header at offset \<open>idx\<close>, and \<open>skip\<close> is the length plus the two bytes.
\<close>

function eeprom_loop :: "(32 word \<Rightarrow> byte list \<Rightarrow> 32 word) \<Rightarrow> byte list \<Rightarrow> nat \<Rightarrow> nat \<Rightarrow>
    fru_eeprom \<Rightarrow> (bool \<times> fru_eeprom) run" where
  "eeprom_loop crc32 bp len idx fru =
     (if \<not> idx < len then Inr (True, fru)
      else case drop (fru_header_size + idx) bp of
        code # tlv_len # tlv_value \<Rightarrow>
          (case fru_code_of code of
             None \<Rightarrow> Inr (False, fru)
           | Some c \<Rightarrow>
               and_then (fru_store crc32 bp len c (unat tlv_len) tlv_value fru)
                 (\<lambda>(ok, fru'). if \<not> ok then Inr (False, fru')
                    else eeprom_loop crc32 bp len (idx + (unat tlv_len + 2)) fru'))
      | _ \<Rightarrow> Inl Out_Of_Bounds_Read)"
  by pat_completeness auto
termination
  by (relation "measure (\<lambda>(crc32, bp, len, idx, fru). len - idx)") auto

declare eeprom_loop.simps [simp del]

definition sysd_process_eeprom :: "(32 word \<Rightarrow> byte list \<Rightarrow> 32 word) \<Rightarrow> byte list \<Rightarrow> fru_eeprom \<Rightarrow>
    nat \<Rightarrow> (bool \<times> fru_eeprom) run" where
  "sysd_process_eeprom crc32 buf fru len = eeprom_loop crc32 buf len 0 fru"

text \<open>
  The buffer a successful device read of \<open>n\<close> bytes leaves; the device delivers \<open>n\<close> bytes, so the
  padding only makes the definition total.
\<close>

definition read_buffer :: "nat \<Rightarrow> byte list \<Rightarrow> byte list" where
  "read_buffer n bs = take n (bs @ replicate n 0)"

text \<open>
  \<open>sysd_read_fru_eeprom\<close>. \<open>get_fru_info\<close> is \<open>sysd_cfg_yaml_get_fru_info\<close> (its return code and the
  record it fills) and \<open>fru_read k n\<close> is the \<open>k\<close>-th call of \<open>sysd_cfg_yaml_fru_read\<close> for \<open>n\<close> bytes,
  \<open>None\<close> when it fails. The code stores the return code of the first in a variable of type
  \<open>bool\<close> before it asks whether it is negative. A buffer that cannot be allocated has the result of
  a second read that fails.
\<close>

definition c_bool :: "int \<Rightarrow> int" where
  "c_bool i = (if i \<noteq> 0 then 1 else 0)"

definition sysd_read_fru_eeprom :: "(32 word \<Rightarrow> byte list \<Rightarrow> 32 word) \<Rightarrow> bool \<Rightarrow>
    (fru_eeprom \<Rightarrow> (int \<times> fru_eeprom) run) \<Rightarrow> (nat \<Rightarrow> nat \<Rightarrow> byte list option) \<Rightarrow> fru_eeprom \<Rightarrow>
    (int \<times> fru_eeprom) run" where
  "sysd_read_fru_eeprom crc32 fru_yaml get_fru_info fru_read fru =
     (if fru_yaml then
        and_then (get_fru_info fru)
          (\<lambda>(rc, fru'). if 0 > c_bool rc then Inr (-1, fru') else Inr (0, fru'))
      else case fru_read 0 fru_header_size of
        None \<Rightarrow> Inr (-1, fru)
      | Some hdr \<Rightarrow>
          (let header = read_buffer fru_header_size hdr;
               total_len = be16 (header ! 9) (header ! 10);
               len = unat total_len + fru_header_size + 1
           in if SUPPORTED_OCP_FRU_EEPROM_VERSION < header ! 8 then Inr (-1, fru)
              else case fru_read 1 len of
                None \<Rightarrow> Inr (-1, fru)
              | Some bs \<Rightarrow>
                  and_then (sysd_process_eeprom crc32 (read_buffer len bs) fru (unat total_len))
                    (\<lambda>(ok, fru'). Inr (if ok then 0 else -1, fru'))))"

section \<open>Specification: field lists and their encoding\<close>

text \<open>
  What an image means, without offsets: a list of fields, each a code with its value, encoded one
  after the other. \<open>fru_decode\<close> takes the fields in order and stops at the first illegal code or
  wrong checksum; \<open>store_field\<close> is what a field of legal size contributes.
\<close>

type_synonym tlv = "byte \<times> byte list"

definition encode_tlv :: "tlv \<Rightarrow> byte list" where
  "encode_tlv t = fst t # of_nat (length (snd t)) # snd t"

definition encode_area :: "tlv list \<Rightarrow> byte list" where
  "encode_area ts = concat (map encode_tlv ts)"

definition cstring :: "byte list \<Rightarrow> string" where
  "cstring v = string_of_bytes (takeWhile (\<lambda>b. b \<noteq> 0) v)"

fun store_field :: "fru_code \<Rightarrow> byte list \<Rightarrow> fru_eeprom \<Rightarrow> fru_eeprom" where
  "store_field FRU_PRODUCT_NAME_TYPE v fru = fru\<lparr>product_name := Some (cstring v)\<rparr>"
| "store_field FRU_PART_NUMBER_TYPE v fru = fru\<lparr>part_number := Some (cstring v)\<rparr>"
| "store_field FRU_SERIAL_NUMBER_TYPE v fru = fru\<lparr>serial_number := Some (cstring v)\<rparr>"
| "store_field FRU_BASE_MAC_ADDRESS_TYPE v fru = fru\<lparr>base_mac_address := v\<rparr>"
| "store_field FRU_MANUFACTURE_DATE_TYPE v fru = fru\<lparr>manufacture_date := cstring v\<rparr>"
| "store_field FRU_DEVICE_VERSION_TYPE v fru = fru\<lparr>device_version := v ! 0\<rparr>"
| "store_field FRU_LABEL_REVISION_TYPE v fru = fru\<lparr>label_revision := Some (cstring v)\<rparr>"
| "store_field FRU_PLATFORM_NAME_TYPE v fru = fru\<lparr>platform_name := Some (cstring v)\<rparr>"
| "store_field FRU_ONIE_VERSION_TYPE v fru = fru\<lparr>onie_version := Some (cstring v)\<rparr>"
| "store_field FRU_NUM_MAC_TYPE v fru =
     fru\<lparr>num_macs := of_nat (256 * unat (v ! 0) + unat (v ! 1))\<rparr>"
| "store_field FRU_MANUFACTURER_TYPE v fru = fru\<lparr>manufacturer := Some (cstring v)\<rparr>"
| "store_field FRU_COUNTRY_CODE_TYPE v fru = fru\<lparr>country_code := cstring v\<rparr>"
| "store_field FRU_VENDOR_TYPE v fru = fru\<lparr>vendor := Some (cstring v)\<rparr>"
| "store_field FRU_DIAG_VERSION_TYPE v fru = fru\<lparr>diag_version := Some (cstring v)\<rparr>"
| "store_field FRU_SERVICE_TAG_TYPE v fru = fru\<lparr>service_tag := Some (cstring v)\<rparr>"
| "store_field FRU_VENDOR_EXTENSION_TYPE v fru = fru"
| "store_field FRU_CRC_TYPE v fru = fru"

text \<open>The sizes the record has room for.\<close>

fun field_size_ok :: "fru_code \<Rightarrow> nat \<Rightarrow> bool" where
  "field_size_ok FRU_BASE_MAC_ADDRESS_TYPE n \<longleftrightarrow> n = 6"
| "field_size_ok FRU_MANUFACTURE_DATE_TYPE n \<longleftrightarrow> n \<le> 19"
| "field_size_ok FRU_DEVICE_VERSION_TYPE n \<longleftrightarrow> n = 1"
| "field_size_ok FRU_NUM_MAC_TYPE n \<longleftrightarrow> n = 2"
| "field_size_ok FRU_COUNTRY_CODE_TYPE n \<longleftrightarrow> n \<le> 2"
| "field_size_ok FRU_CRC_TYPE n \<longleftrightarrow> n = 4"
| "field_size_ok _ n \<longleftrightarrow> n \<le> 255"

definition tlv_ok :: "tlv \<Rightarrow> bool" where
  "tlv_ok t \<longleftrightarrow> length (snd t) \<le> 255 \<and>
     (case fru_code_of (fst t) of None \<Rightarrow> True | Some c \<Rightarrow> field_size_ok c (length (snd t)))"

definition crc_value :: "byte list \<Rightarrow> 32 word" where
  "crc_value v = be32 (v ! 0) (v ! 1) (v ! 2) (v ! 3)"

fun fru_decode :: "32 word \<Rightarrow> tlv list \<Rightarrow> fru_eeprom \<Rightarrow> bool \<times> fru_eeprom" where
  "fru_decode chksum [] fru = (True, fru)"
| "fru_decode chksum ((code, v) # ts) fru =
     (case fru_code_of code of
        None \<Rightarrow> (False, fru)
      | Some c \<Rightarrow>
          if c = FRU_CRC_TYPE \<and> crc_value v \<noteq> chksum then (False, fru)
          else fru_decode chksum ts (store_field c v fru))"

section \<open>Lemmas\<close>

lemma heap_string_value: "heap_string (v @ r) (length v) = Inr (cstring v)"
  by (simp add: heap_string_def strncpy_read_inside cstring_def)

lemma take_takeWhile_append: "take (length v) (takeWhile P (v @ [x])) = takeWhile P v"
  by (induction v) auto

lemma array_string_value:
  assumes "length v < cap" and "r \<noteq> []"
  shows "array_string cap (v @ r) (length v) = Inr (cstring v)"
proof -
  obtain x r' where "r = x # r'" using assms(2) by (cases r) auto
  then have "take (length v + 1) (v @ r) = v @ [x]" by simp
  moreover have "strncpy_read (v @ r) (length v + 1) =
      Some (takeWhile (\<lambda>b. b \<noteq> 0) (take (length v + 1) (v @ r)))"
    using assms(2) by (intro strncpy_read_inside) (cases r, auto)
  ultimately show ?thesis
    using assms(1) by (simp add: array_string_def cstring_def take_takeWhile_append)
qed

text \<open>The shifts assemble the big-endian value.\<close>

lemma be16_value: "be16 b0 b1 = of_nat (256 * unat b0 + unat b1)"
proof -
  have or: "push_bit 8 (ucast b0 :: 16 word) OR ucast b1 = push_bit 8 (ucast b0) + ucast b1"
    by (rule disjunctive_add [symmetric])
       (auto simp: bit_push_bit_iff bit_unsigned_iff dest: bit_imp_le_length)
  have "be16 b0 b1 = push_bit 8 (ucast b0 :: 16 word) OR ucast b1"
    unfolding be16_def
    by (rule bit_word_eqI) (auto simp: bit_simps)
  also have "\<dots> = of_nat (256 * unat b0 + unat b1)"
    unfolding or by (simp add: push_bit_eq_mult unsigned_of_nat)
  finally show ?thesis .
qed

lemma unat_be16: "unat (be16 b0 b1) = 256 * unat b0 + unat b1"
proof -
  have "unat b < 256" for b :: byte by (rule order_less_le_trans [OF unsigned_less]) simp
  from this [of b0] this [of b1] show ?thesis unfolding be16_value unat_of_nat by simp
qed

lemma length_4: "length v = 4 \<Longrightarrow> v = [v ! 0, v ! 1, v ! 2, v ! 3]"
  by (auto simp: length_Suc_conv numeral_eq_Suc)

lemma fru_store_value:
  assumes "field_size_ok c (length v)" and "r \<noteq> []" and "c \<noteq> FRU_CRC_TYPE"
  shows "fru_store crc32 bp len c (length v) (v @ r) fru = Inr (True, store_field c v fru)"
proof (cases c)
  case FRU_NUM_MAC_TYPE
  with assms(1) obtain b0 b1 where "v = [b0, b1]" by (auto simp: length_Suc_conv numeral_2_eq_2)
  with FRU_NUM_MAC_TYPE show ?thesis by (simp add: be16_value)
next
  case FRU_DEVICE_VERSION_TYPE
  with assms(1) obtain b where "v = [b]" by (auto simp: length_Suc_conv)
  with FRU_DEVICE_VERSION_TYPE show ?thesis by simp
qed (use assms in \<open>simp_all add: heap_string_value array_string_value FRU_BASE_MAC_ADDRESS_LEN_def
      FRU_COUNTRY_CODE_LEN_def FRU_MANUFACTURE_DATE_LEN_def\<close>)

lemma fru_store_crc:
  assumes "length v = 4" and "len + 7 \<le> length bp"
  shows "fru_store crc32 bp len FRU_CRC_TYPE 4 (v @ r) fru =
    Inr (calc_crc crc32 (take (len + 7) bp) = crc_value v, fru)"
proof -
  have v: "v @ r = v ! 0 # v ! 1 # v ! 2 # v ! 3 # r"
    using length_4 [OF assms(1)] by (metis append_Cons append_Nil)
  have "nat (int len + int fru_header_size - int 4) = len + 7"
    and "\<not> (int len + int fru_header_size - int 4 < 0 \<or> int (length bp) < int len + int fru_header_size - int 4)"
    using assms(2) by (simp_all add: fru_header_size_def)
  then show ?thesis unfolding fru_store.simps Let_def v by (simp add: crc_value_def)
qed

lemma length_encode_tlv [simp]: "length (encode_tlv t) = length (snd t) + 2"
  by (simp add: encode_tlv_def)

lemma encode_area_Cons [simp]: "encode_area (t # ts) = encode_tlv t @ encode_area ts"
  by (simp add: encode_area_def)

lemma encode_area_Nil [simp]: "encode_area [] = []"
  by (simp add: encode_area_def)

lemma unat_length_byte: "n \<le> 255 \<Longrightarrow> unat (of_nat n :: byte) = n"
  by (simp add: unat_of_nat)

text \<open>
  The loop, started anywhere in the area with the encoded fields \<open>ts\<close> and at least one more byte
  ahead, decodes \<open>ts\<close>.
\<close>

lemma eeprom_loop_decodes:
  assumes "drop (fru_header_size + idx) bp = encode_area ts @ pad" and "pad \<noteq> []"
    and "len = idx + length (encode_area ts)" and "len + 7 \<le> length bp" and "\<forall>t \<in> set ts. tlv_ok t"
  shows "eeprom_loop crc32 bp len idx fru = Inr (fru_decode (calc_crc crc32 (take (len + 7) bp)) ts fru)"
  using assms(1,3,5)
proof (induction ts arbitrary: idx fru)
  case Nil
  then show ?case by (simp add: eeprom_loop.simps [of _ _ _ idx])
next
  case (Cons t ts)
  obtain code v where t: "t = (code, v)" by (cases t)
  let ?rest = "encode_area ts @ pad"
  have here: "drop (fru_header_size + idx) bp = code # of_nat (length v) # (v @ ?rest)"
    using Cons.prems(1) by (simp add: t encode_tlv_def)
  have size: "length v \<le> 255" and ok: "\<And>c. fru_code_of code = Some c \<Longrightarrow> field_size_ok c (length v)"
    using Cons.prems(3) by (auto simp: t tlv_ok_def)
  have u: "unat (of_nat (length v) :: byte) = length v" using size by (rule unat_length_byte)
  have more: "idx < len" using Cons.prems(2) by (simp add: t)
  have "drop (fru_header_size + (idx + (length v + 2))) bp =
      drop (length v + 2) (drop (fru_header_size + idx) bp)"
    by (simp add: ac_simps)
  also have "\<dots> = ?rest" by (simp add: here)
  finally have after: "drop (fru_header_size + (idx + (length v + 2))) bp = ?rest" .
  have IH: "eeprom_loop crc32 bp len (idx + (length v + 2)) fru' =
      Inr (fru_decode (calc_crc crc32 (take (len + 7) bp)) ts fru')" for fru'
    using Cons.prems after by (intro Cons.IH) (auto simp: t)
  have rest: "?rest \<noteq> []" using assms(2) by simp
  show ?case
  proof (cases "fru_code_of code")
    case None
    with more here show ?thesis
      by (simp add: eeprom_loop.simps [of _ _ _ idx] t)
  next
    case (Some c)
    show ?thesis
    proof (cases "c = FRU_CRC_TYPE")
      case True
      then have "length v = 4" using ok [OF Some] by simp
      with True Some more here u IH show ?thesis
        using fru_store_crc [OF _ assms(4), of v crc32 ?rest]
        by (auto simp: eeprom_loop.simps [of _ _ _ idx] t)
    next
      case False
      with Some more here u IH show ?thesis
        using fru_store_value [OF ok [OF Some] rest False]
        by (simp add: eeprom_loop.simps [of _ _ _ idx] t)
    qed
  qed
qed

text \<open>When the decoding accepts, every field is legal and the record is the fields in order.\<close>

definition fields_accepted :: "32 word \<Rightarrow> tlv list \<Rightarrow> bool" where
  "fields_accepted chksum ts \<longleftrightarrow> (\<forall>(code, v) \<in> set ts. \<exists>c. fru_code_of code = Some c
     \<and> (c = FRU_CRC_TYPE \<longrightarrow> crc_value v = chksum))"

definition store_fields :: "tlv list \<Rightarrow> fru_eeprom \<Rightarrow> fru_eeprom" where
  "store_fields ts fru = fold (\<lambda>(code, v). store_field (the (fru_code_of code)) v) ts fru"

lemma fru_decode_accepts:
  "fst (fru_decode chksum ts fru) = fields_accepted chksum ts"
  by (induction chksum ts fru rule: fru_decode.induct)
     (auto simp: fields_accepted_def split: option.split)

lemma fru_decode_record:
  "fields_accepted chksum ts \<Longrightarrow> fru_decode chksum ts fru = (True, store_fields ts fru)"
  by (induction chksum ts fru rule: fru_decode.induct)
     (auto simp: fields_accepted_def store_fields_def split: option.split)

lemma read_buffer_exact: "length bs = n \<Longrightarrow> read_buffer n bs = bs"
  by (simp add: read_buffer_def)

section \<open>Types of the record\<close>

text \<open>
  What the declaration of \<open>fru_eeprom_t\<close> allows: texts without a NUL inside, in the arrays with
  room for their terminator, and a MAC address of six bytes. Every store keeps it.
\<close>

definition fru_strings :: "fru_eeprom \<Rightarrow> string option list" where
  "fru_strings fru = [diag_version fru, label_revision fru, manufacturer fru, onie_version fru, part_number fru,
     platform_name fru, product_name fru, serial_number fru, service_tag fru, vendor fru]"

definition fru_typed :: "fru_eeprom \<Rightarrow> bool" where
  "fru_typed fru \<longleftrightarrow> c_string (country_code fru) \<and> length (country_code fru) \<le> FRU_COUNTRY_CODE_LEN \<and>
     length (base_mac_address fru) = FRU_BASE_MAC_ADDRESS_LEN \<and>
     c_string (manufacture_date fru) \<and> length (manufacture_date fru) \<le> FRU_MANUFACTURE_DATE_LEN \<and>
     list_all (\<lambda>s. case s of None \<Rightarrow> True | Some t \<Rightarrow> c_string t) (fru_strings fru)"

lemma fru_zero_typed: "fru_typed fru_zero"
  by (simp add: fru_typed_def fru_zero_def fru_strings_def c_string_def FRU_BASE_MAC_ADDRESS_LEN_def)

lemma heap_string_typed: "heap_string v n = Inr s \<Longrightarrow> c_string s"
  by (auto simp: heap_string_def c_string_of_bytes dest: strncpy_read_no_nul split: option.splits)

lemma array_string_typed: "array_string cap v n = Inr s \<Longrightarrow> c_string s \<and> length s < cap"
proof -
  assume "array_string cap v n = Inr s"
  then obtain bs where bs: "strncpy_read v (n + 1) = Some bs" "s = string_of_bytes (take n bs)" "n < cap"
    by (auto simp: array_string_def split: option.splits if_splits)
  then have "0 \<notin> set (take n bs)" using strncpy_read_no_nul [OF bs(1)] by (auto dest: in_set_takeD)
  with bs show ?thesis by (auto simp: c_string_of_bytes) (simp add: string_of_bytes_def)
qed

lemma fru_store_typed:
  assumes "fru_store crc32 bp len c n v fru = Inr (ok, fru')" and "fru_typed fru"
  shows "fru_typed fru'"
proof (cases c)
  case FRU_CRC_TYPE
  then have "fru' = fru" using assms(1) by (auto simp: Let_def split: if_splits list.splits)
  then show ?thesis using assms(2) by simp
qed (use assms in \<open>auto simp: fru_typed_def fru_strings_def and_then_eq_Inr heap_string_typed
       dest: array_string_typed split: list.splits if_splits\<close>)

lemma eeprom_loop_typed:
  "eeprom_loop crc32 bp len idx fru = Inr (ok, fru') \<Longrightarrow> fru_typed fru \<Longrightarrow> fru_typed fru'"
proof (induction crc32 bp len idx fru arbitrary: ok fru' rule: eeprom_loop.induct)
  case (1 crc32 bp len idx fru)
  show ?case
  proof (cases "idx < len")
    case False
    with 1 show ?thesis by (simp add: eeprom_loop.simps)
  next
    case True
    then obtain code tlv_len tlv_value where here: "drop (fru_header_size + idx) bp = code # tlv_len # tlv_value"
      using 1(2) by (auto simp: eeprom_loop.simps [of _ _ _ idx] split: list.splits)
    show ?thesis
    proof (cases "fru_code_of code")
      case None
      with True here 1 show ?thesis by (simp add: eeprom_loop.simps [of _ _ _ idx])
    next
      case (Some c)
      with True here 1(2) obtain ok1 fru1 where st: "fru_store crc32 bp len c (unat tlv_len) tlv_value fru = Inr (ok1, fru1)"
        and cont: "(if \<not> ok1 then Inr (False, fru1) else eeprom_loop crc32 bp len (idx + (unat tlv_len + 2)) fru1) = Inr (ok, fru')"
        by (auto simp: eeprom_loop.simps [of _ _ _ idx] and_then_eq_Inr)
      have t: "fru_typed fru1" using fru_store_typed [OF st 1(3)] .
      show ?thesis
      proof (cases ok1)
        case False
        with cont t show ?thesis by simp
      next
        case ok: True
        from cont ok have "eeprom_loop crc32 bp len (idx + (unat tlv_len + 2)) fru1 = Inr (ok, fru')" by simp
        from 1(1) [OF _ here refl Some st refl _ this t] True ok show ?thesis by simp
      qed
    qed
  qed
qed

lemma read_fru_typed:
  assumes "sysd_read_fru_eeprom crc32 fru_yaml get_fru_info fru_read fru = Inr (rc, fru')" and "fru_typed fru"
    and "\<And>rc f. get_fru_info fru = Inr (rc, f) \<Longrightarrow> fru_typed f"
  shows "fru_typed fru'"
  using assms
  by (auto simp: sysd_read_fru_eeprom_def and_then_eq_Inr Let_def sysd_process_eeprom_def
      split: if_splits option.splits dest: eeprom_loop_typed)

section \<open>The properties\<close>

text \<open>
  C24. Decoding: for every header, every list of fields of the sizes the record has room for, and
  every checksum function, \<open>sysd_process_eeprom\<close> run on the encoded image gives exactly the
  decoded field list, including the early return at an illegal code or a wrong checksum, and never
  reads or writes out of bounds.
\<close>

theorem eeprom_image_decoded:
  assumes "length hdr = fru_header_size" and "pad \<noteq> []" and "\<forall>t \<in> set ts. tlv_ok t"
  shows "sysd_process_eeprom crc32 (hdr @ encode_area ts @ pad) fru (length (encode_area ts)) =
    Inr (fru_decode (calc_crc crc32 (take (length (encode_area ts) + 7) (hdr @ encode_area ts @ pad))) ts fru)"
  unfolding sysd_process_eeprom_def
  using assms by (intro eeprom_loop_decodes) (auto simp: fru_header_size_def Suc_le_eq)

text \<open>An image: 8 bytes of identifier, version, big-endian length of the area, the area.\<close>

definition eeprom_image :: "byte list \<Rightarrow> byte \<Rightarrow> tlv list \<Rightarrow> byte list" where
  "eeprom_image magic ver ts =
     magic @ [ver, of_nat (length (encode_area ts) div 256), of_nat (length (encode_area ts) mod 256)]
       @ encode_area ts"

lemma image_length_bytes:
  assumes "n < 65536"
  shows "unat (be16 (of_nat (n div 256)) (of_nat (n mod 256))) = n"
proof -
  have "unat (of_nat (n div 256) :: byte) = n div 256" and "unat (of_nat (n mod 256) :: byte) = n mod 256"
    using assms by (simp_all add: unat_length_byte less_mult_imp_div_less)
  then show ?thesis by (simp add: unat_be16)
qed

text \<open>
  C10. Round trip through the device: with an EEPROM that holds an image of a supported version,
  \<open>sysd_read_fru_eeprom\<close> returns 0 exactly if every field has a known code and every checksum field
  equals the checksum of all bytes but the last four, and the record it fills is then the fields
  stored in order, so that the last field of a kind wins.
\<close>

theorem fru_eeprom_roundtrip:
  assumes "length magic = 8" and "ver \<le> SUPPORTED_OCP_FRU_EEPROM_VERSION" and "pad \<noteq> []"
    and "length (encode_area ts) < 65536" and "\<forall>t \<in> set ts. tlv_ok t"
  shows "\<exists>fru'. sysd_read_fru_eeprom crc32 False get_fru_info
        (\<lambda>k n. Some (take n (eeprom_image magic ver ts @ pad))) fru =
      Inr (if fields_accepted (calc_crc crc32 (take (length (encode_area ts) + 7) (eeprom_image magic ver ts))) ts
           then 0 else -1, fru')
    \<and> (fields_accepted (calc_crc crc32 (take (length (encode_area ts) + 7) (eeprom_image magic ver ts))) ts
         \<longrightarrow> fru' = store_fields ts fru)"
proof -
  let ?n = "length (encode_area ts)"
  let ?image = "eeprom_image magic ver ts"
  let ?sum = "calc_crc crc32 (take (?n + 7) ?image)"
  define D where "D = ?image @ pad"
  define hdr where "hdr = magic @ [ver, of_nat (?n div 256), of_nat (?n mod 256)]"
  obtain x pad' where pad: "pad = x # pad'" using assms(3) by (cases pad) auto
  have image: "?image = hdr @ encode_area ts" by (simp add: eeprom_image_def hdr_def)
  have hdr_size: "length hdr = fru_header_size" using assms(1) by (simp add: hdr_def fru_header_size_def)
  have fields: "hdr ! 8 = ver" "hdr ! 9 = of_nat (?n div 256)" "hdr ! 10 = of_nat (?n mod 256)"
    using assms(1) by (simp_all add: hdr_def nth_append)
  have D: "D = (hdr @ encode_area ts @ [x]) @ pad'" by (simp add: D_def image pad)
  have first: "read_buffer fru_header_size (take fru_header_size D) = hdr"
    using hdr_size by (simp add: D read_buffer_exact)
  have body: "read_buffer (Suc (?n + fru_header_size)) (take (Suc (?n + fru_header_size)) D) =
      hdr @ encode_area ts @ [x]"
  proof -
    have len: "length (hdr @ encode_area ts @ [x]) = Suc (?n + fru_header_size)"
      using hdr_size by simp
    then have "take (Suc (?n + fru_header_size)) D = hdr @ encode_area ts @ [x]"
      unfolding D by (metis append_eq_conv_conj)
    with len show ?thesis by (simp only: read_buffer_exact)
  qed
  have crc: "take (?n + 7) (hdr @ encode_area ts @ [x]) = take (?n + 7) ?image"
    using hdr_size by (simp add: image fru_header_size_def)
  have "sysd_process_eeprom crc32 (hdr @ encode_area ts @ [x]) fru ?n = Inr (fru_decode ?sum ts fru)"
    using eeprom_image_decoded [OF hdr_size _ assms(5), of "[x]" crc32 fru] unfolding crc by simp
  then have "sysd_read_fru_eeprom crc32 False get_fru_info (\<lambda>k n. Some (take n D)) fru =
      Inr (if fst (fru_decode ?sum ts fru) then 0 else -1, snd (fru_decode ?sum ts fru))"
    using assms(2)
    by (auto simp: sysd_read_fru_eeprom_def Let_def first fields image_length_bytes [OF assms(4)] body
        split: prod.split)
  then show ?thesis
    using fru_decode_accepts [of ?sum ts fru] fru_decode_record [of ?sum ts fru] by (auto simp: D_def)
qed

text \<open>A checksum function for the concrete runs: the sum of the bytes.\<close>

definition byte_sum :: "32 word \<Rightarrow> byte list \<Rightarrow> 32 word" where
  "byte_sum c bs = c + sum_list (map ucast bs)"

definition sample_magic :: "byte list" where
  "sample_magic = [84, 108, 118, 73, 110, 102, 111, 0]"

definition sample_fields :: "tlv list" where
  "sample_fields = [(0x21, [88, 56, 54]), (0x2a, [0, 74]), (0x24, [0x70, 0x72, 0xcf, 0, 0, 1]),
     (0xfe, [0, 0, 7, 24])]"

lemmas sample_simps = sample_magic_def sample_fields_def eeprom_image_def encode_area_def
  encode_tlv_def fru_code_of_def fru_codes_def

lemma sample_strings [simp]: "cstring [88, 56, 54] = ''X86''" "cstring [65] = ''A''"
  by code_simp+

lemma sample_fields_ok: "\<forall>t \<in> set sample_fields. tlv_ok t"
  by (simp add: sample_simps tlv_ok_def)

lemma sample_fields_length: "length (encode_area sample_fields) = 23"
  by (simp add: sample_simps)

lemma sample_fields_accepted:
  "fields_accepted (calc_crc byte_sum (take (length (encode_area sample_fields) + 7)
     (eeprom_image sample_magic 1 sample_fields))) sample_fields"
  by (simp add: fields_accepted_def calc_crc_def byte_sum_def crc_value_def be32_def sample_simps)

theorem eeprom_image_decoded_witness:
  "\<exists>r. sysd_process_eeprom byte_sum (replicate 11 0 @ encode_area [(0x22, [65])] @ [0]) fru_zero 3 = Inr (True, r)
     \<and> part_number r = Some ''A''"
  using eeprom_image_decoded [of "replicate 11 0" "[0]" "[(0x22, [65])]" byte_sum fru_zero]
  by (simp add: sample_simps tlv_ok_def fru_header_size_def numeral_3_eq_3)

theorem fru_eeprom_roundtrip_witness:
  "\<exists>r. sysd_read_fru_eeprom byte_sum False (\<lambda>f. Inr (0, f))
       (\<lambda>k n. Some (take n (eeprom_image sample_magic 1 sample_fields @ [0]))) fru_zero = Inr (0, r)
     \<and> product_name r = Some ''X86'' \<and> num_macs r = 74
     \<and> base_mac_address r = [0x70, 0x72, 0xcf, 0, 0, 1]"
proof -
  have "store_fields sample_fields fru_zero =
      fru_zero\<lparr>product_name := Some ''X86'', num_macs := 74, base_mac_address := [0x70, 0x72, 0xcf, 0, 0, 1]\<rparr>"
    by (simp add: sample_simps store_fields_def)
  then show ?thesis
    using fru_eeprom_roundtrip [OF _ _ _ _ sample_fields_ok, of sample_magic 1 "[0]" byte_sum
        "\<lambda>f. Inr (0, f)" fru_zero] sample_fields_accepted sample_fields_length
    by (simp add: sample_magic_def SUPPORTED_OCP_FRU_EEPROM_VERSION_def)
qed

text \<open>
  Nothing is written to the record unless the device and the header pass: when the header
  cannot be read, when its version is above the supported one, or when the rest cannot be read,
  \<open>sysd_read_fru_eeprom\<close> returns -1 with the record as it was.
\<close>

lemma fru_read_guards:
  assumes "fru_read 0 fru_header_size = None \<or>
    (\<exists>hdr. fru_read 0 fru_header_size = Some hdr \<and> length hdr = fru_header_size \<and>
       (SUPPORTED_OCP_FRU_EEPROM_VERSION < hdr ! 8 \<or>
        fru_read 1 (unat (be16 (hdr ! 9) (hdr ! 10)) + fru_header_size + 1) = None))"
  shows "sysd_read_fru_eeprom crc32 False get_fru_info fru_read fru = Inr (-1, fru)"
  using assms by (auto simp: sysd_read_fru_eeprom_def Let_def read_buffer_exact)

theorem fru_read_guards_witness:
  "sysd_read_fru_eeprom byte_sum False (\<lambda>f. Inr (0, f)) (\<lambda>k n. Some (replicate n 2)) fru_zero = Inr (-1, fru_zero)"
  by (rule fru_read_guards) (simp add: fru_header_size_def SUPPORTED_OCP_FRU_EEPROM_VERSION_def)

text \<open>
  The two fields that are copied to arrays of fixed size are copied with the length the EEPROM
  claims: a country code of 3 or more bytes, or a manufacture date of 20 or more, at the start of
  the area makes the copy write beyond the array, whatever the rest of the image holds.
\<close>

lemma fru_oversize_field_overruns:
  assumes "length hdr = fru_header_size" and "0 < len" and "length v \<le> 255"
    and "code = 0x2c \<and> 3 \<le> length v \<or> code = 0x25 \<and> 20 \<le> length v"
  shows "sysd_process_eeprom crc32 (hdr @ encode_tlv (code, v) @ rest) fru len = Inl Out_Of_Bounds_Write"
  using assms
  by (auto simp: sysd_process_eeprom_def eeprom_loop.simps [of _ _ _ 0] encode_tlv_def fru_code_of_def
      fru_codes_def array_string_def FRU_COUNTRY_CODE_LEN_def FRU_MANUFACTURE_DATE_LEN_def unat_length_byte)

theorem fru_oversize_field_overruns_witness:
  "sysd_process_eeprom byte_sum (replicate 11 0 @ encode_tlv (0x2c, [85, 83, 65]) @ [0xfe, 4, 0, 0, 0, 0, 0])
     fru_zero 11 = Inl Out_Of_Bounds_Write"
  by (rule fru_oversize_field_overruns) (simp_all add: fru_header_size_def)

end
