(* ===== verification/Subsystem.thy ===== *)
theory Subsystem
  imports Fru
begin

unbundle bit_operations_syntax

text \<open>
  The subsystem data of \<open>src/sysd.c\<close> and the YAML access layer \<open>src/sysd_cfg_yaml.c\<close> under it: the
  YAML initialisation sequence, the FRU information taken from fru.yaml (with the \<open>sscanf\<close> that
  stores whole integers into the byte array of the MAC address), the enumeration of the base
  subsystem with its MAC address pool, and the enumeration of its interfaces. The config-yaml and
  ops-utils libraries, the random numbers and the allocator are arguments.
\<close>

section \<open>YAML initialisation\<close>

text \<open>The return codes of the config-yaml calls of one start, and whether the device was found.\<close>

record yaml_results =
  add_subsystem_rc :: int
  parse_devices_rc :: int
  parse_ports_rc :: int
  parse_fru_rc :: int
  parse_qos_rc :: int
  parse_acl_rc :: int
  init_devices_rc :: int
  fru_dev_found :: bool

definition sysd_cfg_yaml_open :: "yaml_results \<Rightarrow> bool" where
  "sysd_cfg_yaml_open y = (if add_subsystem_rc y \<noteq> 0 then False else True)"

text \<open>
  The success flag and the new value of the global \<open>fru_yaml\<close>. The code of a missing fru.yaml is
  defined by the library, hence an argument. Failures of the QoS and ACL files are only logged.
\<close>

definition sysd_cfg_yaml_init :: "int \<Rightarrow> yaml_results \<Rightarrow> bool \<Rightarrow> bool \<times> bool" where
  "sysd_cfg_yaml_init FRU_YAML_NOT_FOUND y fru_yaml =
     (if \<not> sysd_cfg_yaml_open y then (False, fru_yaml)
      else if 0 > parse_devices_rc y then (False, fru_yaml)
      else if 0 > parse_ports_rc y then (False, fru_yaml)
      else if FRU_YAML_NOT_FOUND \<noteq> parse_fru_rc y \<and> 0 > parse_fru_rc y then (False, fru_yaml)
      else
        (let fru_yaml' = (if FRU_YAML_NOT_FOUND = parse_fru_rc y then False else fru_yaml)
         in if 0 > init_devices_rc y then (False, fru_yaml')
            else if \<not> fru_dev_found y then (False, fru_yaml')
            else (True, fru_yaml')))"

section \<open>Scanning a MAC address\<close>

definition hex_value :: "char \<Rightarrow> nat option" where
  "hex_value c = (let k = (of_char c :: nat) in
     if 48 \<le> k \<and> k \<le> 57 then Some (k - 48)
     else if 65 \<le> k \<and> k \<le> 70 then Some (k - 55)
     else if 97 \<le> k \<and> k \<le> 102 then Some (k - 87)
     else None)"

fun scan_digits :: "string \<Rightarrow> nat \<Rightarrow> nat \<times> string" where
  "scan_digits [] n = (n, [])"
| "scan_digits (c # s) n =
     (case hex_value c of None \<Rightarrow> (n, c # s) | Some d \<Rightarrow> scan_digits s (16 * n + d))"

definition scan_sign :: "string \<Rightarrow> bool \<times> string" where
  "scan_sign s =
     (case s of
        [] \<Rightarrow> (False, [])
      | c # r \<Rightarrow> if c = CHR ''-'' then (True, r) else if c = CHR ''+'' then (False, r) else (False, s))"

definition skip_0x :: "string \<Rightarrow> string" where
  "skip_0x s =
     (case s of
        z # x # h # r \<Rightarrow>
          if z = CHR ''0'' \<and> (x = CHR ''x'' \<or> x = CHR ''X'') \<and> hex_value h \<noteq> None then h # r else s
      | _ \<Rightarrow> s)"

text \<open>
  The conversion \<open>%x\<close>: white space, a sign, a prefix, digits; the value is read as an
  \<open>unsigned long\<close> of 64 bits, which saturates, and stored as an \<open>unsigned int\<close>.
\<close>

definition scan_hex :: "string \<Rightarrow> (32 word \<times> string) option" where
  "scan_hex s =
     (let (neg, s1) = scan_sign (dropWhile isspace s);
          s2 = skip_0x s1
      in case s2 of
        [] \<Rightarrow> None
      | c # _ \<Rightarrow>
          if hex_value c = None then None
          else
            (let (n, r) = scan_digits s2 0;
                 v = (if 2 ^ 64 \<le> n then 2 ^ 64 - 1 else int n)
             in Some (of_int (if neg \<and> n < 2 ^ 64 then - v else v), r)))"

text \<open>
  The bytes of the record from \<open>base_mac_address\<close> on: its 6 bytes and the 20 of
  \<open>manufacture_date\<close>, which follow directly. A conversion stores the four bytes of its value,
  lowest first, at the address it is given.
\<close>

definition store_uint :: "nat \<Rightarrow> 32 word \<Rightarrow> byte list \<Rightarrow> byte list" where
  "store_uint i w region =
     region[i := ucast w, i + 1 := ucast (drop_bit 8 w), i + 2 := ucast (drop_bit 16 w),
            i + 3 := ucast (drop_bit 24 w)]"

text \<open>The \<open>k\<close> conversions from the \<open>i\<close>-th on of the format \<open>%x:%x:%x:%x:%x:%x\<close>.\<close>

fun sscanf_mac :: "nat \<Rightarrow> nat \<Rightarrow> string \<Rightarrow> byte list \<Rightarrow> byte list" where
  "sscanf_mac i 0 s region = region"
| "sscanf_mac i (Suc k) s region =
     (case scan_hex s of
        None \<Rightarrow> region
      | Some (w, r) \<Rightarrow>
          (let region' = store_uint i w region
           in case r of
                c # r' \<Rightarrow> if c = CHR '':'' then sscanf_mac (Suc i) k r' region' else region'
              | [] \<Rightarrow> region'))"

section \<open>FRU information from fru.yaml\<close>

text \<open>The config-yaml structure, a null pointer being \<open>None\<close>.\<close>

record yaml_fru_info =
  yf_country_code :: "string option"
  yf_diag_version :: "string option"
  yf_label_revision :: "string option"
  yf_base_mac_address :: "string option"
  yf_manufacture_date :: "string option"
  yf_manufacturer :: "string option"
  yf_num_macs :: c_int
  yf_onie_version :: "string option"
  yf_part_number :: "string option"
  yf_platform_name :: "string option"
  yf_product_name :: "string option"
  yf_serial_number :: "string option"
  yf_service_tag :: "string option"
  yf_vendor :: "string option"

text \<open>\<open>rand k\<close> is the \<open>k\<close>-th random number after the seeding.\<close>

definition sysd_cfg_yaml_get_fru_info :: "yaml_fru_info option \<Rightarrow> (nat \<Rightarrow> c_int) \<Rightarrow> fru_eeprom \<Rightarrow>
    (int \<times> fru_eeprom) run" where
  "sysd_cfg_yaml_get_fru_info fru_info rand fru =
     (case fru_info of
        None \<Rightarrow> Inr (-1, fru)
      | Some y \<Rightarrow>
          (case (yf_country_code y, yf_base_mac_address y, yf_manufacture_date y) of
             (Some country, Some mac, Some date) \<Rightarrow>
               (let region = sscanf_mac 0 6 mac (base_mac_address fru @ replicate 20 0);
                    mac_bytes = (take 6 region)[3 := ucast (rand 0 AND 0xff), 4 := ucast (rand 1 AND 0xff),
                      5 := ucast (rand 2 AND 0xff)]
                in Inr (0, fru\<lparr>country_code := trunc_copy (FRU_COUNTRY_CODE_LEN + 1) country,
                     diag_version := yf_diag_version y,
                     label_revision := yf_label_revision y,
                     base_mac_address := mac_bytes,
                     manufacture_date := trunc_copy (FRU_MANUFACTURE_DATE_LEN + 1) date,
                     manufacturer := yf_manufacturer y,
                     num_macs := ucast (yf_num_macs y),
                     onie_version := yf_onie_version y,
                     part_number := yf_part_number y,
                     platform_name := yf_platform_name y,
                     product_name := yf_product_name y,
                     serial_number := yf_serial_number y,
                     service_tag := yf_service_tag y,
                     vendor := yf_vendor y\<rparr>))
           | _ \<Rightarrow> Inl Null_Dereference))"

section \<open>The base subsystem and its MAC addresses\<close>

text \<open>
  A port of the port file. The strings and the null-terminated arrays of the config-yaml structure
  are pointers, each of which may be null; \<open>port_name\<close>, \<open>connector\<close> and so on are what lies behind
  a pointer that is not.
\<close>

record yaml_port =
  port_name_ptr :: "string option"
  pluggable :: bool
  connector_ptr :: "string option"
  max_speed :: c_int
  speeds_ptr :: "c_int list option"
  device :: c_int
  device_port :: c_int
  capabilities_ptr :: "string list option"
  subports_ptr :: "string list option"
  parent_port :: "string option"

definition port_name :: "yaml_port \<Rightarrow> string" where "port_name p = the (port_name_ptr p)"
definition connector :: "yaml_port \<Rightarrow> string" where "connector p = the (connector_ptr p)"
definition speeds :: "yaml_port \<Rightarrow> c_int list" where "speeds p = the (speeds_ptr p)"
definition capabilities :: "yaml_port \<Rightarrow> string list" where "capabilities p = the (capabilities_ptr p)"
definition subports :: "yaml_port \<Rightarrow> string list" where "subports p = the (subports_ptr p)"

lemmas port_defs = port_name_def connector_def speeds_def capabilities_def subports_def

definition port_complete :: "yaml_port \<Rightarrow> bool" where
  "port_complete p \<longleftrightarrow> port_name_ptr p \<noteq> None \<and> connector_ptr p \<noteq> None \<and> speeds_ptr p \<noteq> None \<and>
     capabilities_ptr p \<noteq> None \<and> subports_ptr p \<noteq> None"

record yaml_port_info =
  number_ports :: c_int
  max_port_speed :: c_int
  max_transmission_unit :: c_int
  max_lag_count :: c_int
  max_lag_member_count :: c_int
  l3_port_requires_internal_vlan :: c_int

record subsystem =
  subsystem_name :: string
  subsystem_type :: "string option"
  subsystem_valid :: bool
  intf_count :: int
  intf_cmn_info :: "yaml_port_info option"
  interfaces :: "yaml_port list"
  fru_eeprom :: fru_eeprom
  nxt_mac_addr :: "64 word"
  num_free_macs :: int
  mgmt_mac_addr :: "64 word"
  system_mac_addr :: "64 word"

definition subsystem_zero :: subsystem where
  "subsystem_zero = \<lparr>subsystem_name = [], subsystem_type = None, subsystem_valid = False, intf_count = 0,
     intf_cmn_info = None, interfaces = [], fru_eeprom = fru_zero, nxt_mac_addr = 0, num_free_macs = 0,
     mgmt_mac_addr = 0, system_mac_addr = 0\<rparr>"

definition MAX_SUBSYSTEM_NAME_LEN :: nat where "MAX_SUBSYSTEM_NAME_LEN = 512"
definition SYSD_BASE_SUBSYSTEM :: string where "SYSD_BASE_SUBSYSTEM = ''base''"
definition SYSD_SUBSYSTEM_TYPE_SYSTEM :: string where "SYSD_SUBSYSTEM_TYPE_SYSTEM = ''system''"

text \<open>The two \<open>if (ptr->num_free_macs > 0)\<close> blocks, in order.\<close>

definition take_mgmt_mac :: "subsystem \<Rightarrow> subsystem" where
  "take_mgmt_mac s =
     (if num_free_macs s > 0 then
        s\<lparr>mgmt_mac_addr := nxt_mac_addr s, num_free_macs := num_free_macs s - 1,
          nxt_mac_addr := nxt_mac_addr s + 1\<rparr>
      else s)"

definition take_system_mac :: "subsystem \<Rightarrow> subsystem" where
  "take_system_mac s =
     (if num_free_macs s > 0 then
        s\<lparr>system_mac_addr := nxt_mac_addr s, num_free_macs := num_free_macs s - 1,
          nxt_mac_addr := nxt_mac_addr s + 1\<rparr>
      else s)"

text \<open>
  \<open>sysd_get_subsystem_info\<close>: \<open>calloc_ok 0\<close> is the allocation of the array, \<open>calloc_ok 1\<close> of the one
  subsystem; \<open>read_fru\<close> is \<open>sysd_read_fru_eeprom\<close>, \<open>mac_value\<close> the library's conversion of the six
  bytes to a number. The subsystem is returned as the code leaves it, \<open>None\<close> when there is none.
\<close>

definition sysd_get_subsystem_info :: "(nat \<Rightarrow> bool) \<Rightarrow> (byte list \<Rightarrow> 64 word) \<Rightarrow>
    (fru_eeprom \<Rightarrow> (int \<times> fru_eeprom) run) \<Rightarrow> (int \<times> subsystem option) run" where
  "sysd_get_subsystem_info calloc_ok mac_value read_fru =
     (if \<not> calloc_ok 0 \<or> \<not> calloc_ok 1 then Inr (-1, None)
      else and_then (read_fru fru_zero)
        (\<lambda>(rc, fru).
           (let s0 = subsystem_zero\<lparr>fru_eeprom := fru\<rparr>
            in if rc \<noteq> 0 then Inr (-1, Some s0)
               else
                 (let s1 = s0\<lparr>subsystem_name := take MAX_SUBSYSTEM_NAME_LEN SYSD_BASE_SUBSYSTEM,
                        subsystem_type := Some SYSD_SUBSYSTEM_TYPE_SYSTEM,
                        num_free_macs := uint (num_macs fru),
                        nxt_mac_addr := mac_value (base_mac_address fru)\<rparr>
                  in Inr (0, Some (take_system_mac (take_mgmt_mac s1)))))))"

section \<open>The interfaces\<close>

text \<open>The loop over the interface indices; \<open>None\<close> when some interface is missing.\<close>

fun collect_ports :: "(nat \<Rightarrow> yaml_port option) \<Rightarrow> nat \<Rightarrow> nat \<Rightarrow> yaml_port list option" where
  "collect_ports port_info idx 0 = Some []"
| "collect_ports port_info idx (Suc n) =
     (case port_info idx of
        None \<Rightarrow> None
      | Some p \<Rightarrow> map_option ((#) p) (collect_ports port_info (Suc idx) n))"

definition sysd_get_interface_info :: "bool \<Rightarrow> yaml_port_info option \<Rightarrow> int \<Rightarrow>
    (nat \<Rightarrow> yaml_port option) \<Rightarrow> subsystem \<Rightarrow> int \<times> subsystem" where
  "sysd_get_interface_info calloc_ok cmn_info count port_info s =
     (case cmn_info of
        None \<Rightarrow> (-1, s)
      | Some info \<Rightarrow>
          if count \<le> 0 then (-1, s)
          else if \<not> calloc_ok then (-1, s)
          else case collect_ports port_info 0 (nat count) of
            None \<Rightarrow> (-1, s)
          | Some ps \<Rightarrow> (0, s\<lparr>intf_count := count, intf_cmn_info := Some info, interfaces := ps\<rparr>))"

section \<open>Lemmas\<close>

text \<open>The usual spelling of a MAC address: two hexadecimal digits per byte, colons between.\<close>

definition hex_char :: "nat \<Rightarrow> char" where
  "hex_char d = ''0123456789abcdef'' ! d"

definition hex_byte :: "byte \<Rightarrow> string" where
  "hex_byte b = [hex_char (unat b div 16), hex_char (unat b mod 16)]"

fun mac_string :: "byte list \<Rightarrow> string" where
  "mac_string [] = []"
| "mac_string [b] = hex_byte b"
| "mac_string (b # bs) = hex_byte b @ CHR '':'' # mac_string bs"

lemma hex_char_props:
  assumes "d < 16"
  shows "hex_value (hex_char d) = Some d" and "\<not> isspace (hex_char d)"
    and "hex_char d \<noteq> CHR ''-''" and "hex_char d \<noteq> CHR ''+''" and "hex_char d \<noteq> CHR ''x''" and "hex_char d \<noteq> CHR ''X''"
proof -
  have "list_all (\<lambda>d. hex_value (hex_char d) = Some d \<and> \<not> isspace (hex_char d) \<and> hex_char d \<noteq> CHR ''-''
      \<and> hex_char d \<noteq> CHR ''+'' \<and> hex_char d \<noteq> CHR ''x'' \<and> hex_char d \<noteq> CHR ''X'') [0..<16]"
    by code_simp
  then show "hex_value (hex_char d) = Some d" and "\<not> isspace (hex_char d)"
    and "hex_char d \<noteq> CHR ''-''" and "hex_char d \<noteq> CHR ''+''" and "hex_char d \<noteq> CHR ''x''" and "hex_char d \<noteq> CHR ''X''"
    using assms by (auto simp: list_all_iff)
qed

lemma hex_value_colon [simp]: "hex_value (CHR '':'') = None"
  by code_simp

definition no_digit_first :: "string \<Rightarrow> bool" where
  "no_digit_first r \<longleftrightarrow> (case r of [] \<Rightarrow> True | c # _ \<Rightarrow> c = CHR '':'')"

lemma scan_digits_stop: "no_digit_first r \<Longrightarrow> scan_digits r n = (n, r)"
  by (auto simp: no_digit_first_def split: list.splits)

lemma scan_hex_byte:
  assumes "no_digit_first r"
  shows "scan_hex (hex_byte b @ r) = Some (ucast b, r)"
proof -
  let ?h = "unat b div 16" and ?l = "unat b mod 16"
  have "unat b < 256" by (rule order_less_le_trans [OF unsigned_less]) simp
  then have h: "?h < 16" and l: "?l < 16" by (simp_all add: less_mult_imp_div_less)
  note hp = hex_char_props [OF h] and lp = hex_char_props [OF l]
  have digits: "scan_digits (hex_char ?h # hex_char ?l # r) 0 = (unat b, r)"
    using hp(1) lp(1) assms by (simp add: scan_digits_stop)
  have skip: "skip_0x (hex_char ?h # hex_char ?l # r) = hex_char ?h # hex_char ?l # r"
    using lp by (simp add: skip_0x_def split: list.split)
  have sign: "scan_sign (hex_char ?h # hex_char ?l # r) = (False, hex_char ?h # hex_char ?l # r)"
    using hp by (simp add: scan_sign_def)
  have "\<not> 2 ^ 64 \<le> unat b" using \<open>unat b < 256\<close> by simp
  then show ?thesis
    using hp by (simp add: scan_hex_def hex_byte_def Let_def sign skip digits del: scan_digits.simps)
qed

lemma store_uint_byte:
  assumes "i + 3 < length region"
  shows "store_uint i (ucast b) region ! j =
    (if j = i then b else if i < j \<and> j \<le> i + 3 then 0 else region ! j)"
proof -
  have zero: "ucast (drop_bit n (ucast b :: 32 word)) = (0 :: byte)" if "8 \<le> n" for n
    using that by (intro bit_word_eqI) (auto simp: bit_simps dest: bit_imp_le_length)
  have low: "ucast (ucast b :: 32 word) = b" by (rule bit_word_eqI) (auto simp: bit_simps)
  show ?thesis
    using assms by (auto simp: store_uint_def nth_list_update zero low)
qed

lemma length_store_uint [simp]: "length (store_uint i w region) = length region"
  by (simp add: store_uint_def)

lemma no_digit_first_mac_rest: "no_digit_first (CHR '':'' # s)" "no_digit_first []"
  by (simp_all add: no_digit_first_def)

text \<open>Scanning the spelled address stores its bytes, each over the zeros of the one before.\<close>

lemma sscanf_mac_string:
  "i + length bs + 3 \<le> length region \<Longrightarrow>
   length (sscanf_mac i (length bs) (mac_string bs) region) = length region \<and>
   (\<forall>j < i + length bs. sscanf_mac i (length bs) (mac_string bs) region ! j =
      (if j < i then region ! j else bs ! (j - i)))"
proof (induction bs arbitrary: i region rule: mac_string.induct)
  case (2 b)
  then show ?case
    using scan_hex_byte [OF no_digit_first_mac_rest(2), of b]
    by (auto simp: store_uint_byte)
next
  case (3 b c bs)
  let ?region = "store_uint i (ucast b) region"
  have scan: "scan_hex (hex_byte b @ CHR '':'' # mac_string (c # bs)) = Some (ucast b, CHR '':'' # mac_string (c # bs))"
    by (rule scan_hex_byte [OF no_digit_first_mac_rest(1)])
  have IH: "length (sscanf_mac (Suc i) (length (c # bs)) (mac_string (c # bs)) ?region) = length ?region \<and>
     (\<forall>j < Suc i + length (c # bs). sscanf_mac (Suc i) (length (c # bs)) (mac_string (c # bs)) ?region ! j =
        (if j < Suc i then ?region ! j else (c # bs) ! (j - Suc i)))"
    using 3 by (intro "3.IH") simp
  have run: "sscanf_mac i (length (b # c # bs)) (mac_string (b # c # bs)) region =
      sscanf_mac (Suc i) (length (c # bs)) (mac_string (c # bs)) ?region"
    using scan by (simp add: Let_def)
  have region: "?region ! j = (if j < i then region ! j else b)" if "j < Suc i" for j
    using that 3 by (auto simp: store_uint_byte)
  show ?case
    unfolding run using IH region by (auto simp: nth_Cons' Suc_diff_le not_less less_Suc_eq)
qed simp

lemma sscanf_mac_bytes:
  assumes "length bs = 6" and "length old = 6"
  shows "take 6 (sscanf_mac 0 6 (mac_string bs) (old @ replicate 20 0)) = bs"
proof -
  have "length (sscanf_mac 0 6 (mac_string bs) (old @ replicate 20 0)) = 26
    \<and> (\<forall>j < 6. sscanf_mac 0 6 (mac_string bs) (old @ replicate 20 0) ! j = bs ! j)"
    using sscanf_mac_string [of 0 bs "old @ replicate 20 0"] assms by simp
  then show ?thesis
    using assms(1) by (intro nth_equalityI) auto
qed

lemma collect_ports_eq:
  "collect_ports port_info i n = Some ps \<longleftrightarrow>
     length ps = n \<and> (\<forall>k < n. port_info (i + k) = Some (ps ! k))"
proof (induction port_info i n arbitrary: ps rule: collect_ports.induct)
  case (2 port_info idx n)
  show ?case
  proof (cases ps)
    case Nil
    then show ?thesis by (auto split: option.split)
  next
    case (Cons q qs)
    then show ?thesis
      using 2 by (auto simp: All_less_Suc2 split: option.split)
  qed
qed auto

lemma offset_neq:
  fixes w :: "64 word"
  assumes "0 < k" and "k < 2 ^ 64"
  shows "w + of_int k \<noteq> w"
proof -
  have "\<not> 2 ^ 64 dvd k" using assms by (simp add: zdvd_not_zless)
  then have "of_int k \<noteq> (0 :: 64 word)" by (simp add: word_of_int_eq_0_iff)
  then show ?thesis by simp
qed

text \<open>The pool after the two allocations, for a pool of \<open>n\<close> addresses from \<open>base\<close> on.\<close>

lemma take_two_macs:
  fixes s
  assumes "num_free_macs s = n" and "nxt_mac_addr s = base" and "0 \<le> n"
    and "mgmt_mac_addr s = 0" and "system_mac_addr s = 0"
  defines "t \<equiv> take_system_mac (take_mgmt_mac s)"
  shows "num_free_macs t = max 0 (n - 2)" and "nxt_mac_addr t = base + of_int (min 2 n)"
    and "mgmt_mac_addr t = (if n = 0 then 0 else base)"
    and "system_mac_addr t = (if n \<le> 1 then 0 else base + 1)"
    and "subsystem_name t = subsystem_name s"
proof -
  consider "n = 0" | "n = 1" | "2 \<le> n" using assms(3) by linarith
  then have all: "num_free_macs t = max 0 (n - 2) \<and> nxt_mac_addr t = base + of_int (min 2 n) \<and>
      mgmt_mac_addr t = (if n = 0 then 0 else base) \<and> system_mac_addr t = (if n \<le> 1 then 0 else base + 1) \<and>
      subsystem_name t = subsystem_name s"
    using assms by cases (simp_all add: take_mgmt_mac_def take_system_mac_def)
  then show "num_free_macs t = max 0 (n - 2)" and "nxt_mac_addr t = base + of_int (min 2 n)"
    and "mgmt_mac_addr t = (if n = 0 then 0 else base)"
    and "system_mac_addr t = (if n \<le> 1 then 0 else base + 1)"
    and "subsystem_name t = subsystem_name s" by simp_all
qed

lemma pool_disjoint:
  fixes base :: "64 word"
  assumes "0 \<le> k" and "k < 65536"
  shows "base + 2 + of_int k \<noteq> base" and "base + 2 + of_int k \<noteq> base + 1" and "base \<noteq> base + 1"
  using assms offset_neq [of "k + 2" base] offset_neq [of "k + 1" "base + 1"] offset_neq [of 1 base]
  by (simp_all add: algebra_simps)

section \<open>Types of the subsystem\<close>

text \<open>The structure of the library holds C strings.\<close>

definition yaml_fru_strings :: "yaml_fru_info \<Rightarrow> string option list" where
  "yaml_fru_strings y = [yf_country_code y, yf_diag_version y, yf_label_revision y, yf_manufacture_date y, yf_manufacturer y,
     yf_onie_version y, yf_part_number y, yf_platform_name y, yf_product_name y, yf_serial_number y, yf_service_tag y,
     yf_vendor y]"

definition yaml_fru_typed :: "yaml_fru_info \<Rightarrow> bool" where
  "yaml_fru_typed y \<longleftrightarrow> list_all (\<lambda>s. case s of None \<Rightarrow> True | Some t \<Rightarrow> c_string t) (yaml_fru_strings y)"

lemma length_sscanf_mac [simp]: "length (sscanf_mac i k s region) = length region"
  by (induction i k s region rule: sscanf_mac.induct)
     (auto simp: store_uint_def Let_def split: option.split list.split)

lemma yaml_fru_info_typed:
  assumes "sysd_cfg_yaml_get_fru_info info r fru = Inr (rc, fru')" and "fru_typed fru"
    and "case info of None \<Rightarrow> True | Some y \<Rightarrow> yaml_fru_typed y"
  shows "fru_typed fru'"
proof (cases info)
  case None
  with assms show ?thesis by (simp add: sysd_cfg_yaml_get_fru_info_def)
next
  case (Some y)
  obtain country mac date where y: "yf_country_code y = Some country" "yf_base_mac_address y = Some mac" "yf_manufacture_date y = Some date"
    using assms(1) Some by (auto simp: sysd_cfg_yaml_get_fru_info_def split: option.splits)
  have "yaml_fru_typed y" using assms(3) Some by simp
  with assms(1,2) show ?thesis
    by (auto simp: Some y sysd_cfg_yaml_get_fru_info_def Let_def fru_typed_def fru_strings_def yaml_fru_typed_def
        yaml_fru_strings_def FRU_BASE_MAC_ADDRESS_LEN_def trunc_copy_def c_string_take)
qed

lemma subsystem_info_typed:
  assumes "sysd_get_subsystem_info calloc_ok mac_value read_fru = Inr (0, Some s)"
    and "\<And>rc f. read_fru fru_zero = Inr (rc, f) \<Longrightarrow> fru_typed f"
  shows "fru_typed (Subsystem.fru_eeprom s) \<and> subsystem_name s = ''base'' \<and> subsystem_type s = Some ''system'' \<and>
    0 \<le> num_free_macs s \<and> num_free_macs s \<le> 65535"
proof -
  obtain fru where f: "read_fru fru_zero = Inr (0, fru)"
    and s: "s = take_system_mac (take_mgmt_mac (subsystem_zero\<lparr>fru_eeprom := fru, subsystem_name := take MAX_SUBSYSTEM_NAME_LEN SYSD_BASE_SUBSYSTEM,
                        subsystem_type := Some SYSD_SUBSYSTEM_TYPE_SYSTEM,
                        num_free_macs := uint (num_macs fru),
                        nxt_mac_addr := mac_value (base_mac_address fru)\<rparr>))"
    using assms(1) by (auto simp: sysd_get_subsystem_info_def and_then_eq_Inr Let_def split: if_splits)
  define n where "n = uint (num_macs fru)"
  have "0 \<le> n \<and> n < 65536" using uint_range_size [of "num_macs fru"] by (simp add: word_size n_def)
  then show ?thesis
    using assms(2) [OF f] unfolding s n_def [symmetric]
    by (auto simp: take_system_mac_def take_mgmt_mac_def MAX_SUBSYSTEM_NAME_LEN_def SYSD_BASE_SUBSYSTEM_def
        SYSD_SUBSYSTEM_TYPE_SYSTEM_def)
qed

section \<open>The properties\<close>

text \<open>
  The FRU record from fru.yaml: with a MAC address spelled as six pairs of hexadecimal digits,
  the record gets the first three bytes of the address and three random bytes, the country code
  cut to 2 characters, the date cut to 19 and the number of MAC addresses modulo 65536. The
  four-byte stores of \<open>sscanf\<close>, which run over the end of the address, leave no trace.
\<close>

lemma yaml_fru_info_record:
  assumes "yf_country_code y = Some country" and "yf_base_mac_address y = Some (mac_string bs)"
    and "yf_manufacture_date y = Some date" and "length bs = 6" and "length (base_mac_address fru) = 6"
  shows "\<exists>fru'. sysd_cfg_yaml_get_fru_info (Some y) rand fru = Inr (0, fru')
    \<and> base_mac_address fru' = take 3 bs @ map (\<lambda>k. ucast (rand k AND 0xff)) [0, 1, 2]
    \<and> country_code fru' = take 2 country \<and> manufacture_date fru' = take 19 date
    \<and> unat (num_macs fru') = unat (yf_num_macs y) mod 65536
    \<and> manufacturer fru' = yf_manufacturer y \<and> serial_number fru' = yf_serial_number y
    \<and> device_version fru' = device_version fru"
proof -
  obtain b0 b1 b2 b3 b4 b5 where bs: "bs = [b0, b1, b2, b3, b4, b5]"
    using assms(4) by (auto simp: length_Suc_conv numeral_eq_Suc)
  show ?thesis
    using assms(1-3) sscanf_mac_bytes [OF assms(4,5)]
    by (simp add: sysd_cfg_yaml_get_fru_info_def Let_def bs trunc_copy_def FRU_COUNTRY_CODE_LEN_def
        FRU_MANUFACTURE_DATE_LEN_def unsigned_ucast_eq take_bit_eq_mod)
qed

definition sample_fru_info :: yaml_fru_info where
  "sample_fru_info = \<lparr>yf_country_code = Some ''US'', yf_diag_version = Some ''1.0.0.0'',
     yf_label_revision = Some ''L01'', yf_base_mac_address = Some (mac_string [0x70, 0x72, 0xcf, 0, 0, 0]),
     yf_manufacture_date = Some ''09/01/2015 00:00:01'', yf_manufacturer = Some ''OpenSwitch'',
     yf_num_macs = 74, yf_onie_version = Some ''2014.08.00.05'', yf_part_number = Some ''OPSX8664'',
     yf_platform_name = Some ''Generic-x86-64'', yf_product_name = Some ''OpenSwitch'',
     yf_serial_number = Some ''X8664001'', yf_service_tag = None, yf_vendor = Some ''OpenSwitch''\<rparr>"

theorem yaml_fru_info_record_witness:
  "\<exists>r. sysd_cfg_yaml_get_fru_info (Some sample_fru_info) (\<lambda>k. 0x1ff) fru_zero = Inr (0, r)
    \<and> base_mac_address r = [0x70, 0x72, 0xcf, 0xff, 0xff, 0xff]
    \<and> country_code r = ''US'' \<and> manufacture_date r = ''09/01/2015 00:00:01''"
  using yaml_fru_info_record [of sample_fru_info "''US''" "[0x70, 0x72, 0xcf, 0, 0, 0]"
      "''09/01/2015 00:00:01''" fru_zero "\<lambda>k. 0x1ff"]
  by (auto simp: sample_fru_info_def fru_zero_def)

text \<open>
  C32. The MAC address pool: when the FRU data is read, the subsystem keeps the first address of the
  pool for management and the second for the system, as far as the pool has them, and offers the
  rest. No address is given out twice: the two differ, and neither is among the addresses that
  remain.
\<close>

theorem mac_pool_allocation:
  assumes "calloc_ok 0" and "calloc_ok 1" and "read_fru fru_zero = Inr (0, fru)"
  shows "\<exists>s. sysd_get_subsystem_info calloc_ok mac_value read_fru = Inr (0, Some s)
    \<and> subsystem_name s = ''base''
    \<and> num_free_macs s = max 0 (uint (num_macs fru) - 2)
    \<and> nxt_mac_addr s = mac_value (base_mac_address fru) + of_int (min 2 (uint (num_macs fru)))
    \<and> mgmt_mac_addr s = (if uint (num_macs fru) = 0 then 0 else mac_value (base_mac_address fru))
    \<and> system_mac_addr s = (if uint (num_macs fru) \<le> 1 then 0 else mac_value (base_mac_address fru) + 1)
    \<and> (2 \<le> uint (num_macs fru) \<longrightarrow> mgmt_mac_addr s \<noteq> system_mac_addr s
        \<and> (\<forall>k. 0 \<le> k \<and> k < num_free_macs s \<longrightarrow>
              nxt_mac_addr s + of_int k \<noteq> mgmt_mac_addr s \<and> nxt_mac_addr s + of_int k \<noteq> system_mac_addr s))"
proof -
  let ?n = "uint (num_macs fru)" and ?base = "mac_value (base_mac_address fru)"
  define s1 where "s1 = subsystem_zero\<lparr>fru_eeprom := fru, subsystem_name := ''base'',
    subsystem_type := Some SYSD_SUBSYSTEM_TYPE_SYSTEM, num_free_macs := ?n, nxt_mac_addr := ?base\<rparr>"
  define t where "t = take_system_mac (take_mgmt_mac s1)"
  have t: "num_free_macs t = max 0 (?n - 2)" "nxt_mac_addr t = ?base + of_int (min 2 ?n)"
    "mgmt_mac_addr t = (if ?n = 0 then 0 else ?base)"
    "system_mac_addr t = (if ?n \<le> 1 then 0 else ?base + 1)" "subsystem_name t = ''base''"
    unfolding t_def by (simp_all add: take_two_macs s1_def subsystem_zero_def)
  have run: "sysd_get_subsystem_info calloc_ok mac_value read_fru = Inr (0, Some t)"
    using assms by (simp add: sysd_get_subsystem_info_def t_def s1_def Let_def
        MAX_SUBSYSTEM_NAME_LEN_def SYSD_BASE_SUBSYSTEM_def)
  have "?n < 65536" by (rule order_less_le_trans [OF unsigned_less]) simp
  then have distinct: "mgmt_mac_addr t \<noteq> system_mac_addr t
      \<and> (\<forall>k. 0 \<le> k \<and> k < num_free_macs t \<longrightarrow>
            nxt_mac_addr t + of_int k \<noteq> mgmt_mac_addr t \<and> nxt_mac_addr t + of_int k \<noteq> system_mac_addr t)"
    if "2 \<le> ?n" using that pool_disjoint [of _ ?base] by (simp add: t)
  show ?thesis using run t distinct by (intro exI [of _ t]) simp
qed

theorem mac_pool_allocation_witness:
  "\<exists>s. sysd_get_subsystem_info (\<lambda>_. True) (\<lambda>bs. word_rcat bs)
       (\<lambda>f. Inr (0, f\<lparr>num_macs := 74, base_mac_address := [0x70, 0x72, 0xcf, 0, 0, 0]\<rparr>)) = Inr (0, Some s)
    \<and> num_free_macs s = 72 \<and> mgmt_mac_addr s \<noteq> system_mac_addr s"
  using mac_pool_allocation [of "\<lambda>_. True" "\<lambda>f. Inr (0, f\<lparr>num_macs := 74, base_mac_address := [0x70, 0x72, 0xcf, 0, 0, 0]\<rparr>)"
      "fru_zero\<lparr>num_macs := 74, base_mac_address := [0x70, 0x72, 0xcf, 0, 0, 0]\<rparr>" "\<lambda>bs. word_rcat bs"]
  by auto

text \<open>
  A missing FRU description goes unnoticed: when fru.yaml is in use and its information cannot
  be had, \<open>sysd_cfg_yaml_get_fru_info\<close> returns -1, but the caller stores that in a \<open>bool\<close> before
  it asks whether it is negative. The subsystem is then set up with success from a record of
  zeros, with no MAC address for management or the system.
\<close>

lemma missing_fru_info_is_ignored:
  assumes "calloc_ok 0" and "calloc_ok 1"
  shows "\<exists>s. sysd_get_subsystem_info calloc_ok mac_value
        (sysd_read_fru_eeprom crc32 True (sysd_cfg_yaml_get_fru_info None rand) fru_read) = Inr (0, Some s)
    \<and> fru_eeprom s = fru_zero \<and> mgmt_mac_addr s = 0 \<and> system_mac_addr s = 0 \<and> num_free_macs s = 0"
  using assms
  by (simp add: sysd_get_subsystem_info_def sysd_read_fru_eeprom_def sysd_cfg_yaml_get_fru_info_def
      c_bool_def Let_def take_mgmt_mac_def take_system_mac_def subsystem_zero_def fru_zero_def)

theorem missing_fru_info_is_ignored_witness:
  "\<exists>s. sysd_get_subsystem_info (\<lambda>_. True) (\<lambda>bs. word_rcat bs)
        (sysd_read_fru_eeprom byte_sum True (sysd_cfg_yaml_get_fru_info None (\<lambda>k. 7)) (\<lambda>k n. None)) = Inr (0, Some s)
    \<and> fru_eeprom s = fru_zero \<and> mgmt_mac_addr s = 0"
  using missing_fru_info_is_ignored [of "\<lambda>_. True" "\<lambda>bs. word_rcat bs" byte_sum "\<lambda>k. 7" "\<lambda>k n. None"]
  by auto

text \<open>
  The YAML initialisation succeeds exactly if the subsystem, the device and the port files are
  accepted, fru.yaml is either absent or accepted, the devices are initialised and the FRU device
  is known. The QoS and ACL files do not matter. On success the EEPROM is used instead of fru.yaml
  just when the library reports that file as missing.
\<close>

lemma yaml_init_result:
  "sysd_cfg_yaml_init NOT_FOUND y True =
     (add_subsystem_rc y = 0 \<and> 0 \<le> parse_devices_rc y \<and> 0 \<le> parse_ports_rc y
        \<and> (parse_fru_rc y = NOT_FOUND \<or> 0 \<le> parse_fru_rc y) \<and> 0 \<le> init_devices_rc y \<and> fru_dev_found y,
      \<not> (add_subsystem_rc y = 0 \<and> 0 \<le> parse_devices_rc y \<and> 0 \<le> parse_ports_rc y
        \<and> parse_fru_rc y = NOT_FOUND))"
  by (auto simp: sysd_cfg_yaml_init_def sysd_cfg_yaml_open_def Let_def)

text \<open>
  The interface enumeration returns 0 exactly if the port information is there, the port count
  is positive, the memory can be had and every port with an index below the count is described;
  the subsystem then lists the ports in index order, and otherwise it is unchanged.
\<close>

lemma interface_info_result:
  "case sysd_get_interface_info calloc_ok cmn count port_info s of
     (rc, t) \<Rightarrow>
       if cmn \<noteq> None \<and> 0 < count \<and> calloc_ok \<and> list_all (\<lambda>k. port_info k \<noteq> None) [0..<nat count]
       then rc = 0 \<and> t = s\<lparr>intf_count := count, intf_cmn_info := cmn,
              interfaces := map (\<lambda>k. the (port_info k)) [0..<nat count]\<rparr>
       else rc = -1 \<and> t = s"
proof -
  have all: "collect_ports port_info 0 n =
      (if \<forall>k < n. port_info k \<noteq> None then Some (map (\<lambda>k. the (port_info k)) [0..<n]) else None)" for n
  proof (cases "\<forall>k < n. port_info k \<noteq> None")
    case True
    then show ?thesis by (auto simp: collect_ports_eq)
  next
    case False
    then have "collect_ports port_info 0 n \<noteq> Some ps" for ps
      by (auto simp: collect_ports_eq)
    then show ?thesis using False by (cases "collect_ports port_info 0 n") auto
  qed
  show ?thesis
    by (cases cmn) (auto simp: sysd_get_interface_info_def all list_all_upt)
qed

end
