(* ===== verification/Manifest.thy ===== *)
theory Manifest
  imports C_Strings
begin

text \<open>
  The image.manifest reader of \<open>src/sysd_util.c\<close>: the JSON tree as the OVS library hands it over,
  the daemon table and management interface it fills, and the recursive walk
  \<open>sysd_process_json\<close> that looks for the objects named \<open>daemons\<close> and \<open>mgmt_intf\<close>. An object is the
  list of its members in the order in which \<open>SHASH_FOR_EACH\<close> visits them. The walk is shown to be
  the same as running the document's relevant sections one after the other, and the daemon table
  it leaves behind is given in closed form.
\<close>

section \<open>Data\<close>

text \<open>The payload of a real number is never read, so the constructor carries none.\<close>

datatype json =
    JSON_NULL
  | JSON_FALSE
  | JSON_TRUE
  | JSON_OBJECT "(string \<times> json) list"
  | JSON_ARRAY "json list"
  | JSON_INTEGER int
  | JSON_REAL
  | JSON_STRING string

type_synonym members = "(string \<times> json) list"

record daemon_info =
  daemon_name :: string
  is_hw_handler :: bool
  cur_hw :: int

text \<open>
  The copies of the reader are \<open>strncpy(dst, src, strlen(src))\<close>: the characters and no NUL.
  \<open>Overrun buf n cap\<close>: \<open>n\<close> characters were written into the object \<open>buf\<close> of \<open>cap\<close> bytes, which is
  smaller. \<open>Unterminated buf cap\<close>: no byte of the object is left for a NUL. The reader goes on
  regardless, as the code does. \<open>mgmt_intf\<close> is the array behind the pointer, with all its elements.
  The names of the daemons are kept whole; the array of the code holds the name and a NUL just when
  nothing is recorded for it.
\<close>

datatype overrun = Overrun string nat nat | Unterminated string nat

record manifest =
  daemons :: "daemon_info list"
  num_hw_daemons :: int
  mgmt_intf :: "string option"
  is_mgmt_intf_present :: bool
  overruns :: "overrun list"

definition manifest_init :: manifest where
  "manifest_init = \<lparr>daemons = [], num_hw_daemons = 0, mgmt_intf = None,
     is_mgmt_intf_present = False, overruns = []\<rparr>"

definition DAEMONS_TAG :: string where "DAEMONS_TAG = ''daemons''"
definition HW_HANDLER_TAG :: string where "HW_HANDLER_TAG = ''is_hw_handler''"
definition NAME_IN_DAEMON_TABLE :: string where "NAME_IN_DAEMON_TABLE = ''ops-sysd''"
definition MGMT_INTF_TAG :: string where "MGMT_INTF_TAG = ''mgmt_intf''"
definition MGMT_INTF_NAME_TAG :: string where "MGMT_INTF_NAME_TAG = ''intf''"
definition MAX_DAEMON_NAME_LEN :: nat where "MAX_DAEMON_NAME_LEN = 128"

definition has_tag :: "string \<Rightarrow> string \<Rightarrow> bool" where
  "has_tag nm tag \<longleftrightarrow> strncmp nm tag (length tag) = 0"

definition copy_check :: "string \<Rightarrow> string \<Rightarrow> nat \<Rightarrow> overrun list" where
  "copy_check buf s cap =
     (if cap < length s then [Overrun buf (length s) cap] else []) @
     (if cap \<le> length s then [Unterminated buf cap] else [])"

lemma has_tag_prefix [cstr_simps]: "has_tag nm tag \<longleftrightarrow> prefix tag nm"
  by (simp add: has_tag_def cstr_simps)

section \<open>The daemon section\<close>

text \<open>
  \<open>_sysd_get_hw_handler\<close>: the first member whose name starts with the tag decides. The field is
  false before (the record comes from \<open>calloc\<close>).
\<close>

fun sysd_get_hw_handler :: "members \<Rightarrow> bool" where
  "sysd_get_hw_handler [] = False"
| "sysd_get_hw_handler ((nm, jp) # ms) =
     (if has_tag nm HW_HANDLER_TAG then (case jp of JSON_TRUE \<Rightarrow> True | _ \<Rightarrow> False)
      else sysd_get_hw_handler ms)"

definition new_daemon :: "string \<Rightarrow> members \<Rightarrow> daemon_info" where
  "new_daemon nm obj =
     \<lparr>daemon_name = nm,
      is_hw_handler = sysd_get_hw_handler obj,
      cur_hw = (if has_tag nm NAME_IN_DAEMON_TABLE then 1 else 0)\<rparr>"

text \<open>
  \<open>_sysd_process_daemons\<close>. \<open>calloc_ok n\<close> says whether the allocation of daemon number \<open>n\<close>
  succeeds. \<open>json_object\<close> asserts that its argument is an object.
\<close>

fun sysd_process_daemons :: "(nat \<Rightarrow> bool) \<Rightarrow> members \<Rightarrow> manifest \<Rightarrow> (int \<times> manifest) run" where
  "sysd_process_daemons calloc_ok [] st = Inr (0, st)"
| "sysd_process_daemons calloc_ok ((nm, data) # ms) st =
     (if \<not> calloc_ok (length (daemons st)) then Inr (-1, st)
      else case data of
        JSON_OBJECT obj \<Rightarrow>
          sysd_process_daemons calloc_ok ms
            (st\<lparr>daemons := daemons st @ [new_daemon nm obj],
                overruns := overruns st @ copy_check ''daemons[].name'' nm MAX_DAEMON_NAME_LEN\<rparr>)
      | _ \<Rightarrow> Inl Assertion_Failure)"

section \<open>The management interface section\<close>

text \<open>
  \<open>_sysd_process_mgmt_intf\<close>. The object for the name is allocated by
  \<open>xcalloc(sizeof(mgmt_intf_info_t), 0)\<close>, that is with room for zero elements.
  \<open>is_mgmt_intf_present\<close> is a static variable of the function. What other code reads as the name is
  \<open>mgmt_intf_name\<close>.
\<close>

definition mgmt_intf_capacity :: nat where
  "mgmt_intf_capacity = 128 * 0"

fun sysd_process_mgmt_intf :: "members \<Rightarrow> manifest \<Rightarrow> int \<times> manifest" where
  "sysd_process_mgmt_intf [] st = (if \<not> is_mgmt_intf_present st then (-1, st) else (0, st))"
| "sysd_process_mgmt_intf ((nm, jp) # ms) st =
     (if has_tag nm MGMT_INTF_NAME_TAG then
        (let st' = (case jp of
              JSON_STRING s \<Rightarrow> st\<lparr>mgmt_intf := Some (copy_into mgmt_intf_capacity s), is_mgmt_intf_present := True,
                overruns := overruns st @ copy_check ''mgmt_intf->name'' s mgmt_intf_capacity\<rparr>
            | _ \<Rightarrow> st)
         in if \<not> is_mgmt_intf_present st' then (-1, st') else (0, st'))
      else sysd_process_mgmt_intf ms st)"

definition mgmt_intf_name :: "manifest \<Rightarrow> string run" where
  "mgmt_intf_name m = (case mgmt_intf m of None \<Rightarrow> Inl Null_Dereference | Some buf \<Rightarrow> c_string_at buf)"

section \<open>The recursive walk\<close>

fun sysd_process_json :: "(nat \<Rightarrow> bool) \<Rightarrow> json \<Rightarrow> manifest \<Rightarrow> (int \<times> manifest) run"
  and process_members :: "(nat \<Rightarrow> bool) \<Rightarrow> members \<Rightarrow> manifest \<Rightarrow> (int \<times> manifest) run"
  and process_elems :: "(nat \<Rightarrow> bool) \<Rightarrow> json list \<Rightarrow> manifest \<Rightarrow> (int \<times> manifest) run" where
  "sysd_process_json calloc_ok json st =
     (case json of
        JSON_OBJECT object \<Rightarrow> process_members calloc_ok object st
      | JSON_ARRAY array \<Rightarrow> process_elems calloc_ok array st
      | _ \<Rightarrow> Inr (0, st))"
| "process_members calloc_ok [] st = Inr (0, st)"
| "process_members calloc_ok ((nm, jp) # ms) st =
     and_then
       (case jp of
          JSON_OBJECT obj \<Rightarrow>
            if has_tag nm DAEMONS_TAG then sysd_process_daemons calloc_ok obj st
            else if has_tag nm MGMT_INTF_TAG then Inr (sysd_process_mgmt_intf obj st)
            else sysd_process_json calloc_ok jp st
        | JSON_ARRAY _ \<Rightarrow> sysd_process_json calloc_ok jp st
        | _ \<Rightarrow> Inr (0, st))
       (\<lambda>(rc, st'). if rc \<noteq> 0 then Inr (-1, st') else process_members calloc_ok ms st')"
| "process_elems calloc_ok [] st = Inr (0, st)"
| "process_elems calloc_ok (jp # es) st =
     and_then (sysd_process_json calloc_ok jp st)
       (\<lambda>(rc, st'). if rc \<noteq> 0 then Inr (-1, st') else process_elems calloc_ok es st')"

definition sysd_set_num_hw_daemons :: "manifest \<Rightarrow> manifest" where
  "sysd_set_num_hw_daemons st =
     st\<lparr>num_hw_daemons := foldl (\<lambda>n d. if is_hw_handler d then n + 1 else n) 0 (daemons st)\<rparr>"

text \<open>\<open>file\<close> is what \<open>json_from_file\<close> returns for the manifest, \<open>None\<close> for a null pointer.\<close>

definition sysd_read_manifest_file ::
  "(nat \<Rightarrow> bool) \<Rightarrow> json option \<Rightarrow> manifest \<Rightarrow> (int \<times> manifest) run" where
  "sysd_read_manifest_file calloc_ok file st =
     (case file of
        None \<Rightarrow> Inr (-1, st)
      | Some manifest_info \<Rightarrow>
          if (case manifest_info of JSON_OBJECT _ \<Rightarrow> False | JSON_ARRAY _ \<Rightarrow> False | _ \<Rightarrow> True)
          then Inr (-1, st)
          else and_then (sysd_process_json calloc_ok manifest_info st)
            (\<lambda>(rc, st'). if rc \<noteq> 0 then Inr (-1, st') else Inr (0, sysd_set_num_hw_daemons st')))"

section \<open>Specification: the sections of a document\<close>

text \<open>
  What the walk is for, without its recursion: the objects a manifest contributes, in the order
  of the document, and one operation per kind. Objects below a section are not looked into.
\<close>

datatype manifest_section = Daemons_Section members | Mgmt_Section members

fun sections :: "json \<Rightarrow> manifest_section list"
  and member_sections :: "members \<Rightarrow> manifest_section list"
  and elem_sections :: "json list \<Rightarrow> manifest_section list" where
  "sections json =
     (case json of JSON_OBJECT ms \<Rightarrow> member_sections ms | JSON_ARRAY es \<Rightarrow> elem_sections es | _ \<Rightarrow> [])"
| "member_sections [] = []"
| "member_sections ((nm, jp) # ms) =
     (case jp of
        JSON_OBJECT obj \<Rightarrow>
          if prefix DAEMONS_TAG nm then [Daemons_Section obj]
          else if prefix MGMT_INTF_TAG nm then [Mgmt_Section obj]
          else sections jp
      | _ \<Rightarrow> sections jp) @ member_sections ms"
| "elem_sections [] = []"
| "elem_sections (jp # es) = sections jp @ elem_sections es"

fun run_section :: "(nat \<Rightarrow> bool) \<Rightarrow> manifest_section \<Rightarrow> manifest \<Rightarrow> (int \<times> manifest) run" where
  "run_section calloc_ok (Daemons_Section obj) st = sysd_process_daemons calloc_ok obj st"
| "run_section calloc_ok (Mgmt_Section obj) st = Inr (sysd_process_mgmt_intf obj st)"

fun run_sections :: "(nat \<Rightarrow> bool) \<Rightarrow> manifest_section list \<Rightarrow> manifest \<Rightarrow> (int \<times> manifest) run" where
  "run_sections calloc_ok [] st = Inr (0, st)"
| "run_sections calloc_ok (s # ss) st =
     and_then (run_section calloc_ok s st)
       (\<lambda>(rc, st'). if rc \<noteq> 0 then Inr (-1, st') else run_sections calloc_ok ss st')"

text \<open>The contribution of a section, by itself.\<close>

fun section_daemons :: "manifest_section \<Rightarrow> daemon_info list" where
  "section_daemons (Daemons_Section ms) =
     map (\<lambda>(nm, data). new_daemon nm (case data of JSON_OBJECT obj \<Rightarrow> obj | _ \<Rightarrow> [])) ms"
| "section_daemons (Mgmt_Section ms) = []"

fun intf_name :: "members \<Rightarrow> string option" where
  "intf_name [] = None"
| "intf_name ((nm, jp) # ms) =
     (if prefix MGMT_INTF_NAME_TAG nm then (case jp of JSON_STRING s \<Rightarrow> Some s | _ \<Rightarrow> None)
      else intf_name ms)"

fun section_intf :: "manifest_section \<Rightarrow> string option" where
  "section_intf (Daemons_Section ms) = None"
| "section_intf (Mgmt_Section ms) = intf_name ms"

fun section_overruns :: "manifest_section \<Rightarrow> overrun list" where
  "section_overruns (Daemons_Section ms) =
     concat (map (\<lambda>(nm, _). copy_check ''daemons[].name'' nm MAX_DAEMON_NAME_LEN) ms)"
| "section_overruns (Mgmt_Section ms) =
     (case intf_name ms of None \<Rightarrow> [] | Some s \<Rightarrow> copy_check ''mgmt_intf->name'' s mgmt_intf_capacity)"

fun section_ok :: "manifest_section \<Rightarrow> bool" where
  "section_ok (Daemons_Section ms) = list_all (\<lambda>(_, data). \<exists>obj. data = JSON_OBJECT obj) ms"
| "section_ok (Mgmt_Section ms) = (intf_name ms \<noteq> None)"

text \<open>
  Which sequences of sections are handled without an error: every daemon is an object, and the
  first management-interface section names an interface (a later one need not: the static flag
  of the code stays set).
\<close>

fun sections_accepted :: "manifest_section list \<Rightarrow> bool \<Rightarrow> bool" where
  "sections_accepted [] present = True"
| "sections_accepted (Daemons_Section ms # ss) present =
     (section_ok (Daemons_Section ms) \<and> sections_accepted ss present)"
| "sections_accepted (Mgmt_Section ms # ss) present =
     ((present \<or> intf_name ms \<noteq> None) \<and> sections_accepted ss True)"

definition names_intf :: "manifest_section list \<Rightarrow> bool" where
  "names_intf ss \<longleftrightarrow> list_ex (\<lambda>s. section_intf s \<noteq> None) ss"

section \<open>Lemmas\<close>

declare sysd_process_json.simps(1) [simp del] sections.simps(1) [simp del]

lemma sections_simps [simp]:
  "sections JSON_NULL = []" "sections JSON_FALSE = []" "sections JSON_TRUE = []"
  "sections (JSON_OBJECT ms) = member_sections ms" "sections (JSON_ARRAY es) = elem_sections es"
  "sections (JSON_INTEGER i) = []" "sections JSON_REAL = []" "sections (JSON_STRING s) = []"
  by (simp_all add: sections.simps(1))

lemma process_json_object [simp]:
  "sysd_process_json calloc_ok (JSON_OBJECT ms) st = process_members calloc_ok ms st"
  "sysd_process_json calloc_ok (JSON_ARRAY es) st = process_elems calloc_ok es st"
  by (simp_all add: sysd_process_json.simps(1))

lemma run_sections_append:
  "run_sections calloc_ok (ss @ ts) st =
     and_then (run_sections calloc_ok ss st)
       (\<lambda>(rc, st'). if rc \<noteq> 0 then Inr (-1, st') else run_sections calloc_ok ts st')"
  by (induction ss arbitrary: st) (auto simp: and_then_def split: sum.splits)

lemma walk_is_run_sections:
  "sysd_process_json calloc_ok json st = run_sections calloc_ok (sections json) st"
  "process_members calloc_ok ms st = run_sections calloc_ok (member_sections ms) st"
  "process_elems calloc_ok es st = run_sections calloc_ok (elem_sections es) st"
proof (induction calloc_ok json st and calloc_ok ms st and calloc_ok es st
    rule: sysd_process_json_process_members_process_elems.induct)
  case (1 calloc_ok json st)
  then show ?case
    by (cases json) (simp_all add: sysd_process_json.simps(1))
next
  case (3 calloc_ok nm jp ms st)
  then show ?case
    by (cases jp)
       (auto simp: run_sections_append cstr_simps and_then_def split: sum.splits prod.splits)
next
  case (5 calloc_ok jp es st)
  then show ?case
    by (auto simp: run_sections_append and_then_def split: sum.splits prod.splits)
qed simp_all

definition apply_section :: "manifest_section \<Rightarrow> manifest \<Rightarrow> manifest" where
  "apply_section s st =
     st\<lparr>daemons := daemons st @ section_daemons s,
        mgmt_intf := (case section_intf s of None \<Rightarrow> mgmt_intf st | Some i \<Rightarrow> Some []),
        is_mgmt_intf_present := (is_mgmt_intf_present st \<or> section_intf s \<noteq> None),
        overruns := overruns st @ section_overruns s\<rparr>"

lemma process_daemons_success:
  "sysd_process_daemons calloc_ok ms st = Inr (0, st') \<Longrightarrow> st' = apply_section (Daemons_Section ms) st"
  by (induction calloc_ok ms st rule: sysd_process_daemons.induct)
     (auto simp: apply_section_def split: if_splits json.splits)

lemma process_daemons_ok:
  "\<forall>n < length (daemons st) + length ms. calloc_ok n \<Longrightarrow> section_ok (Daemons_Section ms) \<Longrightarrow>
     sysd_process_daemons calloc_ok ms st = Inr (0, apply_section (Daemons_Section ms) st)"
  by (induction calloc_ok ms st rule: sysd_process_daemons.induct) (auto simp: apply_section_def)

lemma process_mgmt_intf_eq:
  "sysd_process_mgmt_intf ms st =
     (if is_mgmt_intf_present st \<or> intf_name ms \<noteq> None then 0 else -1, apply_section (Mgmt_Section ms) st)"
  by (induction ms st rule: sysd_process_mgmt_intf.induct)
     (auto simp: apply_section_def cstr_simps Let_def mgmt_intf_capacity_def split: json.split)

lemma run_section_success:
  "run_section calloc_ok s st = Inr (0, st') \<Longrightarrow> st' = apply_section s st"
  by (cases s) (auto simp: process_mgmt_intf_eq dest: process_daemons_success)

lemma run_sections_success:
  "run_sections calloc_ok ss st = Inr (0, st') \<Longrightarrow> st' = fold apply_section ss st"
proof (induction ss arbitrary: st)
  case (Cons s ss)
  then obtain st1 where "run_section calloc_ok s st = Inr (0, st1)"
    and "run_sections calloc_ok ss st1 = Inr (0, st')"
    by (auto simp: and_then_eq_Inr split: if_splits)
  with Cons.IH run_section_success show ?case by fastforce
qed simp

text \<open>All the fields after a run of sections.\<close>

lemma daemons_fold_sections [simp]:
  "daemons (fold apply_section ss st) = daemons st @ concat (map section_daemons ss)"
  by (induction ss arbitrary: st) (auto simp: apply_section_def)

lemma overruns_fold_sections [simp]:
  "overruns (fold apply_section ss st) = overruns st @ concat (map section_overruns ss)"
  by (induction ss arbitrary: st) (auto simp: apply_section_def)

lemma mgmt_intf_fold_sections [simp]:
  "mgmt_intf (fold apply_section ss st) =
     (if names_intf ss then Some [] else mgmt_intf st)"
  by (induction ss arbitrary: st) (auto simp: apply_section_def names_intf_def split: option.splits)

lemma process_daemons_success_iff:
  "(\<exists>st'. sysd_process_daemons calloc_ok ms st = Inr (0, st')) \<longleftrightarrow>
     section_ok (Daemons_Section ms) \<and>
     (\<forall>n. length (daemons st) \<le> n \<and> n < length (daemons st) + length ms \<longrightarrow> calloc_ok n)"
proof (induction calloc_ok ms st rule: sysd_process_daemons.induct)
  case (2 calloc_ok nm data ms st)
  have range: "(\<forall>n. k \<le> n \<and> n < Suc (k + m) \<longrightarrow> P n) \<longleftrightarrow> P k \<and> (\<forall>n. Suc k \<le> n \<and> n < Suc (k + m) \<longrightarrow> P n)"
    for k m :: nat and P by (auto simp: Suc_le_eq) (metis le_eq_less_or_eq)
  show ?case
  proof (cases data)
    case (JSON_OBJECT obj)
    with 2 show ?thesis
      by (cases "calloc_ok (length (daemons st))") (auto simp: range)
  qed auto
qed auto

lemma run_sections_success_iff:
  "(\<exists>st'. run_sections calloc_ok ss st = Inr (0, st')) \<longleftrightarrow>
     sections_accepted ss (is_mgmt_intf_present st) \<and>
     (\<forall>n. length (daemons st) \<le> n \<and> n < length (daemons st) + length (concat (map section_daemons ss))
        \<longrightarrow> calloc_ok n)"
proof (induction ss arbitrary: st)
  case (Cons s ss)
  have step: "(\<exists>st'. run_sections calloc_ok (s # ss) st = Inr (0, st')) \<longleftrightarrow>
      (\<exists>st1. run_section calloc_ok s st = Inr (0, st1)) \<and>
      (\<exists>st'. run_sections calloc_ok ss (apply_section s st) = Inr (0, st'))"
    by (fastforce simp: and_then_eq_Inr dest: run_section_success split: if_splits)
  have split: "(\<forall>n. k \<le> n \<and> n < k + (a + b) \<longrightarrow> P n) \<longleftrightarrow>
      (\<forall>n. k \<le> n \<and> n < k + a \<longrightarrow> P n) \<and> (\<forall>n. k + a \<le> n \<and> n < k + a + b \<longrightarrow> P n)"
    for k a b :: nat and P by (metis add.assoc add_leD1 le_add1 not_le trans_less_add1)
  show ?case
  proof (cases s)
    case (Daemons_Section ms)
    then show ?thesis
      unfolding step Cons.IH by (auto simp: process_daemons_success_iff apply_section_def split)
  next
    case (Mgmt_Section ms)
    then show ?thesis
      unfolding step Cons.IH by (auto simp: process_mgmt_intf_eq apply_section_def)
  qed
qed auto

lemma process_daemons_outcome:
  "case sysd_process_daemons calloc_ok ms st of
     Inr (rc, st') \<Rightarrow> (rc = 0 \<or> rc = -1) \<and> num_hw_daemons st' = num_hw_daemons st
   | Inl f \<Rightarrow> f = Assertion_Failure \<and> \<not> section_ok (Daemons_Section ms)"
  by (induction calloc_ok ms st rule: sysd_process_daemons.induct)
     (auto split: sum.splits json.splits)

lemma run_section_outcome:
  "case run_section calloc_ok s st of
     Inr (rc, st') \<Rightarrow> (rc = 0 \<or> rc = -1) \<and> num_hw_daemons st' = num_hw_daemons st
   | Inl f \<Rightarrow> f = Assertion_Failure \<and> (\<exists>ms. s = Daemons_Section ms \<and> \<not> section_ok s)"
proof (cases s)
  case (Daemons_Section ms)
  then show ?thesis
    using process_daemons_outcome [where calloc_ok = calloc_ok and ms = ms and st = st] by (auto split: sum.splits)
qed (simp add: process_mgmt_intf_eq apply_section_def)

lemma run_sections_outcome:
  "case run_sections calloc_ok ss st of
     Inr (rc, st') \<Rightarrow> (rc = 0 \<or> rc = -1) \<and> num_hw_daemons st' = num_hw_daemons st
   | Inl f \<Rightarrow> f = Assertion_Failure \<and> (\<exists>ms. Daemons_Section ms \<in> set ss \<and> \<not> section_ok (Daemons_Section ms))"
proof (induction ss arbitrary: st)
  case (Cons s ss)
  note one = run_section_outcome [where calloc_ok = calloc_ok and s = s and st = st]
  show ?case
  proof (cases "run_section calloc_ok s st")
    case (Inl f)
    with one show ?thesis by auto
  next
    case (Inr r)
    obtain rc st1 where r: "r = (rc, st1)" by (cases r)
    show ?thesis
      using one Cons.IH [of st1] by (auto simp: Inr r split: sum.splits)
  qed
qed simp

lemma sections_ok_accepted: "\<forall>s \<in> set ss. section_ok s \<Longrightarrow> sections_accepted ss present"
  by (induction ss present rule: sections_accepted.induct) auto

lemma count_hw_foldl:
  "foldl (\<lambda>n d. if is_hw_handler d then n + 1 else n) (k :: int) ds = k + int (length (filter is_hw_handler ds))"
  by (induction ds arbitrary: k) auto

lemma num_hw_daemons_eq:
  "num_hw_daemons (sysd_set_num_hw_daemons st) = int (length (filter is_hw_handler (daemons st)))"
  by (simp add: sysd_set_num_hw_daemons_def count_hw_foldl)

lemma set_num_hw_daemons_frame [simp]:
  "daemons (sysd_set_num_hw_daemons st) = daemons st"
  "mgmt_intf (sysd_set_num_hw_daemons st) = mgmt_intf st"
  "overruns (sysd_set_num_hw_daemons st) = overruns st"
  by (simp_all add: sysd_set_num_hw_daemons_def)

lemma read_manifest_success:
  assumes "sysd_read_manifest_file calloc_ok (Some j) st = Inr (0, st')"
  shows "st' = sysd_set_num_hw_daemons (fold apply_section (sections j) st)"
  using assms unfolding sysd_read_manifest_file_def
  by (auto simp: and_then_eq_Inr walk_is_run_sections dest!: run_sections_success split: if_splits)

definition container :: "json \<Rightarrow> bool" where
  "container j \<longleftrightarrow> (\<exists>ms. j = JSON_OBJECT ms) \<or> (\<exists>es. j = JSON_ARRAY es)"

lemma read_manifest_Some:
  "sysd_read_manifest_file calloc_ok (Some j) st =
     (if container j then and_then (run_sections calloc_ok (sections j) st)
        (\<lambda>(rc, st'). if rc \<noteq> 0 then Inr (-1, st') else Inr (0, sysd_set_num_hw_daemons st'))
      else Inr (-1, st))"
  by (cases j) (simp_all add: sysd_read_manifest_file_def container_def walk_is_run_sections)

lemma read_manifest_accepted:
  assumes "container j" and "sections_accepted (sections j) False"
    and "\<forall>n < length (concat (map section_daemons (sections j))). calloc_ok n"
  shows "sysd_read_manifest_file calloc_ok (Some j) manifest_init =
    Inr (0, sysd_set_num_hw_daemons (fold apply_section (sections j) manifest_init))"
proof -
  obtain st where "run_sections calloc_ok (sections j) manifest_init = Inr (0, st)"
    using assms run_sections_success_iff [of calloc_ok "sections j" manifest_init]
    by (auto simp: manifest_init_def)
  with assms(1) show ?thesis by (auto simp: read_manifest_Some dest: run_sections_success)
qed

lemma in_copy_check:
  "x \<in> set (copy_check b s c) \<longleftrightarrow>
     c < length s \<and> x = Overrun b (length s) c \<or> c \<le> length s \<and> x = Unterminated b c"
  by (auto simp: copy_check_def)

lemma section_overruns_iff:
  "Overrun b n c \<in> set (section_overruns s) \<longleftrightarrow>
     (b = ''daemons[].name'' \<and> c = MAX_DAEMON_NAME_LEN \<and> MAX_DAEMON_NAME_LEN < n \<and>
        (\<exists>d \<in> set (section_daemons s). length (daemon_name d) = n)) \<or>
     (b = ''mgmt_intf->name'' \<and> c = 0 \<and> 0 < n \<and> (\<exists>i. section_intf s = Some i \<and> length i = n))"
proof (cases s)
  case (Daemons_Section ms)
  then show ?thesis by (force simp: in_copy_check new_daemon_def)
next
  case (Mgmt_Section ms)
  then show ?thesis by (cases "intf_name ms") (auto simp: in_copy_check mgmt_intf_capacity_def)
qed

lemma section_unterminated_iff:
  "Unterminated b c \<in> set (section_overruns s) \<longleftrightarrow>
     (b = ''daemons[].name'' \<and> c = MAX_DAEMON_NAME_LEN \<and>
        (\<exists>d \<in> set (section_daemons s). MAX_DAEMON_NAME_LEN \<le> length (daemon_name d))) \<or>
     (b = ''mgmt_intf->name'' \<and> c = 0 \<and> section_intf s \<noteq> None)"
proof (cases s)
  case (Daemons_Section ms)
  then show ?thesis by (force simp: in_copy_check new_daemon_def)
next
  case (Mgmt_Section ms)
  then show ?thesis by (cases "intf_name ms") (auto simp: in_copy_check mgmt_intf_capacity_def)
qed

text \<open>What the later reads of the interface name meet after any run of the reader that succeeds.\<close>

lemma mgmt_intf_name_read:
  assumes "sysd_read_manifest_file calloc_ok (Some j) manifest_init = Inr (0, st)"
  shows "mgmt_intf_name st = Inl (if names_intf (sections j) then Out_Of_Bounds_Read else Null_Dereference)"
  using read_manifest_success [OF assms] by (simp add: mgmt_intf_name_def manifest_init_def)

section \<open>The properties\<close>

text \<open>
  C13. The recursive walk over the manifest has the same effect, on every tree and every starting
  state, as handling the daemon and management-interface sections of the document one after the
  other in document order, stopping at the first that fails. This includes the failing and the
  aborting runs.
\<close>

theorem manifest_walk_refines_sections:
  "sysd_process_json calloc_ok json st = run_sections calloc_ok (sections json) st"
  by (rule walk_is_run_sections(1))

text \<open>
  C31. Exactly which manifests are read with return code 0: the file is there, its top level is an
  object or an array, every daemon is an object, the first management-interface section names an
  interface by a string, and every allocation of a daemon record succeeds. Everything else is
  rejected or aborts.
\<close>

theorem manifest_accepted_iff:
  "(\<exists>st. sysd_read_manifest_file calloc_ok doc manifest_init = Inr (0, st)) \<longleftrightarrow>
     (\<exists>j. doc = Some j \<and> container j \<and> sections_accepted (sections j) False
        \<and> list_all calloc_ok [0..<length (concat (map section_daemons (sections j)))])"
proof (cases doc)
  case None
  then show ?thesis by (simp add: sysd_read_manifest_file_def)
next
  case (Some j)
  have "(\<exists>st. sysd_read_manifest_file calloc_ok (Some j) manifest_init = Inr (0, st)) \<longleftrightarrow>
      container j \<and> (\<exists>st. run_sections calloc_ok (sections j) manifest_init = Inr (0, st))"
    by (auto simp: read_manifest_Some and_then_eq_Inr split: if_splits)
  then show ?thesis
    by (simp add: Some run_sections_success_iff list_all_upt) (simp add: manifest_init_def)
qed

text \<open>
  A run of the reader that returns 0 leaves the daemon table that the document describes: all
  daemons of all daemon sections, in document order, each with its handler flag and with
  \<open>cur_hw\<close> 1 just for names that start with ops-sysd. The counter is the number of hardware
  daemons, and there is a management-interface object just when the document names an interface.
\<close>

lemma manifest_read_result:
  assumes "sysd_read_manifest_file calloc_ok (Some j) manifest_init = Inr (0, st)"
  shows "daemons st = concat (map section_daemons (sections j))
    \<and> num_hw_daemons st = int (length (filter is_hw_handler (daemons st)))
    \<and> (\<forall>d \<in> set (daemons st). cur_hw d = (if prefix ''ops-sysd'' (daemon_name d) then 1 else 0))
    \<and> mgmt_intf st = (if names_intf (sections j) then Some [] else None)"
proof -
  have "cur_hw d = (if prefix ''ops-sysd'' (daemon_name d) then 1 else 0)"
    if d: "d \<in> set (section_daemons s)" for d s
    using d by (cases s) (auto simp: new_daemon_def cstr_simps NAME_IN_DAEMON_TABLE_def)
  with read_manifest_success [OF assms] show ?thesis
    by (auto simp: num_hw_daemons_eq manifest_init_def)
qed

text \<open>The manifest the repository installs (\<open>files/image.manifest\<close>), as a tree.\<close>

definition hw_daemon_entry :: "string \<Rightarrow> string \<times> json" where
  "hw_daemon_entry nm = (nm, JSON_OBJECT [(''is_hw_handler'', JSON_TRUE)])"

definition image_manifest :: json where
  "image_manifest = JSON_OBJECT
     [(''daemons'', JSON_OBJECT (map hw_daemon_entry
         [''ops-sysd'', ''ops-pmd'', ''ops-tempd'', ''ops-ledd'', ''ops-powerd'', ''ops-fand''])),
      (''mgmt_intf'', JSON_OBJECT [(''intf'', JSON_STRING ''eth0'')])]"

lemma sections_image_manifest:
  "sections image_manifest =
     [Daemons_Section (map hw_daemon_entry
         [''ops-sysd'', ''ops-pmd'', ''ops-tempd'', ''ops-ledd'', ''ops-powerd'', ''ops-fand'']),
      Mgmt_Section [(''intf'', JSON_STRING ''eth0'')]]"
  by (simp add: image_manifest_def DAEMONS_TAG_def MGMT_INTF_TAG_def)

lemma read_image_manifest:
  "sysd_read_manifest_file (\<lambda>_. True) (Some image_manifest) manifest_init =
     Inr (0, sysd_set_num_hw_daemons (fold apply_section (sections image_manifest) manifest_init))"
  by (rule read_manifest_accepted)
     (simp_all add: container_def image_manifest_def DAEMONS_TAG_def MGMT_INTF_TAG_def
        hw_daemon_entry_def MGMT_INTF_NAME_TAG_def)

theorem manifest_read_result_witness:
  "\<exists>st. sysd_read_manifest_file (\<lambda>_. True) (Some image_manifest) manifest_init = Inr (0, st)
    \<and> length (daemons st) = 6 \<and> num_hw_daemons st = 6
    \<and> map cur_hw (daemons st) = [1, 0, 0, 0, 0, 0] \<and> mgmt_intf st = Some []"
  using manifest_read_result [OF read_image_manifest] read_image_manifest
  by (auto simp: sections_image_manifest hw_daemon_entry_def new_daemon_def has_tag_def
      HW_HANDLER_TAG_def NAME_IN_DAEMON_TABLE_def MGMT_INTF_NAME_TAG_def names_intf_def)

text \<open>
  C38. Which copies of the reader go past their object or leave it without a terminating NUL, in a
  run that succeeds. A daemon name of more than 128 characters overruns the array it is copied to;
  one of 128 characters or more leaves the array unterminated. The name of the management interface
  overruns its object whenever it is not empty, because the object is allocated with room for zero
  elements, and is unterminated in any case: reading the name after the run is a read outside the
  object, or the dereference of a null pointer when the document names no interface. No other copy
  overruns.
\<close>

theorem manifest_overruns_exactly:
  assumes "sysd_read_manifest_file calloc_ok (Some j) manifest_init = Inr (0, st)"
  shows "(Overrun b n c \<in> set (overruns st) \<longleftrightarrow>
     (b = ''daemons[].name'' \<and> c = 128 \<and> 128 < n \<and> (\<exists>d \<in> set (daemons st). length (daemon_name d) = n)) \<or>
     (b = ''mgmt_intf->name'' \<and> c = 0 \<and> 0 < n \<and> (\<exists>s \<in> set (sections j). \<exists>i. section_intf s = Some i \<and> length i = n))) \<and>
    (Unterminated b c \<in> set (overruns st) \<longleftrightarrow>
     (b = ''daemons[].name'' \<and> c = 128 \<and> (\<exists>d \<in> set (daemons st). 128 \<le> length (daemon_name d))) \<or>
     (b = ''mgmt_intf->name'' \<and> c = 0 \<and> names_intf (sections j))) \<and>
    mgmt_intf_name st = Inl (if names_intf (sections j) then Out_Of_Bounds_Read else Null_Dereference)"
  using read_manifest_success [OF assms] mgmt_intf_name_read [OF assms]
  by (auto simp: manifest_init_def section_overruns_iff section_unterminated_iff MAX_DAEMON_NAME_LEN_def
      names_intf_def list_ex_iff)

theorem manifest_overruns_exactly_witness:
  "\<exists>st. sysd_read_manifest_file (\<lambda>_. True) (Some image_manifest) manifest_init = Inr (0, st)
     \<and> Overrun ''mgmt_intf->name'' 4 0 \<in> set (overruns st)
     \<and> Overrun ''daemons[].name'' 8 128 \<notin> set (overruns st)
     \<and> Unterminated ''daemons[].name'' 128 \<notin> set (overruns st)
     \<and> mgmt_intf_name st = Inl Out_Of_Bounds_Read"
proof -
  define st where "st = sysd_set_num_hw_daemons (fold apply_section (sections image_manifest) manifest_init)"
  have run: "sysd_read_manifest_file (\<lambda>_. True) (Some image_manifest) manifest_init = Inr (0, st)"
    unfolding st_def by (rule read_image_manifest)
  have names: "map daemon_name (daemons st) =
      [''ops-sysd'', ''ops-pmd'', ''ops-tempd'', ''ops-ledd'', ''ops-powerd'', ''ops-fand'']"
    by (simp add: st_def apply_section_def manifest_init_def sections_image_manifest hw_daemon_entry_def new_daemon_def)
  have "\<forall>nm \<in> set (map daemon_name (daemons st)). length nm < 128" unfolding names by simp
  then have short: "\<not> (\<exists>d \<in> set (daemons st). 128 \<le> length (daemon_name d))" by auto
  have sec: "Mgmt_Section [(''intf'', JSON_STRING ''eth0'')] \<in> set (sections image_manifest)"
    "section_intf (Mgmt_Section [(''intf'', JSON_STRING ''eth0'')]) = Some ''eth0''"
    by (simp_all add: sections_image_manifest MGMT_INTF_NAME_TAG_def)
  then have intf: "names_intf (sections image_manifest)" by (auto simp: names_intf_def list_ex_iff simp del: section_intf.simps)
  have "length ''eth0'' = 4" by simp
  with sec have four: "\<exists>s \<in> set (sections image_manifest). \<exists>i. section_intf s = Some i \<and> length i = 4" by blast
  note result = manifest_overruns_exactly [OF run]
  have "Overrun ''mgmt_intf->name'' 4 0 \<in> set (overruns st)"
    using result [of "''mgmt_intf->name''" 4 0] four by (simp del: section_intf.simps)
  then show ?thesis
    using result [of "''daemons[].name''" 8 128] run short intf by (intro exI [of _ st]) simp
qed

text \<open>
  The reader never returns anything but 0 and -1, and the only fault it can run into is the
  assertion of \<open>json_object\<close>, which needs a daemon whose value is not an object.
\<close>

lemma manifest_outcomes:
  "case sysd_read_manifest_file calloc_ok doc st of
     Inr (rc, st') \<Rightarrow> rc = 0 \<or> (rc = -1 \<and> num_hw_daemons st' = num_hw_daemons st)
   | Inl f \<Rightarrow> f = Assertion_Failure \<and> (\<exists>j ms. doc = Some j \<and> Daemons_Section ms \<in> set (sections j)
       \<and> \<not> section_ok (Daemons_Section ms))"
proof (cases doc)
  case None
  then show ?thesis by (simp add: sysd_read_manifest_file_def)
next
  case (Some j)
  then show ?thesis
    using run_sections_outcome [where calloc_ok = calloc_ok and ss = "sections j" and st = st]
    by (auto simp: read_manifest_Some and_then_def split: sum.splits)
qed

end
