(* ===== verification/Profile_Store.thy ===== *)
theory Profile_Store
  imports Sysd_Prelude "HOL-Library.Multiset"
begin

text \<open>
  The shape that the two profile tables of the database share. A profile row (table Q_Profile or
  QoS) has a name and a map from queue numbers to rows of a second table (Q_Profile_Entry or
  Queue), held as pointers; rows are never removed by ops-sysd. The pointers are indices into the
  second table, so sharing of a row by two profiles could be expressed; \<open>store_wf\<close> says that it
  does not happen. A view gives the rows of a profile by queue number, without pointers; the
  update of one queue of one profile is an update of that one point of the view.
\<close>

section \<open>Data\<close>

record profile_row =
  profile_name :: string
  profile_entries :: "(int \<times> nat) list"
  profile_hw_default :: "bool option"

record 'e profile_store =
  profiles :: "profile_row list"
  entries :: "'e list"

definition store_empty :: "'e profile_store" where
  "store_empty = \<lparr>profiles = [], entries = []\<rparr>"

text \<open>The row that a \<open>FOR_EACH\<close> loop with a test on the name finds first.\<close>

fun find_row :: "('a \<Rightarrow> bool) \<Rightarrow> 'a list \<Rightarrow> nat option" where
  "find_row P [] = None"
| "find_row P (x # xs) = (if P x then Some 0 else map_option Suc (find_row P xs))"

definition find_profile :: "string \<Rightarrow> 'e profile_store \<Rightarrow> nat option" where
  "find_profile nm st = find_row (\<lambda>p. profile_name p = nm) (profiles st)"

definition create_profile :: "string \<Rightarrow> 'e profile_store \<Rightarrow> 'e profile_store" where
  "create_profile nm st =
     st\<lparr>profiles := profiles st @ [\<lparr>profile_name = nm, profile_entries = [], profile_hw_default = None\<rparr>]\<rparr>"

definition ensure_profile :: "string \<Rightarrow> 'e profile_store \<Rightarrow> 'e profile_store" where
  "ensure_profile nm st = (case find_profile nm st of None \<Rightarrow> create_profile nm st | Some _ \<Rightarrow> st)"

definition find_queue :: "nat \<Rightarrow> int \<Rightarrow> 'e profile_store \<Rightarrow> nat option" where
  "find_queue pr q st = map_of (profile_entries (profiles st ! pr)) q"

definition create_queue :: "'e \<Rightarrow> nat \<Rightarrow> int \<Rightarrow> 'e profile_store \<Rightarrow> 'e profile_store" where
  "create_queue fresh pr q st =
     st\<lparr>entries := entries st @ [fresh],
        profiles := upd_nth pr (\<lambda>p. p\<lparr>profile_entries := profile_entries p @ [(q, length (entries st))]\<rparr>)
          (profiles st)\<rparr>"

definition ensure_queue :: "'e \<Rightarrow> nat \<Rightarrow> int \<Rightarrow> 'e profile_store \<Rightarrow> 'e profile_store" where
  "ensure_queue fresh pr q st =
     (case find_queue pr q st of None \<Rightarrow> create_queue fresh pr q st | Some _ \<Rightarrow> st)"

text \<open>Look a queue of a profile up or create it, and change its row.\<close>

definition update_queue :: "'e \<Rightarrow> ('e \<Rightarrow> 'e) \<Rightarrow> nat \<Rightarrow> int \<Rightarrow> 'e profile_store \<Rightarrow> 'e profile_store" where
  "update_queue fresh f pr q st =
     (let st' = ensure_queue fresh pr q st
      in case find_queue pr q st' of
           None \<Rightarrow> st'
         | Some r \<Rightarrow> st'\<lparr>entries := upd_nth r f (entries st')\<rparr>)"

section \<open>Invariant and view\<close>

definition profile_refs :: "profile_row \<Rightarrow> nat list" where
  "profile_refs p = map snd (profile_entries p)"

definition store_wf :: "'e profile_store \<Rightarrow> bool" where
  "store_wf st \<longleftrightarrow>
     distinct (map profile_name (profiles st)) \<and>
     (\<forall>p \<in> set (profiles st). distinct (map fst (profile_entries p))) \<and>
     distinct (concat (map profile_refs (profiles st))) \<and>
     (\<forall>p \<in> set (profiles st). \<forall>r \<in> set (profile_refs p). r < length (entries st))"

definition profile_view :: "'e profile_store \<Rightarrow> string \<Rightarrow> (int \<rightharpoonup> 'e) option" where
  "profile_view st nm =
     map_option (\<lambda>pr q. map_option (\<lambda>r. entries st ! r) (find_queue pr q st)) (find_profile nm st)"

section \<open>Lookup by name\<close>

lemma find_row_Some:
  "find_row P xs = Some i \<longleftrightarrow> i < length xs \<and> P (xs ! i) \<and> (\<forall>j < i. \<not> P (xs ! j))"
proof (induction xs arbitrary: i)
  case (Cons x xs)
  show ?case
  proof (cases i)
    case 0
    then show ?thesis by auto
  next
    case (Suc j)
    then show ?thesis using Cons by (auto simp: All_less_Suc2)
  qed
qed simp

lemma find_row_None: "find_row P xs = None \<longleftrightarrow> (\<forall>x \<in> set xs. \<not> P x)"
  by (induction xs) auto

lemma find_row_append:
  "find_row P (xs @ ys) =
     (case find_row P xs of None \<Rightarrow> map_option ((+) (length xs)) (find_row P ys) | Some i \<Rightarrow> Some i)"
proof (induction xs)
  case Nil
  then show ?case by (cases "find_row P ys") auto
next
  case (Cons x xs)
  then show ?case by (cases "find_row P xs"; cases "find_row P ys") auto
qed

lemma find_row_map_cong:
  "map g xs = map g ys \<Longrightarrow> find_row (\<lambda>x. g x = k) xs = find_row (\<lambda>x. g x = k) ys"
proof (induction xs arbitrary: ys)
  case (Cons x xs)
  then show ?case by (cases ys) auto
qed simp

text \<open>Names are keys: the row found for the name of row \<open>i\<close> is \<open>i\<close>.\<close>

lemma find_profile_unique:
  assumes "store_wf st" and "i < length (profiles st)" and "profile_name (profiles st ! i) = nm"
  shows "find_profile nm st = Some i"
proof -
  have "profile_name (profiles st ! j) \<noteq> nm" if "j < i" for j
    using assms that nth_eq_iff_index_eq [of "map profile_name (profiles st)" i j]
    by (auto simp: store_wf_def)
  with assms show ?thesis by (auto simp: find_profile_def find_row_Some)
qed

lemma find_profile_bound: "find_profile nm st = Some i \<Longrightarrow> i < length (profiles st)"
  by (auto simp: find_profile_def find_row_Some)

lemma find_profile_name: "find_profile nm st = Some i \<Longrightarrow> profile_name (profiles st ! i) = nm"
  by (auto simp: find_profile_def find_row_Some)

lemma find_profile_cong:
  "map profile_name (profiles st) = map profile_name (profiles st') \<Longrightarrow> find_profile nm st = find_profile nm st'"
  unfolding find_profile_def by (rule find_row_map_cong)

lemma find_profile_create:
  "find_profile j (create_profile k st) =
     (case find_profile j st of
        None \<Rightarrow> if j = k then Some (length (profiles st)) else None
      | Some i \<Rightarrow> Some i)"
  by (auto simp: find_profile_def create_profile_def find_row_append split: option.splits)

lemma store_wf_create_profile:
  assumes "store_wf st" and "find_profile nm st = None"
  shows "store_wf (create_profile nm st)"
  using assms by (auto simp: store_wf_def create_profile_def profile_refs_def find_profile_def find_row_None)

interpretation profile_table: keyed_rows find_profile create_profile ensure_profile store_wf
  by unfold_locales
     (auto simp: ensure_profile_def find_profile_create store_wf_create_profile split: option.splits)

section \<open>One queue of one profile\<close>

lemma find_queue_create:
  assumes "pr < length (profiles st)" and "find_queue pr q st = None"
  shows "find_queue pr' j (create_queue fresh pr q st) =
    (if pr' = pr \<and> j = q then Some (length (entries st)) else find_queue pr' j st)"
  using assms
  by (cases "pr' = pr")
     (auto simp: find_queue_def create_queue_def map_add_def row_simps split: option.splits)

text \<open>What the invariant needs of a change of one row of the profile table.\<close>

lemma concat_upd_nth_append:
  assumes "i < length xs"
  shows "mset (concat (map g (upd_nth i f xs))) + mset (g (xs ! i)) =
         mset (concat (map g xs)) + mset (g (f (xs ! i)))"
  using assms
proof (induction xs arbitrary: i)
  case (Cons x xs)
  show ?case
  proof (cases i)
    case (Suc j)
    then show ?thesis using Cons by (simp add: upd_nth_def algebra_simps)
  qed (simp add: upd_nth_def)
qed simp

lemma profile_name_create_queue:
  "map profile_name (profiles (create_queue fresh pr q st)) = map profile_name (profiles st)"
  unfolding create_queue_def by (simp add: map_upd_nth_field)

lemma store_wf_create_queue:
  assumes wf: "store_wf st" and pr: "pr < length (profiles st)" and new: "find_queue pr q st = None"
  shows "store_wf (create_queue fresh pr q st)"
proof -
  let ?n = "length (entries st)"
  let ?f = "\<lambda>p. p\<lparr>profile_entries := profile_entries p @ [(q, ?n)]\<rparr>"
  let ?ps = "upd_nth pr ?f (profiles st)"
  have q: "q \<notin> fst ` set (profile_entries (profiles st ! pr))"
    using new by (auto simp: find_queue_def map_of_eq_None_iff)
  have bound: "r < ?n" if "r \<in> set (concat (map profile_refs (profiles st)))" for r
    using wf that by (auto simp: store_wf_def)
  have refs: "mset (concat (map profile_refs ?ps)) = mset (concat (map profile_refs (profiles st))) + {#?n#}"
    using concat_upd_nth_append [OF pr, of profile_refs ?f] by (simp add: profile_refs_def)
  have "?n \<notin> set (concat (map profile_refs (profiles st)))" using bound by blast
  with wf have d: "distinct (?n # concat (map profile_refs (profiles st)))" by (simp add: store_wf_def)
  have mm: "mset (concat (map profile_refs ?ps)) = mset (?n # concat (map profile_refs (profiles st)))"
    using refs by simp
  have dist: "distinct (concat (map profile_refs ?ps))"
    using mset_eq_imp_distinct_iff [OF mm] d by blast
  have set_refs: "set (concat (map profile_refs ?ps)) = insert ?n (set (concat (map profile_refs (profiles st))))"
    using mset_eq_setD [OF mm] by simp
  have keys: "\<forall>p \<in> set ?ps. distinct (map fst (profile_entries p))"
    using wf q nth_mem [OF pr] by (auto simp: store_wf_def dest!: set_upd_nth)
  have names: "distinct (map profile_name ?ps)"
    using wf profile_name_create_queue [of fresh pr q st] by (simp add: store_wf_def create_queue_def)
  have "\<forall>p \<in> set ?ps. \<forall>r \<in> set (profile_refs p). r < Suc ?n"
  proof (intro ballI)
    fix p r assume "p \<in> set ?ps" and "r \<in> set (profile_refs p)"
    then have "r \<in> set (concat (map profile_refs ?ps))" by auto
    then have "r \<in> insert ?n (set (concat (map profile_refs (profiles st))))" by (simp only: set_refs)
    then have "r = ?n \<or> r < ?n" using bound [of r] by blast
    then show "r < Suc ?n" by linarith
  qed
  then show ?thesis using names keys dist by (simp add: store_wf_def create_queue_def)
qed

interpretation queue_table: keyed_rows "find_queue pr" "create_queue fresh pr" "ensure_queue fresh pr"
    "\<lambda>st. store_wf st \<and> pr < length (profiles st)" for fresh :: 'e and pr :: nat
proof unfold_locales
  fix k and s :: "'e profile_store"
  assume "store_wf s \<and> pr < length (profiles s)" and "find_queue pr k s = None"
  then show "store_wf (create_queue fresh pr k s) \<and> pr < length (profiles (create_queue fresh pr k s))"
    using store_wf_create_queue [of s pr k fresh] by (auto simp: create_queue_def)
qed (auto simp: ensure_queue_def find_queue_create)

lemma distinct_concat_elem: "distinct (concat xss) \<Longrightarrow> xs \<in> set xss \<Longrightarrow> distinct xs"
  by (induction xss) auto

text \<open>Rows are not shared: a row of the second table is reached from one queue of one profile only.\<close>

lemma distinct_concat_nth:
  assumes "distinct (concat (map g xs))" and "i < length xs" and "j < length xs"
    and "x \<in> set (g (xs ! i))" and "x \<in> set (g (xs ! j))"
  shows "i = j"
  using assms
proof (induction xs arbitrary: i j)
  case (Cons y ys)
  have apart: "x \<in> set (g y) \<Longrightarrow> k < length ys \<Longrightarrow> x \<in> set (g (ys ! k)) \<Longrightarrow> False" for k
    using Cons.prems(1) nth_mem [of k ys] by fastforce
  show ?case
    using Cons.prems Cons.IH apart
    by (cases i; cases j) (auto simp: less_Suc_eq_0_disj)
qed simp

lemma map_of_same_value:
  assumes "distinct (map snd xs)" and "map_of xs a = Some v" and "map_of xs b = Some v"
  shows "a = b"
proof -
  from assms(2,3) have "(a, v) \<in> set xs" and "(b, v) \<in> set xs" by (auto dest: map_of_SomeD)
  moreover have "inj_on snd (set xs)" using assms(1) by (simp add: distinct_map)
  ultimately show ?thesis using inj_onD [of snd "set xs" "(a, v)" "(b, v)"] by simp
qed

lemma find_queue_refs: "find_queue pr q st = Some r \<Longrightarrow> r \<in> set (profile_refs (profiles st ! pr))"
  by (force simp: find_queue_def profile_refs_def dest: map_of_SomeD)

lemma rows_not_shared:
  assumes wf: "store_wf st" and "i < length (profiles st)" and "j < length (profiles st)"
    and fi: "find_queue i a st = Some r" and fj: "find_queue j b st = Some r"
  shows "i = j \<and> a = b"
proof -
  have "i = j"
    using wf assms(2,3) find_queue_refs [OF fi] find_queue_refs [OF fj]
    by (auto simp: store_wf_def intro: distinct_concat_nth)
  moreover have "distinct (map snd (profile_entries (profiles st ! i)))"
    using distinct_concat_elem [of "map profile_refs (profiles st)" "profile_refs (profiles st ! i)"]
      wf assms(2) by (simp add: store_wf_def profile_refs_def)
  ultimately show ?thesis using fi fj by (auto simp: find_queue_def intro: map_of_same_value)
qed

lemma find_queue_bound:
  assumes "store_wf st" and "pr < length (profiles st)" and "find_queue pr q st = Some r"
  shows "r < length (entries st)"
  using assms find_queue_refs [OF assms(3)] by (auto simp: store_wf_def)

section \<open>Updating one queue of one profile\<close>

abbreviation point :: "(int \<rightharpoonup> 'e) \<Rightarrow> 'e \<Rightarrow> ('e \<Rightarrow> 'e) \<Rightarrow> int \<Rightarrow> (int \<rightharpoonup> 'e)" where
  "point v fresh f q \<equiv> v(q \<mapsto> f (case v q of None \<Rightarrow> fresh | Some e \<Rightarrow> e))"

definition queue_view :: "'e profile_store \<Rightarrow> nat \<Rightarrow> (int \<rightharpoonup> 'e)" where
  "queue_view st pr q = map_option (\<lambda>r. entries st ! r) (find_queue pr q st)"

lemma profile_view_alt: "profile_view st nm = map_option (queue_view st) (find_profile nm st)"
  by (cases "find_profile nm st") (auto simp: profile_view_def queue_view_def)

lemma queue_view_create:
  assumes wf: "store_wf st" and "pr < length (profiles st)" and "find_queue pr q st = None"
    and "pr' < length (profiles st)"
  shows "queue_view (create_queue fresh pr q st) pr' =
    (if pr' = pr then (queue_view st pr)(q \<mapsto> fresh) else queue_view st pr')"
proof
  fix j
  have "entries (create_queue fresh pr q st) ! r = entries st ! r" if "find_queue pr' j st = Some r" for r
    using find_queue_bound [OF wf assms(4) that] by (simp add: create_queue_def nth_append)
  moreover have "entries (create_queue fresh pr q st) ! length (entries st) = fresh"
    by (simp add: create_queue_def)
  ultimately show "queue_view (create_queue fresh pr q st) pr' j =
    (if pr' = pr then (queue_view st pr)(q \<mapsto> fresh) else queue_view st pr') j"
    using assms(2,3)
    by (cases "find_queue pr' j st") (auto simp: queue_view_def find_queue_create)
qed

lemma find_queue_entries_update: "find_queue pr q (st\<lparr>entries := es\<rparr>) = find_queue pr q st"
  by (simp add: find_queue_def)

lemma store_wf_entries_update: "length es = length (entries st) \<Longrightarrow> store_wf (st\<lparr>entries := es\<rparr>) = store_wf st"
  by (simp add: store_wf_def)

lemma find_profile_entries_update: "find_profile nm (st\<lparr>entries := es\<rparr>) = find_profile nm st"
  by (simp add: find_profile_def)

lemma queue_view_write:
  assumes wf: "store_wf st" and pr: "pr < length (profiles st)" and q: "find_queue pr q st = Some r"
    and pr': "pr' < length (profiles st)"
  shows "queue_view (st\<lparr>entries := upd_nth r f (entries st)\<rparr>) pr' =
    (if pr' = pr then (queue_view st pr)(q \<mapsto> f (entries st ! r)) else queue_view st pr')"
proof
  fix j
  have r: "r < length (entries st)" by (rule find_queue_bound [OF wf pr q])
  show "queue_view (st\<lparr>entries := upd_nth r f (entries st)\<rparr>) pr' j =
    (if pr' = pr then (queue_view st pr)(q \<mapsto> f (entries st ! r)) else queue_view st pr') j"
  proof (cases "find_queue pr' j st")
    case None
    then show ?thesis using q by (auto simp: queue_view_def find_queue_entries_update)
  next
    case (Some r')
    have "r' = r \<longleftrightarrow> pr' = pr \<and> j = q"
      using rows_not_shared [OF wf pr' pr] Some q by auto
    then show ?thesis
      using Some r by (auto simp: queue_view_def find_queue_entries_update nth_upd_nth q)
  qed
qed

lemma update_queue_wf:
  assumes "store_wf st" and "pr < length (profiles st)"
  shows "store_wf (update_queue fresh f pr q st)"
proof -
  have "store_wf (ensure_queue fresh pr q st)"
    by (rule queue_table.inv_ensure [OF conjI [OF assms], THEN conjunct1])
  then show ?thesis
    by (auto simp: update_queue_def Let_def store_wf_entries_update split: option.splits)
qed

lemma ensure_queue_names:
  "map profile_name (profiles (ensure_queue fresh pr q st)) = map profile_name (profiles st)"
  by (auto simp: ensure_queue_def profile_name_create_queue split: option.splits)

lemma update_queue_names:
  "map profile_name (profiles (update_queue fresh f pr q st)) = map profile_name (profiles st)"
  by (auto simp: update_queue_def Let_def ensure_queue_names split: option.splits)

lemma update_queue_find_profile: "find_profile nm (update_queue fresh f pr q st) = find_profile nm st"
  by (intro find_profile_cong update_queue_names)

lemma update_queue_length: "length (profiles (update_queue fresh f pr q st)) = length (profiles st)"
  using update_queue_names by (metis length_map)

lemma update_queue_view:
  assumes wf: "store_wf st" and pr: "pr < length (profiles st)" and pr': "pr' < length (profiles st)"
  shows "queue_view (update_queue fresh f pr q st) pr' =
    (if pr' = pr then point (queue_view st pr) fresh f q else queue_view st pr')"
proof (cases "find_queue pr q st")
  case None
  let ?st = "create_queue fresh pr q st"
  have wf': "store_wf ?st" and len: "length (profiles ?st) = length (profiles st)"
    using store_wf_create_queue [OF wf pr None] by (auto simp: create_queue_def)
  have q: "find_queue pr q ?st = Some (length (entries st))"
    using find_queue_create [OF pr None] by simp
  have upd: "update_queue fresh f pr q st =
      ?st\<lparr>entries := upd_nth (length (entries st)) f (entries ?st)\<rparr>"
    using None q by (simp add: update_queue_def ensure_queue_def Let_def)
  have e: "entries ?st ! length (entries st) = fresh" by (simp add: create_queue_def)
  have "queue_view st pr q = None" using None by (simp add: queue_view_def)
  have "pr < length (profiles ?st)" and "pr' < length (profiles ?st)" using pr pr' len by auto
  from queue_view_write [OF wf' this(1) q this(2)]
  have "queue_view (update_queue fresh f pr q st) pr' =
      (if pr' = pr then (queue_view ?st pr)(q \<mapsto> f fresh) else queue_view ?st pr')"
    by (simp only: upd e)
  then show ?thesis
    using \<open>queue_view st pr q = None\<close>
    by (simp only: queue_view_create [OF wf pr None pr] queue_view_create [OF wf pr None pr'] option.case)
       (simp split: if_splits)
next
  case (Some r)
  then have upd: "update_queue fresh f pr q st = st\<lparr>entries := upd_nth r f (entries st)\<rparr>"
    by (simp add: update_queue_def ensure_queue_def Let_def)
  have "queue_view st pr q = Some (entries st ! r)" using Some by (simp add: queue_view_def)
  then show ?thesis
    by (simp only: upd queue_view_write [OF wf pr Some pr'] option.case)
qed

section \<open>All queues of one profile\<close>

text \<open>Unlink every queue of a profile; the rows themselves stay in the second table.\<close>

definition clear_queues :: "nat \<Rightarrow> 'e profile_store \<Rightarrow> 'e profile_store" where
  "clear_queues pr st = st\<lparr>profiles := upd_nth pr (\<lambda>p. p\<lparr>profile_entries := []\<rparr>) (profiles st)\<rparr>"

text \<open>Set a column of the profile row and of each of its queue rows.\<close>

definition mark_profile :: "('e \<Rightarrow> 'e) \<Rightarrow> nat \<Rightarrow> 'e profile_store \<Rightarrow> 'e profile_store" where
  "mark_profile f pr st =
     st\<lparr>profiles := upd_nth pr (\<lambda>p. p\<lparr>profile_hw_default := Some True\<rparr>) (profiles st),
        entries := fold (\<lambda>r. upd_nth r f) (profile_refs (profiles st ! pr)) (entries st)\<rparr>"

lemma clear_queues_names: "map profile_name (profiles (clear_queues pr st)) = map profile_name (profiles st)"
  unfolding clear_queues_def by (simp add: map_upd_nth_field)

lemma mark_profile_names: "map profile_name (profiles (mark_profile f pr st)) = map profile_name (profiles st)"
  unfolding mark_profile_def by (simp add: map_upd_nth_field)

lemma distinct_concat_upd_nth:
  assumes "distinct (concat (map g xs))" and "\<And>x. g (f x) = []"
  shows "distinct (concat (map g (upd_nth i f xs))) \<and>
    set (concat (map g (upd_nth i f xs))) \<subseteq> set (concat (map g xs))"
  using assms(1)
proof (induction xs arbitrary: i)
  case (Cons x xs)
  have upd: "upd_nth 0 f (x # xs) = f x # xs" "upd_nth (Suc j) f (x # xs) = x # upd_nth j f xs" for j
    by (simp_all add: upd_nth_def)
  show ?case
  proof (cases i)
    case 0
    then show ?thesis using Cons.prems assms(2) by (auto simp: upd)
  next
    case (Suc j)
    have "distinct (concat (map g (upd_nth j f xs)))"
      and "set (concat (map g (upd_nth j f xs))) \<subseteq> set (concat (map g xs))"
      using Cons.IH [of j] Cons.prems by simp_all
    then show ?thesis using Cons.prems Suc by (simp add: upd) blast
  qed
qed (simp add: upd_nth_def)

lemma profile_refs_wf:
  assumes "store_wf st" and "pr < length (profiles st)"
  shows "distinct (profile_refs (profiles st ! pr))"
    and "\<forall>r \<in> set (profile_refs (profiles st ! pr)). r < length (entries st)"
proof -
  have p: "profiles st ! pr \<in> set (profiles st)" using assms(2) by simp
  show "distinct (profile_refs (profiles st ! pr))"
    using assms(1) p by (auto simp: store_wf_def intro: distinct_concat_elem)
  show "\<forall>r \<in> set (profile_refs (profiles st ! pr)). r < length (entries st)"
    using assms(1) p by (simp add: store_wf_def del: in_set_conv_nth)
qed

lemma clear_queues_wf: "store_wf st \<Longrightarrow> store_wf (clear_queues pr st)"
proof -
  assume wf: "store_wf st"
  let ?ps = "upd_nth pr (\<lambda>p. p\<lparr>profile_entries := []\<rparr>) (profiles st)"
  have refs: "distinct (concat (map profile_refs ?ps)) \<and>
      set (concat (map profile_refs ?ps)) \<subseteq> set (concat (map profile_refs (profiles st)))"
    using wf by (intro distinct_concat_upd_nth) (simp_all add: store_wf_def profile_refs_def)
  have "\<forall>p \<in> set ?ps. distinct (map fst (profile_entries p)) \<and> (\<forall>r \<in> set (profile_refs p). r < length (entries st))"
    using wf by (auto simp: store_wf_def profile_refs_def dest!: set_upd_nth)
  then show ?thesis
    using wf refs clear_queues_names [of pr st] by (simp add: store_wf_def clear_queues_def)
qed

lemma clear_queues_view:
  assumes "pr < length (profiles st)"
  shows "queue_view (clear_queues pr st) pr' = (if pr' = pr then Map.empty else queue_view st pr')"
  using assms
  by (cases "pr' = pr") (auto simp: queue_view_def find_queue_def clear_queues_def row_simps fun_eq_iff)

lemma nth_fold_upd_nth:
  "distinct rs \<Longrightarrow> \<forall>r \<in> set rs. r < length es \<Longrightarrow>
   length (fold (\<lambda>r. upd_nth r f) rs es) = length es \<and>
   (\<forall>k < length es. fold (\<lambda>r. upd_nth r f) rs es ! k = (if k \<in> set rs then f (es ! k) else es ! k))"
proof (induction rs arbitrary: es)
  case (Cons r rs)
  then show ?case by (auto simp: nth_upd_nth)
qed simp

lemma mark_profile_wf:
  assumes wf: "store_wf st" and pr: "pr < length (profiles st)"
  shows "store_wf (mark_profile f pr st)"
proof -
  let ?p = "profiles st ! pr"
  let ?ps = "upd_nth pr (\<lambda>p. p\<lparr>profile_hw_default := Some True\<rparr>) (profiles st)"
  have refs: "map profile_refs ?ps = map profile_refs (profiles st)"
    and entries: "map profile_entries ?ps = map profile_entries (profiles st)"
    and names: "map profile_name ?ps = map profile_name (profiles st)"
    by (simp_all add: map_upd_nth_field profile_refs_def)
  have len: "length (fold (\<lambda>r. upd_nth r f) (profile_refs ?p) (entries st)) = length (entries st)"
    using nth_fold_upd_nth [OF profile_refs_wf [OF wf pr]] by blast
  have "\<forall>es \<in> set (map profile_entries ?ps). distinct (map fst es) \<and> (\<forall>r \<in> set (map snd es). r < length (entries st))"
    using wf unfolding entries by (auto simp: store_wf_def profile_refs_def)
  then show ?thesis
    using wf by (simp add: store_wf_def mark_profile_def len refs names) (auto simp: profile_refs_def)
qed

lemma mark_profile_view:
  assumes wf: "store_wf st" and pr: "pr < length (profiles st)" and pr': "pr' < length (profiles st)"
  shows "queue_view (mark_profile f pr st) pr' =
    (if pr' = pr then map_option f \<circ> queue_view st pr else queue_view st pr')"
proof
  fix q
  have fq: "find_queue pr' q (mark_profile f pr st) = find_queue pr' q st"
    using pr by (cases "pr' = pr") (simp_all add: find_queue_def mark_profile_def row_simps)
  show "queue_view (mark_profile f pr st) pr' q =
    (if pr' = pr then map_option f \<circ> queue_view st pr else queue_view st pr') q"
  proof (cases "find_queue pr' q st")
    case (Some r)
    have rl: "r < length (entries st)" by (rule find_queue_bound [OF wf pr' Some])
    have "r \<in> set (profile_refs (profiles st ! pr)) \<longleftrightarrow> pr' = pr"
      using find_queue_refs [OF Some] distinct_concat_nth [of profile_refs "profiles st" pr pr' r] wf pr pr'
      by (auto simp: store_wf_def)
    then have "entries (mark_profile f pr st) ! r = (if pr' = pr then f (entries st ! r) else entries st ! r)"
      using nth_fold_upd_nth [OF profile_refs_wf [OF wf pr], of f] rl by (simp add: mark_profile_def)
    then show ?thesis using Some fq by (auto simp: queue_view_def)
  next
    case None
    then show ?thesis by (auto simp: queue_view_def fq)
  qed
qed
section \<open>Profiles by name\<close>

definition profile_flag :: "'e profile_store \<Rightarrow> string \<Rightarrow> bool option" where
  "profile_flag st nm = (case find_profile nm st of None \<Rightarrow> None | Some i \<Rightarrow> profile_hw_default (profiles st ! i))"

lemma nth_upd_nth_field: "(\<And>x. g (f x) = g x) \<Longrightarrow> g (upd_nth i f xs ! j) = g (xs ! j)"
  by (cases "i < length xs"; cases "i = j") (auto simp: upd_nth_def list_update_beyond)

lemma update_queue_flag:
  "profile_hw_default (profiles (update_queue fresh f pr q st) ! i) = profile_hw_default (profiles st ! i)"
proof -
  have "profile_hw_default (profiles (ensure_queue fresh pr q st) ! i) = profile_hw_default (profiles st ! i)"
    by (auto simp: ensure_queue_def create_queue_def nth_upd_nth_field split: option.splits)
  then show ?thesis by (auto simp: update_queue_def Let_def split: option.splits)
qed

lemma clear_queues_flag: "profile_hw_default (profiles (clear_queues pr st) ! i) = profile_hw_default (profiles st ! i)"
  by (simp add: clear_queues_def nth_upd_nth_field)

text \<open>A run of updates of queues of one profile.\<close>

lemma fold_update_queue:
  assumes "store_wf st" and "pr < length (profiles st)"
    and "st' = fold (\<lambda>e. update_queue fresh (upd e) pr (key e)) es st"
  shows "store_wf st' \<and> map profile_name (profiles st') = map profile_name (profiles st) \<and>
    (\<forall>i. profile_hw_default (profiles st' ! i) = profile_hw_default (profiles st ! i)) \<and>
    (\<forall>i < length (profiles st). queue_view st' i =
       (if i = pr then fold (\<lambda>e v. point v fresh (upd e) (key e)) es (queue_view st pr) else queue_view st i))"
  unfolding assms(3) using assms(1,2)
proof (induction es arbitrary: st)
  case (Cons e es)
  let ?st = "update_queue fresh (upd e) pr (key e) st"
  have len: "length (profiles ?st) = length (profiles st)" by (rule update_queue_length)
  note IH = Cons.IH [of ?st, unfolded len, OF update_queue_wf [OF Cons.prems] Cons.prems(2)]
  show ?case
    using IH Cons.prems(2)
    by (simp add: update_queue_names update_queue_flag update_queue_view [OF Cons.prems])
qed simp

lemma named_change:
  assumes "find_profile nm st = Some pr" and names: "map profile_name (profiles st') = map profile_name (profiles st)"
    and views: "\<And>i. i < length (profiles st) \<Longrightarrow> queue_view st' i = (if i = pr then v else queue_view st i)"
  shows "find_profile j st' = find_profile j st" and "profile_view st' = (profile_view st)(nm \<mapsto> v)"
proof -
  show fj: "find_profile j st' = find_profile j st" for j by (rule find_profile_cong [OF names])
  show "profile_view st' = (profile_view st)(nm \<mapsto> v)"
  proof
    fix j
    show "profile_view st' j = ((profile_view st)(nm \<mapsto> v)) j"
    proof (cases "find_profile j st")
      case None
      then have "j \<noteq> nm" using assms(1) by auto
      then show ?thesis using None by (simp add: profile_view_alt fj)
    next
      case (Some i)
      have same: "i = pr \<longleftrightarrow> j = nm" by (metis Some assms(1) find_profile_name option.inject)
      have "profile_view st' j = Some (if i = pr then v else queue_view st i)"
        by (simp only: profile_view_alt fj Some option.map views [OF find_profile_bound [OF Some]])
      moreover have "profile_view st j = Some (queue_view st i)"
        by (simp only: profile_view_alt Some option.map)
      ultimately show ?thesis by (simp only: same fun_upd_apply split: if_split) blast
    qed
  qed
qed

lemma profile_view_found: "find_profile nm st = Some pr \<Longrightarrow> profile_view st nm = Some (queue_view st pr)"
  by (simp add: profile_view_alt)

lemma profile_view_None: "profile_view st nm = None \<longleftrightarrow> find_profile nm st = None"
  by (simp add: profile_view_alt)

lemma fold_update_queue_named:
  assumes wf: "store_wf st" and pr: "find_profile nm st = Some pr"
    and st': "st' = fold (\<lambda>e. update_queue fresh (upd e) pr (key e)) es st"
  shows "store_wf st'" and "find_profile j st' = find_profile j st" and "profile_flag st' j = profile_flag st j"
    and "profile_view st' =
      (profile_view st)(nm \<mapsto> fold (\<lambda>e v. point v fresh (upd e) (key e)) es (the (profile_view st nm)))"
proof -
  note fu = fold_update_queue [OF wf find_profile_bound [OF pr] st']
  note nc = named_change [OF pr, of st' "fold (\<lambda>e v. point v fresh (upd e) (key e)) es (queue_view st pr)"]
  show "store_wf st'" using fu by blast
  show fj: "find_profile j st' = find_profile j st" for j using fu by (intro nc) auto
  show "profile_flag st' j = profile_flag st j"
    using fu by (simp add: profile_flag_def fj split: option.split)
  show "profile_view st' =
      (profile_view st)(nm \<mapsto> fold (\<lambda>e v. point v fresh (upd e) (key e)) es (the (profile_view st nm)))"
    unfolding profile_view_found [OF pr] option.sel using fu by (intro nc) auto
qed

lemma clear_queues_named:
  assumes wf: "store_wf st" and pr: "find_profile nm st = Some pr"
  shows "store_wf (clear_queues pr st)" and "find_profile j (clear_queues pr st) = find_profile j st"
    and "profile_flag (clear_queues pr st) j = profile_flag st j"
    and "profile_view (clear_queues pr st) = (profile_view st)(nm \<mapsto> Map.empty)"
proof -
  note nc = named_change [OF pr clear_queues_names clear_queues_view [OF find_profile_bound [OF pr]]]
  show "store_wf (clear_queues pr st)" by (rule clear_queues_wf [OF wf])
  show fj: "find_profile j (clear_queues pr st) = find_profile j st" for j by (rule nc)
  show "profile_flag (clear_queues pr st) j = profile_flag st j"
    by (simp add: profile_flag_def fj clear_queues_flag split: option.split)
  show "profile_view (clear_queues pr st) = (profile_view st)(nm \<mapsto> Map.empty)" by (rule nc)
qed

lemma mark_profile_named:
  assumes wf: "store_wf st" and pr: "find_profile nm st = Some pr"
  shows "store_wf (mark_profile f pr st)" and "find_profile j (mark_profile f pr st) = find_profile j st"
    and "profile_flag (mark_profile f pr st) = (profile_flag st)(nm := Some True)"
    and "profile_view (mark_profile f pr st) = (profile_view st)(nm \<mapsto> map_option f \<circ> the (profile_view st nm))"
proof -
  have len: "pr < length (profiles st)" by (rule find_profile_bound [OF pr])
  note nc = named_change [OF pr mark_profile_names mark_profile_view [OF wf len]]
  show "store_wf (mark_profile f pr st)" by (rule mark_profile_wf [OF wf len])
  show fj: "find_profile j (mark_profile f pr st) = find_profile j st" for j by (rule nc)
  have "profile_hw_default (profiles (mark_profile f pr st) ! i) =
      (if i = pr then Some True else profile_hw_default (profiles st ! i))" for i
    using len by (simp add: mark_profile_def nth_upd_nth)
  moreover have "i = pr \<longleftrightarrow> j = nm" if "find_profile j st = Some i" for i j
    by (metis that pr find_profile_name option.inject)
  ultimately show "profile_flag (mark_profile f pr st) = (profile_flag st)(nm := Some True)"
    using pr by (auto simp: profile_flag_def fj fun_eq_iff split: option.split)
  show "profile_view (mark_profile f pr st) = (profile_view st)(nm \<mapsto> map_option f \<circ> the (profile_view st nm))"
    unfolding profile_view_found [OF pr] option.sel by (rule nc)
qed

lemma ensure_profile_named:
  assumes "store_wf st"
  shows "\<exists>pr. find_profile nm (ensure_profile nm st) = Some pr"
    and "store_wf (ensure_profile nm st)"
    and "find_profile j st = Some i \<Longrightarrow> find_profile j (ensure_profile nm st) = Some i"
    and "profile_flag (ensure_profile nm st) j = profile_flag st j"
    and "profile_view (ensure_profile nm st) =
      (profile_view st)(nm \<mapsto> (case profile_view st nm of None \<Rightarrow> Map.empty | Some v \<Rightarrow> v))"
proof -
  show "\<exists>pr. find_profile nm (ensure_profile nm st) = Some pr" by (rule profile_table.find_ensure [OF assms])
  show "store_wf (ensure_profile nm st)" by (rule profile_table.inv_ensure [OF assms])
  show "find_profile j st = Some i \<Longrightarrow> find_profile j (ensure_profile nm st) = Some i"
    by (rule profile_table.find_ensure_keep [OF assms])
  have old: "queue_view (create_profile nm st) i = queue_view st i"
      "profile_hw_default (profiles (create_profile nm st) ! i) = profile_hw_default (profiles st ! i)"
    if "find_profile j st = Some i" for i j
    using find_profile_bound [OF that]
    by (auto simp: queue_view_def find_queue_def create_profile_def nth_append fun_eq_iff)
  have fresh: "queue_view (create_profile nm st) (length (profiles st)) = Map.empty"
      "profile_hw_default (profiles (create_profile nm st) ! length (profiles st)) = None"
    by (auto simp: queue_view_def find_queue_def create_profile_def fun_eq_iff)
  show "profile_flag (ensure_profile nm st) j = profile_flag st j"
    using old fresh
    by (auto simp: profile_flag_def ensure_profile_def find_profile_create split: option.splits)
  show "profile_view (ensure_profile nm st) =
      (profile_view st)(nm \<mapsto> (case profile_view st nm of None \<Rightarrow> Map.empty | Some v \<Rightarrow> v))"
    using old fresh
    by (auto simp: fun_eq_iff profile_view_alt ensure_profile_def find_profile_create split: option.splits)
qed

lemma store_empty_wf [simp]: "store_wf store_empty"
  by (simp add: store_wf_def store_empty_def)

lemma store_empty_view [simp]: "profile_view store_empty = Map.empty"
  by (simp add: profile_view_alt find_profile_def store_empty_def fun_eq_iff)

lemma store_empty_flag [simp]: "profile_flag store_empty nm = None"
  by (simp add: profile_flag_def find_profile_def store_empty_def)


end
