(* ===== verification/Ovsdb.thy ===== *)
theory Ovsdb
  imports Profile_Store C_Strings
begin

text \<open>
  The part of the Open_vSwitch database that ops-sysd reads and writes, as the client library
  presents it inside a transaction: tables as lists of rows, a row pointer as an index, a row
  inserted at the end and visible at once, a column setter as an update of the row. The order in
  which a \<open>FOR_EACH\<close> macro visits the rows is the list's; the code looks rows up by name only.
  Set and map columns keep the order in which the code gives their elements. The database server
  and the transport are not part of the repository; a commit is a result that the code is given.
\<close>

section \<open>String maps\<close>

type_synonym smap = "(string \<times> string) list"

definition smap_add :: "string \<Rightarrow> string \<Rightarrow> smap \<Rightarrow> smap" where
  "smap_add k v m = m @ [(k, v)]"

fun smap_replace :: "string \<Rightarrow> string \<Rightarrow> smap \<Rightarrow> smap" where
  "smap_replace k v [] = [(k, v)]"
| "smap_replace k v ((k', v') # m) = (if k = k' then (k, v) # m else (k', v') # smap_replace k v m)"

text \<open>\<open>smap_add_once\<close> keeps a value that is already there.\<close>

definition smap_add_once :: "string \<Rightarrow> string \<Rightarrow> smap \<Rightarrow> smap" where
  "smap_add_once k v m = (case map_of m k of None \<Rightarrow> smap_add k v m | Some _ \<Rightarrow> m)"

abbreviation smap_get :: "smap \<Rightarrow> string \<Rightarrow> string option" where
  "smap_get m k \<equiv> map_of m k"

lemma smap_get_replace [row_simps]: "map_of (smap_replace k v m) = (map_of m)(k \<mapsto> v)"
  by (induction k v m rule: smap_replace.induct) (auto simp: fun_eq_iff)

lemma smap_get_add [row_simps]:
  "smap_get (smap_add k v m) j =
     (case smap_get m j of None \<Rightarrow> if j = k then Some v else None | Some x \<Rightarrow> Some x)"
  by (auto simp: smap_add_def map_add_def split: option.splits)

section \<open>Rows\<close>

record interface_row =
  if_name :: string
  if_type :: string
  if_admin_state :: "string option"
  if_hw_intf_info :: smap
  if_user_config :: smap
  if_split_parent :: "nat option"
  if_split_children :: "nat list"

record port_row =
  pt_name :: string
  pt_interfaces :: "nat list"

record bridge_row =
  bridge_name :: string
  bridge_ports :: "nat list"

record vrf_row =
  vrf_name :: string
  vrf_table_id :: "int list"
  vrf_status :: smap

record daemon_row =
  dr_name :: string
  dr_cur_hw :: int
  dr_is_hw_handler :: bool

record subsystem_row =
  ss_name :: string
  ss_asset_tag_number :: string
  ss_hw_desc_dir :: string
  ss_other_info :: smap
  ss_next_mac_address :: string
  ss_macs_remaining :: int
  ss_interfaces :: "nat list"

text \<open>The tables Q_Profile_Entry and Queue; their profiles are rows of a \<open>profile_store\<close>.\<close>

record q_profile_entry =
  local_priorities :: "int list"
  q_description :: "string option"
  q_hw_default :: "bool option"

record queue_row =
  algorithm :: "string option"
  weight :: "int option"
  queue_hw_default :: "bool option"

text \<open>
  The COS map and the DSCP map have the same columns but one; the code that would fill that one
  is compiled out.
\<close>

record cos_map_row =
  code_point :: int
  local_priority :: int
  color :: string
  description :: string
  hw_defaults :: smap

record dscp_map_row = cos_map_row +
  priority_code_point :: "int option"

record package_info_row =
  pkg_name :: string
  pkg_version :: "string option"
  pkg_src_url :: "string option"
  pkg_src_type :: "string option"

record system_row =
  mgmt_intf_map :: smap
  sys_bridges :: "nat list"
  sys_vrfs :: "nat list"
  management_mac :: string
  system_mac :: string
  sys_subsystems :: "nat list"
  sys_daemons :: "nat list"
  software_info :: smap
  switch_version :: string
  timezone :: string
  qos_config :: smap
  sys_dscp_map_entries :: "nat list"
  sys_cos_map_entries :: "nat list"
  sys_q_profile :: "nat option"
  sys_qos :: "nat option"
  sys_other_info :: smap
  sys_cur_hw :: int
  sys_next_hw :: int

record ovsdb =
  db_system :: "system_row list"
  db_subsystem :: "subsystem_row list"
  db_interface :: "interface_row list"
  db_port :: "port_row list"
  db_bridge :: "bridge_row list"
  db_vrf :: "vrf_row list"
  db_daemon :: "daemon_row list"
  db_q_profile :: "q_profile_entry profile_store"
  db_qos :: "queue_row profile_store"
  db_cos_map :: "cos_map_row list"
  db_dscp_map :: "dscp_map_row list"
  db_package_info :: "package_info_row list"

section \<open>Fresh rows\<close>

definition interface_fresh :: interface_row where
  "interface_fresh = \<lparr>if_name = [], if_type = [], if_admin_state = None, if_hw_intf_info = [],
     if_user_config = [], if_split_parent = None, if_split_children = []\<rparr>"

definition subsystem_fresh :: subsystem_row where
  "subsystem_fresh = \<lparr>ss_name = [], ss_asset_tag_number = [], ss_hw_desc_dir = [],
     ss_other_info = [], ss_next_mac_address = [], ss_macs_remaining = 0, ss_interfaces = []\<rparr>"

definition entry_fresh :: q_profile_entry where
  "entry_fresh = \<lparr>local_priorities = [], q_description = None, q_hw_default = None\<rparr>"

definition queue_fresh :: queue_row where
  "queue_fresh = \<lparr>algorithm = None, weight = None, queue_hw_default = None\<rparr>"

definition cos_map_fresh :: cos_map_row where
  "cos_map_fresh = \<lparr>code_point = 0, local_priority = 0, color = [], description = [], hw_defaults = []\<rparr>"

definition dscp_map_fresh :: dscp_map_row where
  "dscp_map_fresh = \<lparr>code_point = 0, local_priority = 0, color = [], description = [],
     hw_defaults = [], priority_code_point = None\<rparr>"

definition package_info_fresh :: package_info_row where
  "package_info_fresh = \<lparr>pkg_name = [], pkg_version = None, pkg_src_url = None, pkg_src_type = None\<rparr>"

definition system_fresh :: system_row where
  "system_fresh = \<lparr>mgmt_intf_map = [], sys_bridges = [], sys_vrfs = [], management_mac = [],
     system_mac = [], sys_subsystems = [], sys_daemons = [], software_info = [], switch_version = [],
     timezone = [], qos_config = [], sys_dscp_map_entries = [], sys_cos_map_entries = [],
     sys_q_profile = None, sys_qos = None, sys_other_info = [], sys_cur_hw = 0, sys_next_hw = 0\<rparr>"

definition ovsdb_empty :: ovsdb where
  "ovsdb_empty = \<lparr>db_system = [], db_subsystem = [], db_interface = [], db_port = [], db_bridge = [],
     db_vrf = [], db_daemon = [], db_q_profile = store_empty, db_qos = store_empty, db_cos_map = [],
     db_dscp_map = [], db_package_info = []\<rparr>"

section \<open>Row updates\<close>

definition set_system :: "nat \<Rightarrow> (system_row \<Rightarrow> system_row) \<Rightarrow> ovsdb \<Rightarrow> ovsdb" where
  "set_system s f db = db\<lparr>db_system := upd_nth s f (db_system db)\<rparr>"

definition set_interface :: "nat \<Rightarrow> (interface_row \<Rightarrow> interface_row) \<Rightarrow> ovsdb \<Rightarrow> ovsdb" where
  "set_interface i f db = db\<lparr>db_interface := upd_nth i f (db_interface db)\<rparr>"

lemma set_system_tables [simp, row_simps]:
  "db_system (set_system s f db) = upd_nth s f (db_system db) \<and>
   db_subsystem (set_system s f db) = db_subsystem db \<and>
   db_interface (set_system s f db) = db_interface db \<and>
   db_port (set_system s f db) = db_port db \<and>
   db_bridge (set_system s f db) = db_bridge db \<and>
   db_vrf (set_system s f db) = db_vrf db \<and>
   db_daemon (set_system s f db) = db_daemon db \<and>
   db_q_profile (set_system s f db) = db_q_profile db \<and>
   db_qos (set_system s f db) = db_qos db \<and>
   db_cos_map (set_system s f db) = db_cos_map db \<and>
   db_dscp_map (set_system s f db) = db_dscp_map db \<and>
   db_package_info (set_system s f db) = db_package_info db"
  by (simp add: set_system_def)

lemma set_interface_tables [simp, row_simps]:
  "db_system (set_interface i f db) = db_system db \<and>
   db_subsystem (set_interface i f db) = db_subsystem db \<and>
   db_interface (set_interface i f db) = upd_nth i f (db_interface db) \<and>
   db_port (set_interface i f db) = db_port db \<and>
   db_bridge (set_interface i f db) = db_bridge db \<and>
   db_vrf (set_interface i f db) = db_vrf db \<and>
   db_daemon (set_interface i f db) = db_daemon db \<and>
   db_q_profile (set_interface i f db) = db_q_profile db \<and>
   db_qos (set_interface i f db) = db_qos db \<and>
   db_cos_map (set_interface i f db) = db_cos_map db \<and>
   db_dscp_map (set_interface i f db) = db_dscp_map db \<and>
   db_package_info (set_interface i f db) = db_package_info db"
  by (simp add: set_interface_def)

end
