(* ===== verification/Qos.thy ===== *)
theory Qos
  imports Ovsdb
begin

text \<open>
  The factory defaults of quality of service, \<open>src/qos_init.c\<close>: the trust mode, the COS and DSCP
  maps, and the default and the factory-default queue and schedule profiles. The YAML file is
  read by the config-yaml library, whose accessors are the fields of \<open>yaml_qos\<close>; an index for
  which the library has no entry gives \<open>None\<close>, the null pointer.
\<close>

section \<open>The YAML data\<close>

text \<open>The strings are pointers, which are null when the file could not be read.\<close>

record yaml_qos_info =
  default_name :: "string option"
  factory_default_name :: "string option"
  trust :: "string option"

record yaml_queue_entry =
  yq_queue :: c_int
  yq_local_priority :: c_int
  yq_description :: "string option"

record yaml_schedule_entry =
  ys_queue :: c_int
  ys_algorithm :: "string option"
  ys_weight :: c_int

record yaml_map_entry =
  ym_code_point :: c_int
  ym_local_priority :: c_int
  ym_color :: "string option"
  ym_description :: "string option"

record yaml_qos =
  qos_info :: "yaml_qos_info option"
  queue_profile_entry_count :: c_int
  queue_profile_entry :: "nat \<Rightarrow> yaml_queue_entry option"
  schedule_profile_entry_count :: c_int
  schedule_profile_entry :: "nat \<Rightarrow> yaml_schedule_entry option"
  cos_map_entry_count :: c_int
  cos_map_entry :: "nat \<Rightarrow> yaml_map_entry option"
  dscp_map_entry_count :: c_int
  dscp_map_entry :: "nat \<Rightarrow> yaml_map_entry option"

definition QOS_TRUST_KEY :: string where "QOS_TRUST_KEY = ''qos_trust''"
definition QOS_CLI_STRING_BUFFER_SIZE :: nat where "QOS_CLI_STRING_BUFFER_SIZE = 67"
definition QOS_COS_MAP_ENTRY_COUNT :: nat where "QOS_COS_MAP_ENTRY_COUNT = 8"
definition QOS_DSCP_MAP_ENTRY_COUNT :: nat where "QOS_DSCP_MAP_ENTRY_COUNT = 64"
definition QOS_DEFAULT_CODE_POINT_KEY :: string where "QOS_DEFAULT_CODE_POINT_KEY = ''default_code_point''"
definition QOS_DEFAULT_LOCAL_PRIORITY_KEY :: string where
  "QOS_DEFAULT_LOCAL_PRIORITY_KEY = ''default_local_priority''"
definition QOS_DEFAULT_COLOR_KEY :: string where "QOS_DEFAULT_COLOR_KEY = ''default_color''"
definition QOS_DEFAULT_DESCRIPTION_KEY :: string where "QOS_DEFAULT_DESCRIPTION_KEY = ''default_description''"
definition OVSREC_QUEUE_ALGORITHM_STRICT :: string where "OVSREC_QUEUE_ALGORITHM_STRICT = ''strict''"

lemmas qos_key_defs = QOS_DEFAULT_CODE_POINT_KEY_def QOS_DEFAULT_LOCAL_PRIORITY_KEY_def
  QOS_DEFAULT_COLOR_KEY_def QOS_DEFAULT_DESCRIPTION_KEY_def

section \<open>Queue profiles\<close>

definition has_local_priority :: "q_profile_entry \<Rightarrow> int \<Rightarrow> bool" where
  "has_local_priority row p = list_ex (\<lambda>x. x = p) (local_priorities row)"

definition qos_get_queue_profile_row :: "string \<Rightarrow> q_profile_entry profile_store \<Rightarrow> nat option" where
  "qos_get_queue_profile_row nm st = find_row (\<lambda>p. strcmp (profile_name p) nm = 0) (profiles st)"

definition qos_get_queue_profile_entry_row :: "nat \<Rightarrow> int \<Rightarrow> q_profile_entry profile_store \<Rightarrow> nat option" where
  "qos_get_queue_profile_entry_row pr q st = find_queue pr q st"

definition insert_queue_profile_queue_row ::
    "nat \<Rightarrow> int \<Rightarrow> q_profile_entry profile_store \<Rightarrow> nat \<times> q_profile_entry profile_store" where
  "insert_queue_profile_queue_row pr q st = (length (entries st), create_queue entry_fresh pr q st)"

definition qos_queue_profile_command :: "string \<Rightarrow> q_profile_entry profile_store \<Rightarrow> q_profile_entry profile_store" where
  "qos_queue_profile_command nm st =
     (case qos_get_queue_profile_row nm st of None \<Rightarrow> create_profile nm st | Some _ \<Rightarrow> st)"

definition add_local_priority :: "int \<Rightarrow> q_profile_entry \<Rightarrow> q_profile_entry" where
  "add_local_priority p row =
     (if has_local_priority row p then row
      else row\<lparr>local_priorities := local_priorities row @ [p]\<rparr>)"

definition qos_queue_profile_row_command :: "string \<Rightarrow> int \<Rightarrow> int \<Rightarrow> string option \<Rightarrow>
    q_profile_entry profile_store \<Rightarrow> bool \<times> q_profile_entry profile_store" where
  "qos_queue_profile_row_command nm queue_num p descr st =
     (case qos_get_queue_profile_row nm st of
        None \<Rightarrow> (False, st)
      | Some pr \<Rightarrow>
          (let (r, st') = (case qos_get_queue_profile_entry_row pr queue_num st of
                             None \<Rightarrow> insert_queue_profile_queue_row pr queue_num st
                           | Some r \<Rightarrow> (r, st));
               st'' = st'\<lparr>entries := upd_nth r (add_local_priority p) (entries st')\<rparr>
           in case descr of
                None \<Rightarrow> (True, st'')
              | Some d \<Rightarrow> (True, st''\<lparr>entries := upd_nth r (\<lambda>e. e\<lparr>q_description := Some d\<rparr>) (entries st'')\<rparr>)))"

definition qos_queue_profile_create_factory_default ::
    "yaml_qos \<Rightarrow> string \<Rightarrow> q_profile_entry profile_store \<Rightarrow> q_profile_entry profile_store" where
  "qos_queue_profile_create_factory_default y nm st =
     fold (\<lambda>ii st. case queue_profile_entry y ii of
             None \<Rightarrow> st
           | Some e \<Rightarrow> snd (qos_queue_profile_row_command nm (sint (yq_queue e)) (sint (yq_local_priority e))
                             (yq_description e) st))
       [0..<unat (queue_profile_entry_count y)] (qos_queue_profile_command nm st)"

section \<open>Schedule profiles\<close>

definition qos_get_schedule_profile_row :: "string \<Rightarrow> queue_row profile_store \<Rightarrow> nat option" where
  "qos_get_schedule_profile_row nm st = find_row (\<lambda>p. strcmp (profile_name p) nm = 0) (profiles st)"

definition qos_get_schedule_profile_entry_row :: "nat \<Rightarrow> int \<Rightarrow> queue_row profile_store \<Rightarrow> nat option" where
  "qos_get_schedule_profile_entry_row pr q st = find_queue pr q st"

definition insert_schedule_profile_queue_row ::
    "nat \<Rightarrow> int \<Rightarrow> queue_row profile_store \<Rightarrow> nat \<times> queue_row profile_store" where
  "insert_schedule_profile_queue_row pr q st = (length (entries st), create_queue queue_fresh pr q st)"

definition qos_schedule_profile_command :: "string \<Rightarrow> queue_row profile_store \<Rightarrow> queue_row profile_store" where
  "qos_schedule_profile_command nm st =
     (case qos_get_schedule_profile_row nm st of None \<Rightarrow> create_profile nm st | Some _ \<Rightarrow> st)"

text \<open>
  An algorithm that is a null pointer is passed to \<open>strcmp\<close>, after the column setter, which
  takes it for the empty column.
\<close>

definition qos_schedule_profile_row_command :: "string \<Rightarrow> int \<Rightarrow> string option \<Rightarrow> int \<Rightarrow>
    queue_row profile_store \<Rightarrow> (bool \<times> queue_row profile_store) run" where
  "qos_schedule_profile_row_command nm queue_num alg w st =
     (case qos_get_schedule_profile_row nm st of
        None \<Rightarrow> Inr (False, st)
      | Some pr \<Rightarrow>
          (let (r, st') = (case qos_get_schedule_profile_entry_row pr queue_num st of
                             None \<Rightarrow> insert_schedule_profile_queue_row pr queue_num st
                           | Some r \<Rightarrow> (r, st));
               st'' = st'\<lparr>entries := upd_nth r (\<lambda>e. e\<lparr>algorithm := alg\<rparr>) (entries st')\<rparr>
           in case alg of
                None \<Rightarrow> Inl Null_Dereference
              | Some a \<Rightarrow>
                  (let w' = (if strcmp a OVSREC_QUEUE_ALGORITHM_STRICT = 0 then None else Some w)
                   in Inr (True, st''\<lparr>entries := upd_nth r (\<lambda>e. e\<lparr>weight := w'\<rparr>) (entries st'')\<rparr>))))"

definition qos_schedule_profile_create_factory_default ::
    "yaml_qos \<Rightarrow> string \<Rightarrow> queue_row profile_store \<Rightarrow> queue_row profile_store run" where
  "qos_schedule_profile_create_factory_default y nm st =
     (let st1 = qos_schedule_profile_command nm st
      in case qos_get_schedule_profile_row nm st1 of
           None \<Rightarrow> Inl Null_Dereference
         | Some pr \<Rightarrow>
             for_range 0 (nat (sint (schedule_profile_entry_count y)))
               (\<lambda>ii st. case schedule_profile_entry y ii of
                  None \<Rightarrow> Inr st
                | Some e \<Rightarrow> and_then (qos_schedule_profile_row_command nm (sint (ys_queue e)) (ys_algorithm e)
                                        (sint (ys_weight e)) st) (\<lambda>(_, st'). Inr st'))
               (clear_queues pr st1))"

section \<open>Trust mode\<close>

definition qos_init_trust :: "yaml_qos \<Rightarrow> nat \<Rightarrow> ovsdb \<Rightarrow> ovsdb" where
  "qos_init_trust y sys db =
     (case qos_info y of
        None \<Rightarrow> db
      | Some info \<Rightarrow>
          (case trust info of
             None \<Rightarrow> db
           | Some t \<Rightarrow> set_system sys (\<lambda>s. s\<lparr>qos_config := smap_replace QOS_TRUST_KEY t (qos_config s)\<rparr>) db))"

section \<open>COS and DSCP maps\<close>

text \<open>
  The columns of a code point row, and the copy of them in \<open>hw_defaults\<close>. Colour and
  description are duplicated as strings, which a null pointer does not survive.
\<close>

definition set_cos_map_entry :: "'a cos_map_row_scheme \<Rightarrow> int \<Rightarrow> int \<Rightarrow> string option \<Rightarrow> string option \<Rightarrow>
    'a cos_map_row_scheme run" where
  "set_cos_map_entry row cp p col descr =
     (case col of None \<Rightarrow> Inl Null_Dereference | Some c \<Rightarrow>
      case descr of None \<Rightarrow> Inl Null_Dereference | Some d \<Rightarrow>
        (let row1 = row\<lparr>code_point := cp, local_priority := p, color := c, description := d\<rparr>;
             cp_buffer = trunc_copy QOS_CLI_STRING_BUFFER_SIZE (show_d cp);
             p_buffer = trunc_copy QOS_CLI_STRING_BUFFER_SIZE (show_d p);
             m1 = smap_replace QOS_DEFAULT_CODE_POINT_KEY cp_buffer (hw_defaults row1);
             m2 = smap_replace QOS_DEFAULT_LOCAL_PRIORITY_KEY p_buffer m1;
             m3 = smap_replace QOS_DEFAULT_COLOR_KEY c m2;
             m4 = smap_replace QOS_DEFAULT_DESCRIPTION_KEY d m3
         in Inr (row1\<lparr>hw_defaults := m4\<rparr>)))"

definition set_dscp_map_entry :: "dscp_map_row \<Rightarrow> int \<Rightarrow> int \<Rightarrow> string option \<Rightarrow> string option \<Rightarrow>
    dscp_map_row run" where
  "set_dscp_map_entry row cp p col descr =
     (case col of None \<Rightarrow> Inl Null_Dereference | Some c \<Rightarrow>
      case descr of None \<Rightarrow> Inl Null_Dereference | Some d \<Rightarrow>
        (let row1 = row\<lparr>code_point := cp, local_priority := p, color := c, description := d\<rparr>;
             cp_buffer = trunc_copy QOS_CLI_STRING_BUFFER_SIZE (show_d cp);
             p_buffer = trunc_copy QOS_CLI_STRING_BUFFER_SIZE (show_d p);
             m1 = smap_replace QOS_DEFAULT_CODE_POINT_KEY cp_buffer (hw_defaults row1);
             m2 = smap_replace QOS_DEFAULT_LOCAL_PRIORITY_KEY p_buffer m1;
             m3 = smap_replace QOS_DEFAULT_COLOR_KEY c m2;
             m4 = smap_replace QOS_DEFAULT_DESCRIPTION_KEY d m3
         in Inr (row1\<lparr>hw_defaults := m4\<rparr>)))"

text \<open>
  The loops run to the count of the YAML file, as an unsigned number, over an array of 8 or 64
  row pointers.
\<close>

definition qos_init_default_cos_map :: "yaml_qos \<Rightarrow> cos_map_row list \<Rightarrow> cos_map_row list run" where
  "qos_init_default_cos_map y rows =
     for_range 0 (unat (cos_map_entry_count y))
       (\<lambda>ii rows. case cos_map_entry y ii of
          None \<Rightarrow> Inl Null_Dereference
        | Some e \<Rightarrow>
            if length rows \<le> ii then Inl Out_Of_Bounds_Read
            else and_then (set_cos_map_entry (rows ! ii) (sint (ym_code_point e)) (sint (ym_local_priority e))
                             (ym_color e) (ym_description e)) (\<lambda>row. Inr (rows[ii := row])))
       rows"

definition qos_init_cos_map :: "yaml_qos \<Rightarrow> nat \<Rightarrow> ovsdb \<Rightarrow> ovsdb run" where
  "qos_init_cos_map y sys db =
     (case cos_map_entry y 0 of
        None \<Rightarrow> Inr db
      | Some _ \<Rightarrow>
          and_then (qos_init_default_cos_map y (replicate QOS_COS_MAP_ENTRY_COUNT cos_map_fresh)) (\<lambda>rows.
            (let n = length (db_cos_map db)
             in Inr (set_system sys (\<lambda>s. s\<lparr>sys_cos_map_entries := [n..<n + QOS_COS_MAP_ENTRY_COUNT]\<rparr>)
                       (db\<lparr>db_cos_map := db_cos_map db @ rows\<rparr>)))))"

definition qos_init_default_dscp_map :: "yaml_qos \<Rightarrow> dscp_map_row list \<Rightarrow> dscp_map_row list run" where
  "qos_init_default_dscp_map y rows =
     for_range 0 (unat (dscp_map_entry_count y))
       (\<lambda>ii rows. case dscp_map_entry y ii of
          None \<Rightarrow> Inl Null_Dereference
        | Some e \<Rightarrow>
            if length rows \<le> ii then Inl Out_Of_Bounds_Read
            else and_then (set_dscp_map_entry (rows ! ii) (sint (ym_code_point e)) (sint (ym_local_priority e))
                             (ym_color e) (ym_description e)) (\<lambda>row. Inr (rows[ii := row])))
       rows"

definition qos_init_dscp_map :: "yaml_qos \<Rightarrow> nat \<Rightarrow> ovsdb \<Rightarrow> ovsdb run" where
  "qos_init_dscp_map y sys db =
     (case dscp_map_entry y 0 of
        None \<Rightarrow> Inr db
      | Some _ \<Rightarrow>
          and_then (qos_init_default_dscp_map y (replicate QOS_DSCP_MAP_ENTRY_COUNT dscp_map_fresh)) (\<lambda>rows.
            (let n = length (db_dscp_map db)
             in Inr (set_system sys (\<lambda>s. s\<lparr>sys_dscp_map_entries := [n..<n + QOS_DSCP_MAP_ENTRY_COUNT]\<rparr>)
                       (db\<lparr>db_dscp_map := db_dscp_map db @ rows\<rparr>)))))"

section \<open>Default and factory-default profiles\<close>

text \<open>
  A null name is dereferenced as soon as the profile of that name is looked for: by the comparison
  with the names of the rows or, when the table is empty, by the copy into the row inserted.
\<close>

definition qos_init_queue_profile :: "yaml_qos \<Rightarrow> nat \<Rightarrow> ovsdb \<Rightarrow> ovsdb run" where
  "qos_init_queue_profile y sys db =
     (case qos_info y of
        None \<Rightarrow> Inr db
      | Some info \<Rightarrow>
          (case default_name info of
             None \<Rightarrow> Inl Null_Dereference
           | Some dn \<Rightarrow>
               (let st1 = qos_queue_profile_create_factory_default y dn (db_q_profile db);
                    db1 = db\<lparr>db_q_profile := st1\<rparr>
                in case qos_get_queue_profile_row dn st1 of
                     None \<Rightarrow> Inr db1
                   | Some dp \<Rightarrow>
                       (let db2 = set_system sys (\<lambda>s. s\<lparr>sys_q_profile := Some dp\<rparr>) db1
                        in case factory_default_name info of
                             None \<Rightarrow> Inl Null_Dereference
                           | Some fdn \<Rightarrow>
                               (let st2 = qos_queue_profile_create_factory_default y fdn st1;
                                    db3 = db2\<lparr>db_q_profile := st2\<rparr>
                                in case qos_get_queue_profile_row fdn st2 of
                                     None \<Rightarrow> Inr db3
                                   | Some fp \<Rightarrow>
                                       Inr (db3\<lparr>db_q_profile :=
                                         mark_profile (\<lambda>e. e\<lparr>q_hw_default := Some True\<rparr>) fp st2\<rparr>))))))"

definition qos_init_schedule_profile :: "yaml_qos \<Rightarrow> nat \<Rightarrow> ovsdb \<Rightarrow> ovsdb run" where
  "qos_init_schedule_profile y sys db =
     (case qos_info y of
        None \<Rightarrow> Inr db
      | Some info \<Rightarrow>
          (case default_name info of
             None \<Rightarrow> Inl Null_Dereference
           | Some dn \<Rightarrow>
               and_then (qos_schedule_profile_create_factory_default y dn (db_qos db)) (\<lambda>st1.
                 (let db1 = db\<lparr>db_qos := st1\<rparr>
                  in case qos_get_schedule_profile_row dn st1 of
                       None \<Rightarrow> Inr db1
                     | Some dp \<Rightarrow>
                         (let db2 = set_system sys (\<lambda>s. s\<lparr>sys_qos := Some dp\<rparr>) db1
                          in case factory_default_name info of
                               None \<Rightarrow> Inl Null_Dereference
                             | Some fdn \<Rightarrow>
                                 and_then (qos_schedule_profile_create_factory_default y fdn st1) (\<lambda>st2.
                                   (let db3 = db2\<lparr>db_qos := st2\<rparr>
                                    in case qos_get_schedule_profile_row fdn st2 of
                                         None \<Rightarrow> Inr db3
                                       | Some fp \<Rightarrow>
                                           Inr (db3\<lparr>db_qos :=
                                             mark_profile (\<lambda>e. e\<lparr>queue_hw_default := Some True\<rparr>) fp st2\<rparr>))))))))"

section \<open>Code point tables\<close>

text \<open>
  What the two code point maps share: rows filled one by one by a function that fails on an
  incomplete entry. The client lemma gives the exact condition under which the loop ends
  without a fault, and the rows it leaves.
\<close>

locale code_point_table =
  fixes fill :: "yaml_map_entry \<Rightarrow> 'r \<Rightarrow> 'r run"
    and init_rows :: "nat \<Rightarrow> (nat \<Rightarrow> yaml_map_entry option) \<Rightarrow> 'r list \<Rightarrow> 'r list run"
    and complete :: "yaml_map_entry \<Rightarrow> bool"
    and filled :: "yaml_map_entry \<Rightarrow> 'r \<Rightarrow> 'r"
  assumes fill_complete: "complete e \<Longrightarrow> fill e r = Inr (filled e r)"
    and fill_incomplete: "\<not> complete e \<Longrightarrow> fill e r = Inl Null_Dereference"
    and init_rows_loop: "init_rows n entry rows =
      for_range 0 n
        (\<lambda>ii rows. case entry ii of
           None \<Rightarrow> Inl Null_Dereference
         | Some e \<Rightarrow> if length rows \<le> ii then Inl Out_Of_Bounds_Read
                     else and_then (fill e (rows ! ii)) (\<lambda>row. Inr (rows[ii := row])))
        rows"
begin

definition entry_ready :: "(nat \<Rightarrow> yaml_map_entry option) \<Rightarrow> nat \<Rightarrow> bool" where
  "entry_ready entry i \<longleftrightarrow> (\<exists>e. entry i = Some e \<and> complete e)"

lemma loop_result:
  "for_range i n
     (\<lambda>ii rows. case entry ii of
        None \<Rightarrow> Inl Null_Dereference
      | Some e \<Rightarrow> if length rows \<le> ii then Inl Out_Of_Bounds_Read
                  else and_then (fill e (rows ! ii)) (\<lambda>row. Inr (rows[ii := row])))
     rows = Inr rows' \<longleftrightarrow>
   (n = 0 \<or> i + n \<le> length rows) \<and> (\<forall>k. i \<le> k \<and> k < i + n \<longrightarrow> entry_ready entry k) \<and>
   length rows' = length rows \<and>
   (\<forall>k < length rows. rows' ! k = (if i \<le> k \<and> k < i + n then filled (the (entry k)) (rows ! k) else rows ! k))"
proof (induction n arbitrary: i rows)
  case 0
  show ?case by (auto intro: nth_equalityI)
next
  case (Suc n)
  show ?case
  proof (cases "entry_ready entry i \<and> i < length rows")
    case True
    then obtain e where e: "entry i = Some e" and c: "complete e" by (auto simp: entry_ready_def)
    have range: "(\<forall>k. i \<le> k \<and> k < i + Suc n \<longrightarrow> entry_ready entry k) \<longleftrightarrow>
        (\<forall>k. Suc i \<le> k \<and> k < Suc i + n \<longrightarrow> entry_ready entry k)"
    proof -
      have "i \<le> k \<longleftrightarrow> k = i \<or> Suc i \<le> k" for k by auto
      then show ?thesis using True by (simp only: add_Suc_right add_Suc) blast
    qed
    have rows: "(if Suc i \<le> k \<and> k < Suc i + n then filled (the (entry k)) (rows[i := filled e (rows ! i)] ! k)
         else rows[i := filled e (rows ! i)] ! k) =
       (if i \<le> k \<and> k < i + Suc n then filled (the (entry k)) (rows ! k) else rows ! k)"
      if "k < length rows" for k
      using that True e by (cases "k = i") auto
    have len: "(Suc n = 0 \<or> i + Suc n \<le> length rows) \<longleftrightarrow> (n = 0 \<or> Suc i + n \<le> length rows)"
      using True by auto
    have all: "(\<forall>k < length rows. rows' ! k = (if Suc i \<le> k \<and> k < Suc i + n
          then filled (the (entry k)) (rows[i := filled e (rows ! i)] ! k)
          else rows[i := filled e (rows ! i)] ! k)) \<longleftrightarrow>
        (\<forall>k < length rows. rows' ! k = (if i \<le> k \<and> k < i + Suc n
          then filled (the (entry k)) (rows ! k) else rows ! k))"
      by (intro all_cong1 imp_cong refl) (simp only: rows)
    from True have "\<not> length rows \<le> i" by simp
    then show ?thesis
      unfolding for_range.simps(2) range len all [symmetric]
      using Suc.IH [of "Suc i" "rows[i := filled e (rows ! i)]"]
      by (simp only: e option.case fill_complete [OF c] and_then_Inr if_False length_list_update)
  next
    case False
    then have "\<not> (i + Suc n \<le> length rows \<and> (\<forall>k. i \<le> k \<and> k < i + Suc n \<longrightarrow> entry_ready entry k))"
      by auto
    moreover have "\<nexists>rows''. (case entry i of
        None \<Rightarrow> Inl Null_Dereference
      | Some e \<Rightarrow> if length rows \<le> i then Inl Out_Of_Bounds_Read
                  else and_then (fill e (rows ! i)) (\<lambda>row. Inr (rows[i := row]))) = Inr rows''"
      using False by (auto simp: entry_ready_def fill_incomplete not_less split: option.splits)
    ultimately show ?thesis
      by (auto simp: and_then_eq_Inr simp del: not_ex)
  qed
qed

lemma init_rows_result:
  "init_rows n entry rows = Inr rows' \<longleftrightarrow>
   n \<le> length rows \<and> (\<forall>k < n. entry_ready entry k) \<and> length rows' = length rows \<and>
   (\<forall>k < length rows. rows' ! k = (if k < n then filled (the (entry k)) (rows ! k) else rows ! k))"
  unfolding init_rows_loop loop_result by auto

end

definition map_entry_complete :: "yaml_map_entry \<Rightarrow> bool" where
  "map_entry_complete e \<longleftrightarrow> ym_color e \<noteq> None \<and> ym_description e \<noteq> None"

definition map_entry_filled :: "yaml_map_entry \<Rightarrow> 'a cos_map_row_scheme \<Rightarrow> 'a cos_map_row_scheme" where
  "map_entry_filled e row = row\<lparr>code_point := sint (ym_code_point e), local_priority := sint (ym_local_priority e),
     color := the (ym_color e), description := the (ym_description e),
     hw_defaults := smap_replace QOS_DEFAULT_DESCRIPTION_KEY (the (ym_description e))
       (smap_replace QOS_DEFAULT_COLOR_KEY (the (ym_color e))
       (smap_replace QOS_DEFAULT_LOCAL_PRIORITY_KEY (show_d (sint (ym_local_priority e)))
       (smap_replace QOS_DEFAULT_CODE_POINT_KEY (show_d (sint (ym_code_point e))) (hw_defaults row))))\<rparr>"

lemma map_buffer_fits: "trunc_copy QOS_CLI_STRING_BUFFER_SIZE (show_d (sint (w :: c_int))) = show_d (sint w)"
  using length_show_d_c_int [of w] by (simp add: trunc_copy_fits QOS_CLI_STRING_BUFFER_SIZE_def)

lemma set_dscp_is_cos: "set_dscp_map_entry = set_cos_map_entry"
  by (simp add: fun_eq_iff set_dscp_map_entry_def set_cos_map_entry_def)

abbreviation fill_cos :: "yaml_map_entry \<Rightarrow> 'a cos_map_row_scheme \<Rightarrow> 'a cos_map_row_scheme run" where
  "fill_cos e row \<equiv> set_cos_map_entry row (sint (ym_code_point e)) (sint (ym_local_priority e))
     (ym_color e) (ym_description e)"

lemma fill_cos_complete: "map_entry_complete e \<Longrightarrow> fill_cos e row = Inr (map_entry_filled e row)"
  by (auto simp: map_entry_complete_def set_cos_map_entry_def map_entry_filled_def map_buffer_fits Let_def)

lemma fill_cos_incomplete: "\<not> map_entry_complete e \<Longrightarrow> fill_cos e row = Inl Null_Dereference"
  by (auto simp: map_entry_complete_def set_cos_map_entry_def split: option.splits)

definition cos_rows :: "nat \<Rightarrow> (nat \<Rightarrow> yaml_map_entry option) \<Rightarrow> cos_map_row list \<Rightarrow> cos_map_row list run" where
  "cos_rows n entry rows = for_range 0 n
     (\<lambda>ii rows. case entry ii of
        None \<Rightarrow> Inl Null_Dereference
      | Some e \<Rightarrow> if length rows \<le> ii then Inl Out_Of_Bounds_Read
                  else and_then (fill_cos e (rows ! ii)) (\<lambda>row. Inr (rows[ii := row]))) rows"

definition dscp_rows :: "nat \<Rightarrow> (nat \<Rightarrow> yaml_map_entry option) \<Rightarrow> dscp_map_row list \<Rightarrow> dscp_map_row list run" where
  "dscp_rows n entry rows = for_range 0 n
     (\<lambda>ii rows. case entry ii of
        None \<Rightarrow> Inl Null_Dereference
      | Some e \<Rightarrow> if length rows \<le> ii then Inl Out_Of_Bounds_Read
                  else and_then (fill_cos e (rows ! ii)) (\<lambda>row. Inr (rows[ii := row]))) rows"

interpretation cos_table: code_point_table fill_cos cos_rows map_entry_complete map_entry_filled
  by unfold_locales (simp_all add: fill_cos_complete fill_cos_incomplete cos_rows_def)

interpretation dscp_table: code_point_table fill_cos dscp_rows map_entry_complete map_entry_filled
  by unfold_locales (simp_all add: fill_cos_complete fill_cos_incomplete dscp_rows_def)

lemma init_default_cos_rows:
  "qos_init_default_cos_map y rows = cos_rows (unat (cos_map_entry_count y)) (cos_map_entry y) rows"
  unfolding qos_init_default_cos_map_def cos_rows_def ..

lemma init_default_dscp_rows:
  "qos_init_default_dscp_map y rows = dscp_rows (unat (dscp_map_entry_count y)) (dscp_map_entry y) rows"
  unfolding qos_init_default_dscp_map_def dscp_rows_def set_dscp_is_cos ..

text \<open>The rows of a map of \<open>room\<close> code points of which the YAML file gives the first \<open>n\<close>.\<close>

definition map_rows :: "nat \<Rightarrow> nat \<Rightarrow> (nat \<Rightarrow> yaml_map_entry option) \<Rightarrow> 'a cos_map_row_scheme \<Rightarrow>
    'a cos_map_row_scheme list" where
  "map_rows room n entry fresh =
     map (\<lambda>k. if k < n then map_entry_filled (the (entry k)) fresh else fresh) [0..<room]"

lemma rows_eq_map_rows:
  "length rows = room \<and> (\<forall>k < room. rows ! k = (if k < n then map_entry_filled (the (entry k)) (replicate room fresh ! k)
      else replicate room fresh ! k)) \<longleftrightarrow> rows = map_rows room n entry fresh"
  by (auto simp: map_rows_def intro: nth_equalityI)

definition entries_complete :: "nat \<Rightarrow> (nat \<Rightarrow> yaml_map_entry option) \<Rightarrow> bool" where
  "entries_complete n entry \<longleftrightarrow> list_all (\<lambda>k. case entry k of None \<Rightarrow> False | Some e \<Rightarrow> map_entry_complete e) [0..<n]"

lemma entries_complete_cos: "(\<forall>k < n. cos_table.entry_ready entry k) \<longleftrightarrow> entries_complete n entry"
  unfolding entries_complete_def cos_table.entry_ready_def list_all_iff by (auto split: option.splits) fastforce

lemma entries_complete_dscp: "(\<forall>k < n. dscp_table.entry_ready entry k) \<longleftrightarrow> entries_complete n entry"
  unfolding entries_complete_def dscp_table.entry_ready_def list_all_iff by (auto split: option.splits) fastforce

lemma cos_rows_result:
  "cos_rows n entry (replicate room cos_map_fresh) = Inr rows \<longleftrightarrow>
   n \<le> room \<and> entries_complete n entry \<and> rows = map_rows room n entry cos_map_fresh"
  by (simp only: cos_table.init_rows_result length_replicate entries_complete_cos rows_eq_map_rows)

lemma dscp_rows_result:
  "dscp_rows n entry (replicate room dscp_map_fresh) = Inr rows \<longleftrightarrow>
   n \<le> room \<and> entries_complete n entry \<and> rows = map_rows room n entry dscp_map_fresh"
  by (simp only: dscp_table.init_rows_result length_replicate entries_complete_dscp rows_eq_map_rows)

section \<open>Properties of the code point maps\<close>

text \<open>
  Initialising the COS map ends without a fault exactly when the YAML file has no entry, and
  then the database is unchanged, or when it has at most 8 entries and each of them is present
  with a colour and a description. Then eight rows are inserted, the first as the entries
  say, the others left fresh, and the system row points to exactly these eight. A ninth entry
  is a read past the array of row pointers.
\<close>

lemma cos_map_initialised:
  "qos_init_cos_map y sys db = Inr db' \<longleftrightarrow>
     (if cos_map_entry y 0 = None then db' = db
      else unat (cos_map_entry_count y) \<le> 8 \<and>
        entries_complete (unat (cos_map_entry_count y)) (cos_map_entry y) \<and>
        db' = set_system sys
          (\<lambda>s. s\<lparr>sys_cos_map_entries := [length (db_cos_map db)..<length (db_cos_map db) + 8]\<rparr>)
          (db\<lparr>db_cos_map := db_cos_map db @
             map_rows 8 (unat (cos_map_entry_count y)) (cos_map_entry y) cos_map_fresh\<rparr>))"
  by (auto simp: qos_init_cos_map_def init_default_cos_rows QOS_COS_MAP_ENTRY_COUNT_def and_then_eq_Inr
      cos_rows_result Let_def split: option.splits)

text \<open>
  Initialising the DSCP map ends without a fault exactly when the YAML file has no entry, or
  at most 64 entries each present with a colour and a description; the 64 rows inserted hold the
  entries, and the system row points to exactly them.
\<close>

lemma dscp_map_initialised:
  "qos_init_dscp_map y sys db = Inr db' \<longleftrightarrow>
     (if dscp_map_entry y 0 = None then db' = db
      else unat (dscp_map_entry_count y) \<le> 64 \<and>
        entries_complete (unat (dscp_map_entry_count y)) (dscp_map_entry y) \<and>
        db' = set_system sys
          (\<lambda>s. s\<lparr>sys_dscp_map_entries := [length (db_dscp_map db)..<length (db_dscp_map db) + 64]\<rparr>)
          (db\<lparr>db_dscp_map := db_dscp_map db @
             map_rows 64 (unat (dscp_map_entry_count y)) (dscp_map_entry y) dscp_map_fresh\<rparr>))"
  by (auto simp: qos_init_dscp_map_def init_default_dscp_rows QOS_DSCP_MAP_ENTRY_COUNT_def and_then_eq_Inr
      dscp_rows_result Let_def split: option.splits)

text \<open>
  C35. The code point maps: initialising the COS map ends without a fault exactly when the YAML file
  has no entry, and then the database is unchanged, or when it has at most 8 entries and each of
  them is present with a colour and a description; then eight rows are inserted, the first as the
  entries say, the others left fresh, and the system row points to exactly these eight. A
  ninth entry is a read past the array of row pointers. The same holds of the DSCP map and its 64
  rows.
\<close>

theorem code_point_maps_initialised:
  "(qos_init_cos_map y sys db = Inr db' \<longleftrightarrow>
     (if cos_map_entry y 0 = None then db' = db
      else unat (cos_map_entry_count y) \<le> 8 \<and>
        entries_complete (unat (cos_map_entry_count y)) (cos_map_entry y) \<and>
        db' = set_system sys
          (\<lambda>s. s\<lparr>sys_cos_map_entries := [length (db_cos_map db)..<length (db_cos_map db) + 8]\<rparr>)
          (db\<lparr>db_cos_map := db_cos_map db @
             map_rows 8 (unat (cos_map_entry_count y)) (cos_map_entry y) cos_map_fresh\<rparr>))) \<and>
   (qos_init_dscp_map y sys db = Inr db' \<longleftrightarrow>
     (if dscp_map_entry y 0 = None then db' = db
      else unat (dscp_map_entry_count y) \<le> 64 \<and>
        entries_complete (unat (dscp_map_entry_count y)) (dscp_map_entry y) \<and>
        db' = set_system sys
          (\<lambda>s. s\<lparr>sys_dscp_map_entries := [length (db_dscp_map db)..<length (db_dscp_map db) + 64]\<rparr>)
          (db\<lparr>db_dscp_map := db_dscp_map db @
             map_rows 64 (unat (dscp_map_entry_count y)) (dscp_map_entry y) dscp_map_fresh\<rparr>)))"
  by (rule conjI [OF cos_map_initialised dscp_map_initialised])

text \<open>What \<open>hw_defaults\<close> of a row says the factory values are.\<close>

definition factory_values :: "'a cos_map_row_scheme \<Rightarrow> int option \<times> int option \<times> string option \<times> string option" where
  "factory_values row =
     (map_option int_value (smap_get (hw_defaults row) QOS_DEFAULT_CODE_POINT_KEY),
      map_option int_value (smap_get (hw_defaults row) QOS_DEFAULT_LOCAL_PRIORITY_KEY),
      smap_get (hw_defaults row) QOS_DEFAULT_COLOR_KEY,
      smap_get (hw_defaults row) QOS_DEFAULT_DESCRIPTION_KEY)"

lemma factory_values_filled:
  "factory_values (map_entry_filled e row) =
     (Some (sint (ym_code_point e)), Some (sint (ym_local_priority e)), Some (the (ym_color e)), Some (the (ym_description e)))"
  by (simp add: factory_values_def map_entry_filled_def smap_get_replace qos_key_defs int_value_show_d)

text \<open>
  The factory defaults saved with a code point row can be restored: for every entry of the
  YAML file, the strings saved in \<open>hw_defaults\<close> of its row read back, number by number, as the
  code point, the local priority, the colour and the description that the row was given.
\<close>

lemma code_point_defaults_restorable:
  assumes "set_cos_map_entry row cp p (Some c) (Some d) = Inr row'"
    and "- (2 ^ 63) \<le> cp" and "cp < 2 ^ 63" and "- (2 ^ 63) \<le> p" and "p < 2 ^ 63"
  shows "factory_values row' = (Some (code_point row'), Some (local_priority row'),
      Some (color row'), Some (description row'))
    \<and> code_point row' = cp \<and> local_priority row' = p \<and> color row' = c \<and> description row' = d"
proof -
  have "length (show_d cp) \<le> 20" and "length (show_d p) \<le> 20"
    using assms(2-5) by (simp_all only: length_show_d_int64)
  then have "trunc_copy QOS_CLI_STRING_BUFFER_SIZE (show_d cp) = show_d cp"
    and "trunc_copy QOS_CLI_STRING_BUFFER_SIZE (show_d p) = show_d p"
    by (simp_all add: trunc_copy_fits QOS_CLI_STRING_BUFFER_SIZE_def)
  with assms(1) show ?thesis
    by (auto simp: set_cos_map_entry_def Let_def factory_values_def smap_get_replace qos_key_defs int_value_show_d)
qed

theorem code_point_defaults_restorable_witness:
  "factory_values (the (case set_cos_map_entry cos_map_fresh 7 (-1) (Some ''green'') (Some ''Network'') of
      Inl _ \<Rightarrow> None | Inr r \<Rightarrow> Some r)) = (Some 7, Some (-1), Some ''green'', Some ''Network'')"
proof -
  obtain r where r: "set_cos_map_entry cos_map_fresh 7 (-1) (Some ''green'') (Some ''Network'') = Inr r"
    by (simp add: set_cos_map_entry_def Let_def)
  from code_point_defaults_restorable [OF r] r show ?thesis by simp
qed

section \<open>Queue profiles as views\<close>

lemma get_queue_profile_row_eq: "qos_get_queue_profile_row nm st = find_profile nm st"
  by (simp add: qos_get_queue_profile_row_def find_profile_def strcmp_eq)

lemma get_schedule_profile_row_eq: "qos_get_schedule_profile_row nm st = find_profile nm st"
  by (simp add: qos_get_schedule_profile_row_def find_profile_def strcmp_eq)

lemma queue_profile_command_eq: "qos_queue_profile_command nm st = ensure_profile nm st"
  by (simp add: qos_queue_profile_command_def ensure_profile_def get_queue_profile_row_eq)

lemma schedule_profile_command_eq: "qos_schedule_profile_command nm st = ensure_profile nm st"
  by (simp add: qos_schedule_profile_command_def ensure_profile_def get_schedule_profile_row_eq)

definition update_entry :: "yaml_queue_entry \<Rightarrow> q_profile_entry \<Rightarrow> q_profile_entry" where
  "update_entry e row =
     (let row' = add_local_priority (sint (yq_local_priority e)) row
      in case yq_description e of None \<Rightarrow> row' | Some d \<Rightarrow> row'\<lparr>q_description := Some d\<rparr>)"

abbreviation apply_entry :: "yaml_queue_entry \<Rightarrow> (int \<rightharpoonup> q_profile_entry) \<Rightarrow> (int \<rightharpoonup> q_profile_entry)" where
  "apply_entry e v \<equiv> point v entry_fresh (update_entry e) (sint (yq_queue e))"

lemma update_entry_cases:
  "yq_description e = None \<Longrightarrow> update_entry e = add_local_priority (sint (yq_local_priority e))"
  "yq_description e = Some d \<Longrightarrow> update_entry e =
     (\<lambda>row. add_local_priority (sint (yq_local_priority e)) row\<lparr>q_description := Some d\<rparr>)"
  by (simp_all add: fun_eq_iff update_entry_def)

lemma upd_nth_twice: "upd_nth i g (upd_nth i f xs) = upd_nth i (\<lambda>x. g (f x)) xs"
  by (cases "i < length xs") (simp_all add: upd_nth_def list_update_beyond)

text \<open>The command on one entry of the file is the update of one queue.\<close>

lemma queue_row_command_eq:
  assumes "find_profile nm st = Some pr"
  shows "qos_queue_profile_row_command nm (sint (yq_queue e)) (sint (yq_local_priority e)) (yq_description e) st
     = (True, update_queue entry_fresh (update_entry e) pr (sint (yq_queue e)) st)"
proof (cases "find_queue pr (sint (yq_queue e)) st")
  case None
  have "find_queue pr (sint (yq_queue e)) (create_queue entry_fresh pr (sint (yq_queue e)) st) = Some (length (entries st))"
    using find_queue_create [OF find_profile_bound [OF assms] None] by simp
  with assms None show ?thesis
    by (cases "yq_description e")
       (auto simp: qos_queue_profile_row_command_def get_queue_profile_row_eq update_queue_def ensure_queue_def
        qos_get_queue_profile_entry_row_def insert_queue_profile_queue_row_def Let_def update_entry_cases upd_nth_twice)
next
  case (Some r)
  with assms show ?thesis
    by (cases "yq_description e")
       (auto simp: qos_queue_profile_row_command_def get_queue_profile_row_eq update_queue_def ensure_queue_def
        qos_get_queue_profile_entry_row_def Let_def update_entry_cases upd_nth_twice)
qed

definition queue_entries :: "yaml_qos \<Rightarrow> yaml_queue_entry list" where
  "queue_entries y = List.map_filter (queue_profile_entry y) [0..<unat (queue_profile_entry_count y)]"

lemma fold_map_filter:
  "fold (\<lambda>i s. case f i of None \<Rightarrow> s | Some e \<Rightarrow> g e s) is s = fold g (List.map_filter f is) s"
  by (induction "is" arbitrary: s) (auto simp: map_filter_simps split: option.splits)

lemma fold_queue_row_command:
  assumes "find_profile nm st = Some pr"
  shows "fold (\<lambda>e st. snd (qos_queue_profile_row_command nm (sint (yq_queue e)) (sint (yq_local_priority e))
             (yq_description e) st)) es st =
    fold (\<lambda>e. update_queue entry_fresh (update_entry e) pr (sint (yq_queue e))) es st"
  using assms
proof (induction es arbitrary: st)
  case (Cons e es)
  then show ?case by (simp add: queue_row_command_eq [OF Cons.prems] update_queue_find_profile)
qed simp

text \<open>Creating a profile from the file, seen by name.\<close>

lemma create_default_queues_named:
  fixes y nm and st :: "q_profile_entry profile_store"
  assumes wf: "store_wf st"
  defines "st' \<equiv> qos_queue_profile_create_factory_default y nm st"
  shows "store_wf st'" and "\<exists>i. find_profile nm st' = Some i"
    and "find_profile j st = Some i \<Longrightarrow> find_profile j st' = Some i"
    and "profile_flag st' j = profile_flag st j"
    and "profile_view st' = (profile_view st)(nm \<mapsto> fold apply_entry (queue_entries y)
          (case profile_view st nm of None \<Rightarrow> Map.empty | Some v \<Rightarrow> v))"
proof -
  note ep = ensure_profile_named [OF wf, where nm = nm]
  obtain pr where pr: "find_profile nm (ensure_profile nm st) = Some pr" using ep(1) ..
  have "st' = fold (\<lambda>e. update_queue entry_fresh (update_entry e) pr (sint (yq_queue e))) (queue_entries y)
      (ensure_profile nm st)"
    by (simp add: st'_def qos_queue_profile_create_factory_default_def queue_profile_command_eq
        fold_map_filter queue_entries_def fold_queue_row_command [OF pr])
  note fu = fold_update_queue_named [OF ep(2) pr this]
  show "store_wf st'" and "\<exists>i. find_profile nm st' = Some i"
    and "find_profile j st = Some i \<Longrightarrow> find_profile j st' = Some i"
    and "profile_flag st' j = profile_flag st j"
    using fu(1-3) ep(1,3,4) by simp_all
  show "profile_view st' = (profile_view st)(nm \<mapsto> fold apply_entry (queue_entries y)
          (case profile_view st nm of None \<Rightarrow> Map.empty | Some v \<Rightarrow> v))"
    unfolding fu(4) ep(5) by simp
qed

text \<open>
  What the file says a queue is: the priorities of its entries in the order of their first
  occurrence, and the last description given.
\<close>

definition last_some :: "'a option list \<Rightarrow> 'a option" where
  "last_some xs = (case rev (List.map_filter id xs) of [] \<Rightarrow> None | x # _ \<Rightarrow> Some x)"

definition firsts :: "'a list \<Rightarrow> 'a list" where
  "firsts xs = rev (remdups (rev xs))"

definition entry_config :: "yaml_queue_entry list \<Rightarrow> q_profile_entry" where
  "entry_config fs = \<lparr>local_priorities = firsts (map (\<lambda>e. sint (yq_local_priority e)) fs),
     q_description = last_some (map yq_description fs), q_hw_default = None\<rparr>"

definition queue_config :: "yaml_queue_entry list \<Rightarrow> int \<Rightarrow> q_profile_entry option" where
  "queue_config es q =
     (let fs = filter (\<lambda>e. sint (yq_queue e) = q) es in if fs = [] then None else Some (entry_config fs))"

lemma last_some_snoc: "last_some (xs @ [x]) = (case x of None \<Rightarrow> last_some xs | Some _ \<Rightarrow> x)"
  by (cases x) (simp_all add: last_some_def map_filter_def)

lemma firsts_snoc: "firsts (xs @ [x]) = (if x \<in> set xs then firsts xs else firsts xs @ [x])"
  by (simp add: firsts_def)

lemma set_firsts [simp]: "set (firsts xs) = set xs"
  by (simp add: firsts_def)

lemma has_local_priority_iff: "has_local_priority row p \<longleftrightarrow> p \<in> set (local_priorities row)"
  by (auto simp: has_local_priority_def list_ex_iff)

lemma entry_config_snoc: "entry_config (fs @ [e]) = update_entry e (entry_config fs)"
  by (auto simp: entry_config_def update_entry_def add_local_priority_def has_local_priority_iff
      last_some_snoc firsts_snoc split: option.split)

lemma entry_config_Nil: "entry_config [] = entry_fresh"
  by (simp add: entry_config_def entry_fresh_def firsts_def last_some_def map_filter_simps)

lemma queue_config_snoc: "queue_config (es @ [e]) = apply_entry e (queue_config es)"
  by (auto simp: fun_eq_iff queue_config_def Let_def entry_config_snoc entry_config_Nil
      entry_config_snoc [of "[]", simplified])

lemma queue_config_fold: "fold apply_entry es Map.empty = queue_config es"
proof (induction es rule: rev_induct)
  case Nil
  show ?case by (simp add: queue_config_def fun_eq_iff)
next
  case (snoc e es)
  then show ?case by (simp only: fold_append o_apply fold_simps queue_config_snoc)
qed

section \<open>Properties of the queue profiles\<close>

text \<open>
  Creating a queue profile that does not exist yet gives it exactly the queues of the YAML
  file: for every queue number the local priorities of its entries, each once and in the
  order of the file, and the last description given; no other number has a queue. The
  profiles that are already there, and the keys and references of the tables, are kept.
\<close>

lemma queue_profile_created:
  assumes "store_wf st" and "profile_view st nm = None"
  shows "store_wf (qos_queue_profile_create_factory_default y nm st)
    \<and> profile_view (qos_queue_profile_create_factory_default y nm st) =
        (profile_view st)(nm \<mapsto> queue_config (queue_entries y))"
  using create_default_queues_named(1,5) [OF assms(1), of y nm] assms(2)
  by (simp add: queue_config_fold)

definition sample_queue :: "c_int \<Rightarrow> c_int \<Rightarrow> yaml_queue_entry" where
  "sample_queue q p = \<lparr>yq_queue = q, yq_local_priority = p, yq_description = Some ''Q''\<rparr>"

definition sample_schedule :: "c_int \<Rightarrow> string \<Rightarrow> yaml_schedule_entry" where
  "sample_schedule q a = \<lparr>ys_queue = q, ys_algorithm = Some a, ys_weight = 5\<rparr>"

text \<open>A file with two priorities on queue 0, two queues scheduled, one of them strictly.\<close>

definition sample_qos :: yaml_qos where
  "sample_qos = \<lparr>qos_info = Some \<lparr>default_name = Some ''default'', factory_default_name = Some ''factory-default'',
       trust = Some ''none''\<rparr>,
     queue_profile_entry_count = 3,
     queue_profile_entry = (\<lambda>i. if i = 0 then Some (sample_queue 0 1) else if i = 1 then Some (sample_queue 0 0)
        else if i = 2 then Some (sample_queue 1 2) else None),
     schedule_profile_entry_count = 2,
     schedule_profile_entry = (\<lambda>i. if i = 0 then Some (sample_schedule 0 ''dwrr'')
        else if i = 1 then Some (sample_schedule 1 ''strict'') else None),
     cos_map_entry_count = 0, cos_map_entry = (\<lambda>_. None),
     dscp_map_entry_count = 0, dscp_map_entry = (\<lambda>_. None)\<rparr>"

lemma upt_3: "[0..<3] = [0, 1, 2 :: nat]" and upt_2: "[0..<2] = [0, 1 :: nat]"
  by (simp_all add: upt_conv_Cons)

lemma sample_queue_entries: "queue_entries sample_qos = [sample_queue 0 1, sample_queue 0 0, sample_queue 1 2]"
  by (simp add: queue_entries_def sample_qos_def map_filter_simps upt_3)

lemma sample_queue_config:
  "queue_config (queue_entries sample_qos) 0 =
     Some \<lparr>local_priorities = [1, 0], q_description = Some ''Q'', q_hw_default = None\<rparr>"
  by (simp add: sample_queue_entries sample_queue_def queue_config_def entry_config_def firsts_def
      last_some_def map_filter_simps)

theorem queue_profile_created_witness:
  "store_wf (qos_queue_profile_create_factory_default sample_qos ''default'' store_empty)
   \<and> (case profile_view (qos_queue_profile_create_factory_default sample_qos ''default'' store_empty) ''default'' of
        None \<Rightarrow> False
      | Some v \<Rightarrow> v 0 = Some \<lparr>local_priorities = [1, 0], q_description = Some ''Q'', q_hw_default = None\<rparr>)"
  using queue_profile_created [of store_empty "''default''" sample_qos] by (simp add: sample_queue_config)

text \<open>
  C22. From a database that has neither profile, the queue profile initialisation creates two
  profiles with the same queues, when the file names both and names them differently. The default
  one is writable: neither it nor a queue of it is flagged \<open>hw_default\<close>. The factory-default one is
  flagged, and so is each of its queues. The system row refers to the default one, and every other
  profile is untouched.
\<close>

theorem queue_profiles_initialised:
  fixes y sys db
  assumes "store_wf (db_q_profile db)" and "qos_info y = Some info" and "sys < length (db_system db)"
    and "default_name info = Some dn" and "factory_default_name info = Some fdn" and "dn \<noteq> fdn"
    and "profile_view (db_q_profile db) dn = None" and "profile_view (db_q_profile db) fdn = None"
  shows "\<exists>db'. qos_init_queue_profile y sys db = Inr db' \<and> store_wf (db_q_profile db')
    \<and> profile_view (db_q_profile db') = (profile_view (db_q_profile db))
        (dn \<mapsto> queue_config (queue_entries y),
         fdn \<mapsto> map_option (\<lambda>e. e\<lparr>q_hw_default := Some True\<rparr>) \<circ> queue_config (queue_entries y))
    \<and> profile_flag (db_q_profile db') = (profile_flag (db_q_profile db))(fdn := Some True)
    \<and> find_profile dn (db_q_profile db') \<noteq> None
    \<and> db_system db' = upd_nth sys
        (\<lambda>s. s\<lparr>sys_q_profile := find_profile dn (db_q_profile db')\<rparr>) (db_system db)"
proof -
  let ?st1 = "qos_queue_profile_create_factory_default y dn (db_q_profile db)"
  let ?st2 = "qos_queue_profile_create_factory_default y fdn ?st1"
  note c1 = create_default_queues_named [OF assms(1), where y = y and nm = dn]
  note c2 = create_default_queues_named [OF c1(1), where y = y and nm = fdn]
  obtain dp where dp: "find_profile dn ?st1 = Some dp" using c1(2) ..
  obtain fp where fp: "find_profile fdn ?st2 = Some fp" using c2(2) ..
  have dp2: "find_profile dn ?st2 = Some dp" by (rule c2(3) [OF dp])
  note m = mark_profile_named [OF c2(1) fp, where f = "\<lambda>e. e\<lparr>q_hw_default := Some True\<rparr>"]
  let ?db = "(set_system sys (\<lambda>s. s\<lparr>sys_q_profile := Some dp\<rparr>) (db\<lparr>db_q_profile := ?st1\<rparr>))
    \<lparr>db_q_profile := mark_profile (\<lambda>e. e\<lparr>q_hw_default := Some True\<rparr>) fp ?st2\<rparr>"
  have run: "qos_init_queue_profile y sys db = Inr ?db"
    using assms(2,4,5) dp fp by (simp add: qos_init_queue_profile_def get_queue_profile_row_eq Let_def)
  have v: "profile_view ?st2 = (profile_view (db_q_profile db))
      (dn \<mapsto> queue_config (queue_entries y), fdn \<mapsto> queue_config (queue_entries y))"
    using assms(6-8) by (simp add: c2(5) c1(5) queue_config_fold)
  have "profile_flag ?st2 = profile_flag (db_q_profile db)" by (simp add: fun_eq_iff c2(4) c1(4))
  then show ?thesis using m dp2 assms(6) by (intro exI [of _ ?db] conjI run) (simp_all add: v)
qed

lemma sample_info: "qos_info sample_qos = Some \<lparr>default_name = Some ''default'',
    factory_default_name = Some ''factory-default'', trust = Some ''none''\<rparr>"
  by (simp add: sample_qos_def)

theorem queue_profiles_initialised_witness:
  "\<exists>db'. qos_init_queue_profile sample_qos 0 (ovsdb_empty\<lparr>db_system := [system_fresh]\<rparr>) = Inr db' \<and>
     profile_flag (db_q_profile db') ''default'' = None \<and> profile_flag (db_q_profile db') ''factory-default'' = Some True"
  using queue_profiles_initialised [of "ovsdb_empty\<lparr>db_system := [system_fresh]\<rparr>" sample_qos, OF _ sample_info,
      of 0 "''default''" "''factory-default''"]
  by (auto simp: ovsdb_empty_def)

text \<open>With a name that is a null pointer the initialisation does not come to its end.\<close>

definition profiles_named :: "yaml_qos \<Rightarrow> bool" where
  "profiles_named y \<longleftrightarrow>
     (case qos_info y of None \<Rightarrow> True | Some info \<Rightarrow> default_name info \<noteq> None \<and> factory_default_name info \<noteq> None)"

lemma queue_profile_runs: "profiles_named y \<Longrightarrow> \<exists>db'. qos_init_queue_profile y sys db = Inr db'"
  by (auto simp: profiles_named_def qos_init_queue_profile_def Let_def split: option.splits)

lemma queue_profile_faults:
  assumes "store_wf (db_q_profile db)"
  shows "(\<exists>db'. qos_init_queue_profile y sys db = Inr db') \<longleftrightarrow> profiles_named y"
proof (cases "qos_info y")
  case (Some info)
  then show ?thesis
  proof (cases "default_name info")
    case (Some dn)
    obtain i where "find_profile dn (qos_queue_profile_create_factory_default y dn (db_q_profile db)) = Some i"
      using create_default_queues_named(2) [OF assms] by blast
    then show ?thesis
      using Some \<open>qos_info y = Some info\<close>
      by (simp add: qos_init_queue_profile_def get_queue_profile_row_eq profiles_named_def Let_def split: option.split)
  qed (simp add: qos_init_queue_profile_def profiles_named_def)
qed (simp add: qos_init_queue_profile_def profiles_named_def)

section \<open>Schedule profiles as views\<close>

definition set_queue :: "yaml_schedule_entry \<Rightarrow> queue_row \<Rightarrow> queue_row" where
  "set_queue e row = row\<lparr>algorithm := ys_algorithm e,
     weight := (if ys_algorithm e = Some OVSREC_QUEUE_ALGORITHM_STRICT then None else Some (sint (ys_weight e)))\<rparr>"

definition schedule_entries :: "yaml_qos \<Rightarrow> yaml_schedule_entry list" where
  "schedule_entries y = List.map_filter (schedule_profile_entry y) [0..<nat (sint (schedule_profile_entry_count y))]"

abbreviation has_algorithm :: "yaml_schedule_entry \<Rightarrow> bool" where
  "has_algorithm e \<equiv> ys_algorithm e \<noteq> None"

lemma schedule_row_command_eq:
  assumes "find_profile nm st = Some pr"
  shows "qos_schedule_profile_row_command nm (sint (ys_queue e)) (ys_algorithm e) (sint (ys_weight e)) st =
    (if has_algorithm e then Inr (True, update_queue queue_fresh (set_queue e) pr (sint (ys_queue e)) st)
     else Inl Null_Dereference)"
proof (cases "ys_algorithm e")
  case None
  with assms show ?thesis
    by (simp add: qos_schedule_profile_row_command_def get_schedule_profile_row_eq Let_def split: prod.split)
next
  case (Some a)
  have set_queue: "set_queue e = (\<lambda>x. x\<lparr>algorithm := Some a,
      weight := (if strcmp a OVSREC_QUEUE_ALGORITHM_STRICT = 0 then None else Some (sint (ys_weight e)))\<rparr>)"
    by (simp add: fun_eq_iff set_queue_def Some strcmp_eq)
  show ?thesis
  proof (cases "find_queue pr (sint (ys_queue e)) st")
    case None
    have "find_queue pr (sint (ys_queue e)) (create_queue queue_fresh pr (sint (ys_queue e)) st) = Some (length (entries st))"
      using find_queue_create [OF find_profile_bound [OF assms] None] by simp
    with assms None Some show ?thesis
      by (simp add: qos_schedule_profile_row_command_def get_schedule_profile_row_eq update_queue_def ensure_queue_def
          qos_get_schedule_profile_entry_row_def insert_schedule_profile_queue_row_def Let_def set_queue upd_nth_twice)
  next
    case (Some r)
    with assms \<open>ys_algorithm e = Some a\<close> show ?thesis
      by (simp add: qos_schedule_profile_row_command_def get_schedule_profile_row_eq update_queue_def ensure_queue_def
          qos_get_schedule_profile_entry_row_def Let_def set_queue upd_nth_twice)
  qed
qed

lemma schedule_loop:
  assumes "find_profile nm st = Some pr"
  shows "for_range i n
     (\<lambda>ii st. case f ii of
        None \<Rightarrow> Inr st
      | Some e \<Rightarrow> and_then (qos_schedule_profile_row_command nm (sint (ys_queue e)) (ys_algorithm e)
                              (sint (ys_weight e)) st) (\<lambda>(_, st'). Inr st')) st =
   (if list_all has_algorithm (List.map_filter f [i..<i + n])
    then Inr (fold (\<lambda>e. update_queue queue_fresh (set_queue e) pr (sint (ys_queue e))) (List.map_filter f [i..<i + n]) st)
    else Inl Null_Dereference)"
  using assms
proof (induction n arbitrary: i st)
  case 0
  show ?case by (simp add: map_filter_simps)
next
  case (Suc n)
  have upt: "[i..<i + Suc n] = i # [Suc i..<Suc i + n]" by (simp add: upt_conv_Cons del: upt_Suc)
  show ?case
  proof (cases "f i")
    case None
    then show ?thesis
      unfolding upt map_filter_simps for_range.simps
      using Suc.IH [OF Suc.prems, of "Suc i"] by (simp del: upt_Suc)
  next
    case (Some e)
    have "find_profile nm (update_queue queue_fresh (set_queue e) pr (sint (ys_queue e)) st) = Some pr"
      using Suc.prems by (simp add: update_queue_find_profile)
    from Suc.IH [OF this, of "Suc i"] show ?thesis
      unfolding upt map_filter_simps for_range.simps
      by (simp add: Some schedule_row_command_eq [OF Suc.prems] del: upt_Suc)
  qed
qed

text \<open>What the file says a scheduled queue is: its last entry; a strict queue has no weight.\<close>

definition schedule_config :: "yaml_schedule_entry list \<Rightarrow> int \<Rightarrow> queue_row option" where
  "schedule_config es q =
     (case rev (filter (\<lambda>e. sint (ys_queue e) = q) es) of [] \<Rightarrow> None | e # _ \<Rightarrow> Some (set_queue e queue_fresh))"

lemma set_queue_twice: "set_queue e (set_queue e' row) = set_queue e row"
  by (simp add: set_queue_def)

lemma schedule_config_fold:
  "fold (\<lambda>e v. point v queue_fresh (set_queue e) (sint (ys_queue e))) es Map.empty = schedule_config es"
proof (induction es rule: rev_induct)
  case Nil
  show ?case by (simp add: schedule_config_def fun_eq_iff)
next
  case (snoc e es)
  have "schedule_config (es @ [e]) = point (schedule_config es) queue_fresh (set_queue e) (sint (ys_queue e))"
    by (auto simp: fun_eq_iff schedule_config_def set_queue_twice split: list.split)
  then show ?case by (simp only: fold_append o_apply fold_simps snoc.IH)
qed

lemma create_default_schedule_named:
  fixes y nm and st :: "queue_row profile_store"
  assumes wf: "store_wf st" and ok: "list_all has_algorithm (schedule_entries y)"
  obtains st' where "qos_schedule_profile_create_factory_default y nm st = Inr st'"
    and "store_wf st'" and "\<exists>i. find_profile nm st' = Some i"
    and "\<And>i j. find_profile j st = Some i \<Longrightarrow> find_profile j st' = Some i"
    and "\<And>j. profile_flag st' j = profile_flag st j"
    and "profile_view st' = (profile_view st)(nm \<mapsto> schedule_config (schedule_entries y))"
proof -
  note ep = ensure_profile_named [OF wf, where nm = nm]
  obtain pr where pr: "find_profile nm (ensure_profile nm st) = Some pr" using ep(1) ..
  note cl = clear_queues_named [OF ep(2) pr]
  define st' where "st' = fold (\<lambda>e. update_queue queue_fresh (set_queue e) pr (sint (ys_queue e)))
      (schedule_entries y) (clear_queues pr (ensure_profile nm st))"
  have pr2: "find_profile nm (clear_queues pr (ensure_profile nm st)) = Some pr" by (simp add: cl(2) pr)
  note fu = fold_update_queue_named [OF cl(1) pr2 st'_def]
  show ?thesis
  proof (rule that [of st'])
    show "qos_schedule_profile_create_factory_default y nm st = Inr st'"
      using ok
      by (simp add: qos_schedule_profile_create_factory_default_def schedule_profile_command_eq
          get_schedule_profile_row_eq pr schedule_loop [OF pr2] Let_def st'_def schedule_entries_def)
    show "profile_view st' = (profile_view st)(nm \<mapsto> schedule_config (schedule_entries y))"
      by (simp add: fu(4) cl(4) ep(5) schedule_config_fold)
  qed (use fu(1-3) cl(1-3) ep(1-4) in auto)
qed

lemma create_default_schedule_fault:
  assumes "store_wf st" and "\<not> list_all has_algorithm (schedule_entries y)"
  shows "qos_schedule_profile_create_factory_default y nm st = Inl Null_Dereference"
proof -
  note ep = ensure_profile_named [OF assms(1), where nm = nm]
  obtain pr where pr: "find_profile nm (ensure_profile nm st) = Some pr" using ep(1) ..
  have pr2: "find_profile nm (clear_queues pr (ensure_profile nm st)) = Some pr"
    by (simp add: clear_queues_named(2) [OF ep(2) pr] pr)
  from assms(2) show ?thesis
    by (simp add: qos_schedule_profile_create_factory_default_def schedule_profile_command_eq
        get_schedule_profile_row_eq pr schedule_loop [OF pr2] Let_def schedule_entries_def)
qed

text \<open>What both profile initialisations keep: the row of a name stays its row.\<close>

lemma profiles_kept_length:
  assumes "store_wf st" and keep: "\<And>i j. find_profile j st = Some i \<Longrightarrow> find_profile j st' = Some i"
  shows "length (profiles st) \<le> length (profiles st')"
proof (cases "length (profiles st)")
  case (Suc n)
  then have "find_profile (profile_name (profiles st ! n)) st = Some n"
    by (intro find_profile_unique [OF assms(1)]) simp_all
  from find_profile_bound [OF keep [OF this]] Suc show ?thesis by simp
qed simp

section \<open>Properties of the schedule profiles\<close>

text \<open>
  C29. Creating a schedule profile from a file whose entries all name an algorithm leaves exactly
  the queues of the file in it, whatever queues the profile had before: each has the algorithm
  of its last entry, and its weight unless the algorithm is strict. Other profiles are kept. An
  entry without an algorithm is passed on as a null pointer.
\<close>

theorem schedule_profile_replaced:
  assumes "store_wf st"
  shows "if list_all has_algorithm (schedule_entries y)
    then \<exists>st'. qos_schedule_profile_create_factory_default y nm st = Inr st' \<and> store_wf st' \<and>
      profile_view st' = (profile_view st)(nm \<mapsto> schedule_config (schedule_entries y))
    else qos_schedule_profile_create_factory_default y nm st = Inl Null_Dereference"
proof (cases "list_all has_algorithm (schedule_entries y)")
  case True
  from create_default_schedule_named [OF assms this, of nm] True show ?thesis by (metis (no_types))
qed (simp add: create_default_schedule_fault [OF assms])

lemma sample_schedule_entries:
  "schedule_entries sample_qos = [sample_schedule 0 ''dwrr'', sample_schedule 1 ''strict'']"
  by (simp add: schedule_entries_def sample_qos_def map_filter_simps upt_2)

lemma sample_schedule_config:
  "schedule_config (schedule_entries sample_qos) 1 =
     Some \<lparr>algorithm = Some ''strict'', weight = None, queue_hw_default = None\<rparr>"
  by (simp add: sample_schedule_entries sample_schedule_def schedule_config_def set_queue_def queue_fresh_def
      OVSREC_QUEUE_ALGORITHM_STRICT_def)

theorem schedule_profile_replaced_witness:
  "\<exists>st'. qos_schedule_profile_create_factory_default sample_qos ''default'' store_empty = Inr st' \<and>
     (case profile_view st' ''default'' of None \<Rightarrow> False
      | Some v \<Rightarrow> v 1 = Some \<lparr>algorithm = Some ''strict'', weight = None, queue_hw_default = None\<rparr>)"
proof -
  have "list_all has_algorithm (schedule_entries sample_qos)"
    by (simp add: sample_schedule_entries sample_schedule_def)
  then show ?thesis
    using schedule_profile_replaced [of store_empty sample_qos "''default''"] sample_schedule_config by auto
qed

text \<open>
  C23. When the QoS file gives profile names, both names are there and differ, and every schedule
  entry names an algorithm, the schedule profile initialisation creates, or resets, a default and a
  factory-default profile: each then has exactly the queues of the file, those of the
  factory-default one flagged \<open>hw_default\<close> and those of the default one not. Of the flags of the
  profiles themselves only that of the factory-default one is set; every other profile, the default
  one too, keeps the flag it had. The system row refers to the default profile, and nothing else in
  it changes.
\<close>

theorem schedule_profiles_initialised:
  fixes y sys db
  assumes "store_wf (db_qos db)" and "qos_info y = Some info" and "sys < length (db_system db)"
    and "default_name info = Some dn" and "factory_default_name info = Some fdn" and "dn \<noteq> fdn"
    and "list_all has_algorithm (schedule_entries y)"
  shows "\<exists>db'. qos_init_schedule_profile y sys db = Inr db' \<and> store_wf (db_qos db')
    \<and> profile_view (db_qos db') = (profile_view (db_qos db))
        (dn \<mapsto> schedule_config (schedule_entries y),
         fdn \<mapsto> map_option (\<lambda>e. e\<lparr>queue_hw_default := Some True\<rparr>) \<circ> schedule_config (schedule_entries y))
    \<and> profile_flag (db_qos db') = (profile_flag (db_qos db))(fdn := Some True)
    \<and> find_profile dn (db_qos db') \<noteq> None
    \<and> db_system db' = upd_nth sys
        (\<lambda>s. s\<lparr>sys_qos := find_profile dn (db_qos db')\<rparr>) (db_system db)"
proof -
  obtain st1 where c1: "qos_schedule_profile_create_factory_default y dn (db_qos db) = Inr st1" "store_wf st1"
    "\<exists>i. find_profile dn st1 = Some i" "\<And>j. profile_flag st1 j = profile_flag (db_qos db) j"
    "profile_view st1 = (profile_view (db_qos db))(dn \<mapsto> schedule_config (schedule_entries y))"
    by (rule create_default_schedule_named [OF assms(1,7), of dn]) blast
  obtain st2 where c2: "qos_schedule_profile_create_factory_default y fdn st1 = Inr st2" "store_wf st2"
    "\<exists>i. find_profile fdn st2 = Some i" "\<And>i j. find_profile j st1 = Some i \<Longrightarrow> find_profile j st2 = Some i"
    "\<And>j. profile_flag st2 j = profile_flag st1 j"
    "profile_view st2 = (profile_view st1)(fdn \<mapsto> schedule_config (schedule_entries y))"
    by (rule create_default_schedule_named [OF c1(2) assms(7), of fdn]) blast
  obtain dp where dp: "find_profile dn st1 = Some dp" using c1(3) ..
  obtain fp where fp: "find_profile fdn st2 = Some fp" using c2(3) ..
  have dp2: "find_profile dn st2 = Some dp" by (rule c2(4) [OF dp])
  note m = mark_profile_named [OF c2(2) fp, where f = "\<lambda>e. e\<lparr>queue_hw_default := Some True\<rparr>"]
  let ?st3 = "mark_profile (\<lambda>e. e\<lparr>queue_hw_default := Some True\<rparr>) fp st2"
  let ?db = "(set_system sys (\<lambda>s. s\<lparr>sys_qos := Some dp\<rparr>) (db\<lparr>db_qos := st1\<rparr>))\<lparr>db_qos := ?st3\<rparr>"
  have run: "qos_init_schedule_profile y sys db = Inr ?db"
    using assms(2,4,5) c1(1) c2(1) dp fp
    by (simp add: qos_init_schedule_profile_def get_schedule_profile_row_eq Let_def)
  have "profile_flag st2 = profile_flag (db_qos db)" by (simp add: fun_eq_iff c2(5) c1(4))
  then show ?thesis
    using m dp2 assms(6) by (intro exI [of _ ?db] conjI run) (simp_all add: c2(6) c1(5))
qed

theorem schedule_profiles_initialised_witness:
  "\<exists>db'. qos_init_schedule_profile sample_qos 0 (ovsdb_empty\<lparr>db_system := [system_fresh]\<rparr>) = Inr db' \<and>
     profile_flag (db_qos db') ''default'' = None \<and> profile_flag (db_qos db') ''factory-default'' = Some True"
proof -
  have "list_all has_algorithm (schedule_entries sample_qos)"
    by (simp add: sample_schedule_entries sample_schedule_def)
  then show ?thesis
    using schedule_profiles_initialised [of "ovsdb_empty\<lparr>db_system := [system_fresh]\<rparr>" sample_qos, OF _ sample_info,
      of 0 "''default''" "''factory-default''"]
    by (auto simp: ovsdb_empty_def)
qed


end
