(* ===== verification/Acl.thy ===== *)
theory Acl
  imports Ovsdb
begin

text \<open>
  The access list limits, \<open>src/acl_init.c\<close>: three numbers of the YAML file, printed into buffers
  of 16 characters and stored in the other_info column of the system row.
\<close>

record yaml_acl_info =
  max_acls :: c_int
  max_aces :: c_int
  max_aces_per_acl :: c_int

definition ACL_LIMIT_BUFFER_SIZE :: nat where "ACL_LIMIT_BUFFER_SIZE = 16"
definition ACL_LIMIT_KEY_MAX_ACLS :: string where "ACL_LIMIT_KEY_MAX_ACLS = ''max_acls''"
definition ACL_LIMIT_KEY_MAX_ACES :: string where "ACL_LIMIT_KEY_MAX_ACES = ''max_aces''"
definition ACL_LIMIT_KEY_MAX_ACES_PER_ACL :: string where "ACL_LIMIT_KEY_MAX_ACES_PER_ACL = ''max_aces_per_acl''"

lemmas acl_key_defs = ACL_LIMIT_KEY_MAX_ACLS_def ACL_LIMIT_KEY_MAX_ACES_def ACL_LIMIT_KEY_MAX_ACES_PER_ACL_def

definition acl_init_limits :: "yaml_acl_info option \<Rightarrow> nat \<Rightarrow> ovsdb \<Rightarrow> ovsdb run" where
  "acl_init_limits acl_info sys db =
     (case acl_info of
        None \<Rightarrow> Inl Null_Dereference
      | Some a \<Rightarrow>
          (let max_acls_str = trunc_copy ACL_LIMIT_BUFFER_SIZE (show_d (sint (max_acls a)));
               max_aces_str = trunc_copy ACL_LIMIT_BUFFER_SIZE (show_d (sint (max_aces a)));
               max_aces_per_acl_str = trunc_copy ACL_LIMIT_BUFFER_SIZE (show_d (sint (max_aces_per_acl a)))
           in Inr (set_system sys (\<lambda>s. s\<lparr>sys_other_info :=
                smap_replace ACL_LIMIT_KEY_MAX_ACES_PER_ACL max_aces_per_acl_str
                (smap_replace ACL_LIMIT_KEY_MAX_ACES max_aces_str
                (smap_replace ACL_LIMIT_KEY_MAX_ACLS max_acls_str (sys_other_info s)))\<rparr>) db)))"

lemma acl_buffer_fits: "trunc_copy ACL_LIMIT_BUFFER_SIZE (show_d (sint (w :: c_int))) = show_d (sint w)"
  using length_show_d_c_int [of w] by (simp add: trunc_copy_fits ACL_LIMIT_BUFFER_SIZE_def)

text \<open>The limits that the system row states, and its other entries.\<close>

definition acl_limits :: "system_row \<Rightarrow> int option \<times> int option \<times> int option" where
  "acl_limits s =
     (map_option int_value (smap_get (sys_other_info s) ACL_LIMIT_KEY_MAX_ACLS),
      map_option int_value (smap_get (sys_other_info s) ACL_LIMIT_KEY_MAX_ACES),
      map_option int_value (smap_get (sys_other_info s) ACL_LIMIT_KEY_MAX_ACES_PER_ACL))"

text \<open>
  The limits that the system row states are the numbers of the YAML file, for every value of a
  C integer: the buffers never cut a number off. Other keys of the column, other rows and other
  tables are not touched. Without access list data in the file the code dereferences a null
  pointer; the test that the quality-of-service code makes is missing.
\<close>

lemma acl_limits_stored:
  "acl_init_limits None sys db = Inl Null_Dereference \<and>
   (\<exists>m. acl_init_limits (Some a) sys db =
          Inr (set_system sys (\<lambda>s. s\<lparr>sys_other_info := m (sys_other_info s)\<rparr>) db) \<and>
     (\<forall>s. acl_limits (s\<lparr>sys_other_info := m (sys_other_info s)\<rparr>) =
        (Some (sint (max_acls a)), Some (sint (max_aces a)), Some (sint (max_aces_per_acl a)))) \<and>
     (\<forall>old. map_of (m old) |` (- {ACL_LIMIT_KEY_MAX_ACLS, ACL_LIMIT_KEY_MAX_ACES, ACL_LIMIT_KEY_MAX_ACES_PER_ACL}) =
        map_of old |` (- {ACL_LIMIT_KEY_MAX_ACLS, ACL_LIMIT_KEY_MAX_ACES, ACL_LIMIT_KEY_MAX_ACES_PER_ACL})))"
proof (intro conjI)
  show "acl_init_limits None sys db = Inl Null_Dereference" by (simp add: acl_init_limits_def)
next
  let ?m = "\<lambda>old. smap_replace ACL_LIMIT_KEY_MAX_ACES_PER_ACL (show_d (sint (max_aces_per_acl a)))
    (smap_replace ACL_LIMIT_KEY_MAX_ACES (show_d (sint (max_aces a)))
    (smap_replace ACL_LIMIT_KEY_MAX_ACLS (show_d (sint (max_acls a))) old))"
  show "\<exists>m. acl_init_limits (Some a) sys db =
          Inr (set_system sys (\<lambda>s. s\<lparr>sys_other_info := m (sys_other_info s)\<rparr>) db) \<and>
     (\<forall>s. acl_limits (s\<lparr>sys_other_info := m (sys_other_info s)\<rparr>) =
        (Some (sint (max_acls a)), Some (sint (max_aces a)), Some (sint (max_aces_per_acl a)))) \<and>
     (\<forall>old. map_of (m old) |` (- {ACL_LIMIT_KEY_MAX_ACLS, ACL_LIMIT_KEY_MAX_ACES, ACL_LIMIT_KEY_MAX_ACES_PER_ACL}) =
        map_of old |` (- {ACL_LIMIT_KEY_MAX_ACLS, ACL_LIMIT_KEY_MAX_ACES, ACL_LIMIT_KEY_MAX_ACES_PER_ACL}))"
    by (intro exI [of _ ?m])
       (simp add: acl_init_limits_def Let_def acl_buffer_fits acl_limits_def smap_get_replace acl_key_defs
         int_value_show_d)
qed

end
