(* ===== verification/Sw_Info.thy ===== *)
theory Sw_Info
  imports Ovsdb
begin

text \<open>
  Software information and time zone, \<open>src/sysd_ovsdb_if.c\<close>: the os-release file is read line by
  line into a name, a version and a build number, the last two through buffers of 80 characters;
  the time zone of the system row becomes the target of the link /etc/localtime. A file is the
  list of its lines, \<open>None\<close> when it cannot be opened.
\<close>

section \<open>The os-release file\<close>

definition NSTR :: nat where "NSTR = 80"
definition OS_RELEASE_NAME :: string where "OS_RELEASE_NAME = ''NAME''"
definition OS_RELEASE_BUILD_NAME :: string where "OS_RELEASE_BUILD_NAME = ''BUILD_ID''"
definition OS_RELEASE_VERSION_NAME :: string where "OS_RELEASE_VERSION_NAME = ''VERSION_ID''"
definition SYSTEM_SOFTWARE_INFO_OS_NAME :: string where "SYSTEM_SOFTWARE_INFO_OS_NAME = ''os_name''"

lemmas release_name_defs = OS_RELEASE_NAME_def OS_RELEASE_BUILD_NAME_def OS_RELEASE_VERSION_NAME_def

record sw_scan =
  sw_smap :: smap
  version_id :: string
  build_id :: string

definition rtrim :: "string \<Rightarrow> string" where
  "rtrim s = rev (dropWhile isspace (rev s))"

text \<open>A line is split at its first equals sign; white space at its end is cut off.\<close>

definition split_line :: "string \<Rightarrow> (string \<times> string) option" where
  "split_line line =
     (case dropWhile (\<lambda>c. c \<noteq> CHR ''='') line of
        [] \<Rightarrow> None
      | _ # value \<Rightarrow> Some (takeWhile (\<lambda>c. c \<noteq> CHR ''='') line, rtrim value))"

definition scan_line :: "string \<Rightarrow> sw_scan \<Rightarrow> sw_scan" where
  "scan_line line s =
     (case split_line line of
        None \<Rightarrow> s
      | Some (nm, v) \<Rightarrow>
          if strcmp nm OS_RELEASE_NAME = 0 \<and> v \<noteq> [] then
            s\<lparr>sw_smap := smap_add SYSTEM_SOFTWARE_INFO_OS_NAME v (sw_smap s)\<rparr>
          else if strcmp nm OS_RELEASE_VERSION_NAME = 0 then s\<lparr>version_id := take (NSTR - 1) v\<rparr>
          else if strcmp nm OS_RELEASE_BUILD_NAME = 0 then s\<lparr>build_id := take (NSTR - 1) v\<rparr>
          else s)"

definition sysd_update_sw_info :: "string list option \<Rightarrow> nat \<Rightarrow> ovsdb \<Rightarrow> ovsdb" where
  "sysd_update_sw_info os_release cfg db =
     (case os_release of
        None \<Rightarrow> db
      | Some lines \<Rightarrow>
          (let s = fold scan_line lines \<lparr>sw_smap = [], version_id = [], build_id = []\<rparr>;
               db1 = (if sw_smap s \<noteq> [] then set_system cfg (\<lambda>r. r\<lparr>software_info := sw_smap s\<rparr>) db else db)
           in if build_id s \<noteq> [] \<and> version_id s \<noteq> []
              then set_system cfg (\<lambda>r. r\<lparr>switch_version :=
                     trunc_copy NSTR (version_id s @ '' (Build: '' @ build_id s @ '')'')\<rparr>) db1
              else db1))"

section \<open>The time zone link\<close>

text \<open>
  The state is the target of the link /etc/localtime, \<open>None\<close> when there is none. The buffer for the
  path has 200 characters. The unlinking and the linking are two steps and each may fail: a link
  that could not be removed stays, and then the new one cannot be made either, because its name is
  taken.
\<close>

definition ZONEINFO_BASE :: string where "ZONEINFO_BASE = ''/usr/share/zoneinfo/posix/''"
definition TIMEZONE_CMD_SIZE :: nat where "TIMEZONE_CMD_SIZE = 200"

definition sysd_handle_timezone_update ::
    "ovsdb \<Rightarrow> bool \<Rightarrow> bool \<Rightarrow> string option \<Rightarrow> string option run" where
  "sysd_handle_timezone_update db unlink_ok symlink_ok localtime =
     (case db_system db of
        [] \<Rightarrow> Inr localtime
      | cfg # _ \<Rightarrow>
          (let timezone_cmd = ZONEINFO_BASE @ timezone cfg
           in if TIMEZONE_CMD_SIZE \<le> length timezone_cmd then Inl Out_Of_Bounds_Write
              else (let unlinked = (if unlink_ok then None else localtime)
                    in if unlinked = None \<and> symlink_ok then Inr (Some timezone_cmd) else Inr unlinked)))"

section \<open>What the file says\<close>

definition assignments :: "string list \<Rightarrow> (string \<times> string) list" where
  "assignments lines = List.map_filter split_line lines"

definition last_value :: "string \<Rightarrow> (string \<times> string) list \<Rightarrow> string" where
  "last_value nm as = fold (\<lambda>(n, v) old. if n = nm then v else old) as []"

definition os_names :: "(string \<times> string) list \<Rightarrow> string list" where
  "os_names as = map snd (filter (\<lambda>(n, v). n = OS_RELEASE_NAME \<and> v \<noteq> []) as)"

definition version_string :: "(string \<times> string) list \<Rightarrow> string" where
  "version_string as = last_value OS_RELEASE_VERSION_NAME as @ '' (Build: '' @
     last_value OS_RELEASE_BUILD_NAME as @ '')''"

lemma last_value_snoc: "last_value nm (as @ [(n, v)]) = (if n = nm then v else last_value nm as)"
  by (simp add: last_value_def)

lemma assignments_snoc:
  "assignments (ls @ [l]) = assignments ls @ (case split_line l of None \<Rightarrow> [] | Some a \<Rightarrow> [a])"
  by (auto simp: assignments_def map_filter_def split: option.split)

lemma scan_result:
  "fold scan_line lines \<lparr>sw_smap = [], version_id = [], build_id = []\<rparr> =
     \<lparr>sw_smap = map (Pair SYSTEM_SOFTWARE_INFO_OS_NAME) (os_names (assignments lines)),
      version_id = take 79 (last_value OS_RELEASE_VERSION_NAME (assignments lines)),
      build_id = take 79 (last_value OS_RELEASE_BUILD_NAME (assignments lines))\<rparr>"
proof (induction lines rule: rev_induct)
  case Nil
  show ?case by (simp add: assignments_def last_value_def os_names_def map_filter_simps)
next
  case (snoc l ls)
  show ?case
  proof (cases "split_line l")
    case None
    with snoc show ?thesis by (simp add: scan_line_def assignments_snoc)
  next
    case (Some a)
    obtain n v where a: "a = (n, v)" by (cases a)
    have "n = OS_RELEASE_NAME \<or> n = OS_RELEASE_VERSION_NAME \<or> n = OS_RELEASE_BUILD_NAME \<or>
      n \<notin> {OS_RELEASE_NAME, OS_RELEASE_VERSION_NAME, OS_RELEASE_BUILD_NAME}" by blast
    with snoc Some a show ?thesis
      by (elim disjE; cases "v = []")
         (simp_all add: scan_line_def assignments_snoc last_value_snoc strcmp_eq os_names_def smap_add_def
           NSTR_def release_name_defs)
  qed
qed

text \<open>Cutting the two parts to the size of their buffers first does not change the cut string.\<close>

lemma take_parts: "take n (take n v @ x @ take n b @ y) = take n (v @ x @ b @ y)"
proof (cases "n \<le> length v")
  case False
  then have v: "take n v = v" by simp
  have "take m (x @ take n b @ y) = take m (x @ b @ y)" if "m \<le> n" for m
    using that by (auto simp: min_def)
  from this [of "n - length v"] show ?thesis by (simp add: v)
qed simp

section \<open>Properties\<close>

text \<open>
  C36. Reading os-release replaces the software information by the non-empty names of the file,
  keeps the old one when there is none, and sets the switch version exactly when the last
  version number and the last build number of the file are not empty: to the first 79 characters
  of ``version (Build: number)''. The 80 character buffers in between lose nothing more. No other
  column, row or table changes.
\<close>

theorem software_info_from_os_release:
  "sysd_update_sw_info (Some lines) cfg db =
     (let as = assignments lines;
          set_names = (if os_names as = [] then id
            else set_system cfg (\<lambda>r. r\<lparr>software_info := map (Pair SYSTEM_SOFTWARE_INFO_OS_NAME) (os_names as)\<rparr>));
          set_version = (if last_value OS_RELEASE_VERSION_NAME as = [] \<or> last_value OS_RELEASE_BUILD_NAME as = []
            then id else set_system cfg (\<lambda>r. r\<lparr>switch_version := take 79 (version_string as)\<rparr>))
      in set_version (set_names db))"
proof -
  have "take 79 (take 79 v @ '' (Build: '' @ take 79 b @ '')'') = take 79 (v @ '' (Build: '' @ b @ '')'')" for v b :: string
    by (rule take_parts)
  then show ?thesis
    by (simp add: sysd_update_sw_info_def scan_result Let_def version_string_def trunc_copy_def NSTR_def)
qed

end
