(* ===== verification/Configure.thy ===== *)
theory Configure
  imports Subsystem Manifest Qos Acl Sw_Info
begin

text \<open>
  The first configuration of the database, \<open>src/sysd_ovsdb_if.c\<close>: the rows of the interfaces with
  their speeds and split ports, of the subsystem, the default bridge and VRF, the daemons, and of
  the system itself. The names of keys and values that the database headers define are fields of
  \<open>idl_names\<close>; the conversion of a MAC address to text is the function \<open>mac_text\<close>.
\<close>

record idl_names =
  key_pluggable :: string
  pluggable_true :: string
  pluggable_false :: string
  key_connector :: string
  key_max_speed :: string
  key_speeds :: string
  key_switch_unit :: string
  key_switch_intf_id :: string
  key_mac_addr :: string
  type_system :: string
  type_internal :: string
  admin_state_down :: string
  key_bridge :: string
  bridge_true :: string
  key_admin :: string
  admin_up :: string
  default_bridge_name :: string
  default_vrf_name :: string
  vrf_status_key :: string
  vrf_status_value :: string
  key_mgmt_name :: string

section \<open>Interfaces\<close>

text \<open>
  The text of each speed goes through a buffer of 10 characters and is appended with the size of
  the whole destination as the limit, not with what is left of it.
\<close>

fun speeds_loop :: "nat \<Rightarrow> nat \<Rightarrow> c_int list \<Rightarrow> string \<Rightarrow> string run" where
  "speeds_loop len i [] speed_str = Inr speed_str"
| "speeds_loop len i (s # ss) speed_str =
     (let buf = (if i = 0 then trunc_copy 10 (show_d (sint s))
                 else trunc_copy 10 (CHR '','' # show_d (sint s)));
          str = strncat speed_str buf len
      in if len \<le> length str then Inl Out_Of_Bounds_Write else speeds_loop len (Suc i) ss str)"

definition sysd_get_speeds_string :: "nat \<Rightarrow> c_int list \<Rightarrow> string run" where
  "sysd_get_speeds_string len ss = speeds_loop len 0 ss []"

text \<open>
  The row of one interface. Unknown capabilities are only logged. A null pointer is dereferenced by
  the copy of the name into the row, of the connector into the map, by the loop over the speeds
  or, once the speeds are written, by the loop over the capabilities.
\<close>

definition interface_hw_info :: "idl_names \<Rightarrow> (64 word \<Rightarrow> string) \<Rightarrow> 64 word \<Rightarrow> yaml_port \<Rightarrow> string \<Rightarrow> smap" where
  "interface_hw_info names mac_text mac p speeds_str =
     (let m1 = smap_add (key_pluggable names)
                 (if pluggable p then pluggable_true names else pluggable_false names) [];
          m2 = smap_add (key_connector names) (connector p) m1;
          m3 = smap_add (key_max_speed names) (show_d (sint (max_speed p))) m2;
          m4 = smap_add (key_speeds names) speeds_str m3;
          m5 = smap_add (key_switch_unit names) (show_d (sint (device p))) m4;
          m6 = smap_add (key_switch_intf_id names) (show_d (sint (device_port p))) m5;
          m7 = fold (\<lambda>c. smap_add c ''true'') (capabilities p) m6
      in if mac \<noteq> 0 then smap_add (key_mac_addr names) (mac_text mac) m7 else m7)"

definition sysd_initial_interface_add :: "idl_names \<Rightarrow> (64 word \<Rightarrow> string) \<Rightarrow> subsystem \<Rightarrow> yaml_port \<Rightarrow>
    ovsdb \<Rightarrow> (nat \<times> ovsdb) run" where
  "sysd_initial_interface_add names mac_text s p db =
     (if port_name_ptr p = None \<or> connector_ptr p = None \<or> speeds_ptr p = None then Inl Null_Dereference
      else and_then (sysd_get_speeds_string 128 (speeds p)) (\<lambda>speeds_str.
        if capabilities_ptr p = None then Inl Null_Dereference
        else
          (let row = interface_fresh\<lparr>if_name := port_name p, if_type := type_system names,
                 if_admin_state := Some (admin_state_down names),
                 if_hw_intf_info := interface_hw_info names mac_text (system_mac_addr s) p speeds_str\<rparr>
           in Inr (length (db_interface db), db\<lparr>db_interface := db_interface db @ [row]\<rparr>))))"

fun add_interfaces :: "idl_names \<Rightarrow> (64 word \<Rightarrow> string) \<Rightarrow> subsystem \<Rightarrow> yaml_port list \<Rightarrow>
    ovsdb \<Rightarrow> (nat list \<times> ovsdb) run" where
  "add_interfaces names mac_text s [] db = Inr ([], db)"
| "add_interfaces names mac_text s (p # ps) db =
     and_then (sysd_initial_interface_add names mac_text s p db) (\<lambda>(r, db1).
     and_then (add_interfaces names mac_text s ps db1) (\<lambda>(rs, db2). Inr (r # rs, db2)))"

section \<open>Split ports\<close>

definition SYSD_MAX_SPLIT_PORTS :: nat where "SYSD_MAX_SPLIT_PORTS = 4"

text \<open>The hash table from the name of a parent port or subport to its row.\<close>

definition splittable :: "yaml_port \<Rightarrow> bool" where
  "splittable p \<longleftrightarrow> subports p \<noteq> [] \<or> parent_port p \<noteq> None"

definition split_table :: "nat list \<Rightarrow> yaml_port list \<Rightarrow> ovsdb \<Rightarrow> (string \<times> nat) list" where
  "split_table rows ps db =
     map (\<lambda>(r, p). (if_name (db_interface db ! r), r)) (filter (\<lambda>(r, p). splittable p) (zip rows ps))"

text \<open>
  The loop over the names of the subports: every lookup is stored in the array of four row
  pointers, but only a successful one moves on to the next slot.
\<close>

fun collect_children :: "(string \<times> nat) list \<Rightarrow> string list \<Rightarrow> nat list \<Rightarrow> nat list run" where
  "collect_children tab [] found = Inr found"
| "collect_children tab (nm # nms) found =
     (if SYSD_MAX_SPLIT_PORTS \<le> length found then Inl Out_Of_Bounds_Write
      else case map_of tab nm of
        None \<Rightarrow> collect_children tab nms found
      | Some r \<Rightarrow> collect_children tab nms (found @ [r]))"

definition link_parent :: "(string \<times> nat) list \<Rightarrow> nat \<Rightarrow> yaml_port \<Rightarrow> ovsdb \<Rightarrow> ovsdb" where
  "link_parent tab r p db =
     (case parent_port p of
        None \<Rightarrow> db
      | Some nm \<Rightarrow>
          (case map_of tab nm of
             None \<Rightarrow> db
           | Some par \<Rightarrow> set_interface r (\<lambda>row. row\<lparr>if_split_parent := Some par\<rparr>) db))"

definition link_children :: "(string \<times> nat) list \<Rightarrow> nat \<Rightarrow> yaml_port \<Rightarrow> ovsdb \<Rightarrow> ovsdb run" where
  "link_children tab r p db =
     (if subports p = [] then Inr db
      else and_then (collect_children tab (subports p) []) (\<lambda>cs.
        Inr (set_interface r (\<lambda>row. row\<lparr>if_split_children := cs\<rparr>) db)))"

fun link_ports :: "(string \<times> nat) list \<Rightarrow> nat list \<Rightarrow> yaml_port list \<Rightarrow> ovsdb \<Rightarrow> ovsdb run" where
  "link_ports tab (r # rs) (p # ps) db =
     and_then (link_children tab r p (link_parent tab r p db)) (link_ports tab rs ps)"
| "link_ports tab _ _ db = Inr db"

text \<open>The first loop looks at the subports of every port, the second links the rows.\<close>

definition sysd_set_splittable_port_info :: "nat list \<Rightarrow> subsystem \<Rightarrow> ovsdb \<Rightarrow> ovsdb run" where
  "sysd_set_splittable_port_info rows s db =
     (if list_ex (\<lambda>p. subports_ptr p = None) (interfaces s) then Inl Null_Dereference
      else link_ports (split_table rows (interfaces s) db) rows (interfaces s) db)"

section \<open>Daemons and subsystem\<close>

definition sysd_initial_daemon_add :: "daemon_info \<Rightarrow> ovsdb \<Rightarrow> nat \<times> ovsdb" where
  "sysd_initial_daemon_add d db =
     (length (db_daemon db),
      db\<lparr>db_daemon := db_daemon db @ [\<lparr>dr_name = daemon_name d, dr_cur_hw = cur_hw d,
           dr_is_hw_handler = is_hw_handler d\<rparr>]\<rparr>)"

definition DFLT_ASSET_TAG :: string where "DFLT_ASSET_TAG = ''OpenSwitch asset tag''"
definition DFLT_TIMEZONE :: string where "DFLT_TIMEZONE = ''UTC''"

definition or_empty :: "string option \<Rightarrow> string" where
  "or_empty s = (case s of None \<Rightarrow> [] | Some t \<Rightarrow> t)"

definition subsystem_other_info :: "fru_eeprom \<Rightarrow> yaml_port_info \<Rightarrow> smap" where
  "subsystem_other_info fru info =
     [(''country_code'', country_code fru),
      (''device_version'', if device_version fru = 0 then [] else [char_of (unat (device_version fru))]),
      (''diag_version'', or_empty (diag_version fru)),
      (''label_revision'', or_empty (label_revision fru)),
      (''base_mac_address'', mac_string (take 6 (base_mac_address fru))),
      (''number_of_macs'', show_d (uint (num_macs fru))),
      (''manufacturer'', or_empty (manufacturer fru)),
      (''manufacture_date'', manufacture_date fru),
      (''onie_version'', or_empty (onie_version fru)),
      (''part_number'', or_empty (part_number fru)),
      (''Product Name'', or_empty (product_name fru)),
      (''platform_name'', or_empty (platform_name fru)),
      (''serial_number'', or_empty (serial_number fru)),
      (''vendor'', or_empty (vendor fru)),
      (''interface_count'', show_d (sint (number_ports info))),
      (''max_interface_speed'', show_d (sint (max_port_speed info))),
      (''max_transmission_unit'', show_d (sint (Subsystem.max_transmission_unit info))),
      (''max_bond_count'', show_d (sint (max_lag_count info))),
      (''max_bond_member_count'', show_d (sint (max_lag_member_count info))),
      (''l3_port_requires_internal_vlan'', show_d (sint (l3_port_requires_internal_vlan info)))]"

definition sysd_initial_subsystem_add :: "idl_names \<Rightarrow> (64 word \<Rightarrow> string) \<Rightarrow> bool \<Rightarrow> string \<Rightarrow>
    subsystem \<Rightarrow> ovsdb \<Rightarrow> (nat \<times> ovsdb) run" where
  "sysd_initial_subsystem_add names mac_text calloc_ok g_hw_desc_dir s db =
     (case intf_cmn_info s of
        None \<Rightarrow> Inl Null_Dereference
      | Some info \<Rightarrow>
          (let i = length (db_subsystem db);
               row = subsystem_fresh\<lparr>ss_name := subsystem_name s, ss_asset_tag_number := DFLT_ASSET_TAG,
                 ss_hw_desc_dir := g_hw_desc_dir,
                 ss_other_info := subsystem_other_info (Subsystem.fru_eeprom s) info\<rparr>;
               db1 = db\<lparr>db_subsystem := db_subsystem db @ [row]\<rparr>
           in if \<not> calloc_ok then Inr (i, db1)
              else
                and_then (add_interfaces names mac_text s (interfaces s) db1) (\<lambda>(rows, db2).
                and_then (sysd_set_splittable_port_info rows s db2) (\<lambda>db3.
                  Inr (i, db3\<lparr>db_subsystem := upd_nth i
                    (\<lambda>row. row\<lparr>ss_next_mac_address := mac_text (nxt_mac_addr s),
                       ss_macs_remaining := num_free_macs s, ss_interfaces := rows\<rparr>) (db_subsystem db3)\<rparr>)))))"

section \<open>Bridge and VRF\<close>

definition sysd_configure_default_bridge :: "idl_names \<Rightarrow> nat \<Rightarrow> ovsdb \<Rightarrow> ovsdb" where
  "sysd_configure_default_bridge names sys db =
     (let b = length (db_bridge db);
          i = length (db_interface db);
          p = length (db_port db);
          db1 = set_system sys (\<lambda>s. s\<lparr>sys_bridges := [b]\<rparr>) db
      in db1\<lparr>db_interface := db_interface db1 @ [interface_fresh\<lparr>if_name := default_bridge_name names,
               if_type := type_internal names,
               if_hw_intf_info := smap_add (key_bridge names) (bridge_true names) [],
               if_user_config := smap_add (key_admin names) (admin_up names) []\<rparr>],
             db_port := db_port db1 @ [\<lparr>pt_name = default_bridge_name names, pt_interfaces = [i]\<rparr>],
             db_bridge := db_bridge db1 @ [\<lparr>bridge_name = default_bridge_name names, bridge_ports = [p]\<rparr>]\<rparr>)"

text \<open>
  The setter of the column table_id is generated; it is given the address of one number and the
  count \<open>sizeof(table_id)\<close>, which is 8.
\<close>

definition sysd_configure_default_vrf :: "(int list \<Rightarrow> nat \<Rightarrow> int list run) \<Rightarrow> idl_names \<Rightarrow> nat \<Rightarrow> ovsdb \<Rightarrow> ovsdb run" where
  "sysd_configure_default_vrf set_table_id names sys db =
     (let v = length (db_vrf db);
          db1 = set_system sys (\<lambda>s. s\<lparr>sys_vrfs := [v]\<rparr>) db
      in and_then (set_table_id [0] 8) (\<lambda>ids.
           Inr (db1\<lparr>db_vrf := db_vrf db1 @ [\<lparr>vrf_name = default_vrf_name names, vrf_table_id = ids,
             vrf_status = smap_add_once (vrf_status_key names) (vrf_status_value names) []\<rparr>]\<rparr>)))"

section \<open>The whole configuration\<close>

text \<open>
  What the configuration reads: the manifest, the subsystems, the YAML data, the os-release file,
  and the outcomes of the three allocations.
\<close>

record config_env =
  ce_names :: idl_names
  ce_mac_text :: "64 word \<Rightarrow> string"
  ce_set_table_id :: "int list \<Rightarrow> nat \<Rightarrow> int list run"
  ce_hw_desc_dir :: string
  ce_manifest :: manifest
  ce_subsystems :: "subsystem list"
  ce_qos :: yaml_qos
  ce_acl :: "yaml_acl_info option"
  ce_os_release :: "string list option"
  ce_calloc_intf_ok :: bool
  ce_calloc_subsys_ok :: bool
  ce_calloc_daemons_ok :: bool

fun add_subsystems :: "config_env \<Rightarrow> subsystem list \<Rightarrow> ovsdb \<Rightarrow> (nat list \<times> ovsdb) run" where
  "add_subsystems env [] db = Inr ([], db)"
| "add_subsystems env (s # ss) db =
     and_then (sysd_initial_subsystem_add (ce_names env) (ce_mac_text env) (ce_calloc_intf_ok env)
                 (ce_hw_desc_dir env) s db) (\<lambda>(r, db1).
     and_then (add_subsystems env ss db1) (\<lambda>(rs, db2). Inr (r # rs, db2)))"

fun add_daemons :: "daemon_info list \<Rightarrow> ovsdb \<Rightarrow> nat list \<times> ovsdb" where
  "add_daemons [] db = ([], db)"
| "add_daemons (d # ds) db =
     (let (r, db1) = sysd_initial_daemon_add d db; (rs, db2) = add_daemons ds db1 in (r # rs, db2))"

text \<open>The part after the rows of the system: software information, time zone, QoS and ACL.\<close>

definition configure_services :: "config_env \<Rightarrow> nat \<Rightarrow> ovsdb \<Rightarrow> ovsdb run" where
  "configure_services env sys db =
     (let db1 = sysd_update_sw_info (ce_os_release env) sys db;
          db2 = set_system sys (\<lambda>s. s\<lparr>timezone := DFLT_TIMEZONE\<rparr>) db1;
          db3 = qos_init_trust (ce_qos env) sys db2
      in and_then (qos_init_dscp_map (ce_qos env) sys db3) (\<lambda>db4.
         and_then (qos_init_cos_map (ce_qos env) sys db4) (\<lambda>db5.
         and_then (qos_init_queue_profile (ce_qos env) sys db5) (\<lambda>db6.
         and_then (qos_init_schedule_profile (ce_qos env) sys db6) (\<lambda>db7.
           acl_init_limits (ce_acl env) sys db7)))))"

text \<open>
  The system row with the name of the management interface (which is read through a null pointer
  when the manifest has none, and outside its object when the object holds no terminator), the
  bridge, the VRF and the two MAC addresses of the first subsystem.
\<close>

definition configure_base :: "config_env \<Rightarrow> nat \<Rightarrow> ovsdb \<Rightarrow> ovsdb run" where
  "configure_base env sys db =
     and_then (mgmt_intf_name (ce_manifest env)) (\<lambda>nm.
       let db2 = set_system sys (\<lambda>s. s\<lparr>mgmt_intf_map := smap_add (key_mgmt_name (ce_names env)) nm []\<rparr>) db;
           db3 = sysd_configure_default_bridge (ce_names env) sys db2
       in and_then (sysd_configure_default_vrf (ce_set_table_id env) (ce_names env) sys db3) (\<lambda>db4.
            case ce_subsystems env of
              [] \<Rightarrow> Inl Out_Of_Bounds_Read
            | s0 # _ \<Rightarrow>
                Inr (set_system sys (\<lambda>s. s\<lparr>management_mac := ce_mac_text env (mgmt_mac_addr s0),
                  system_mac := ce_mac_text env (system_mac_addr s0)\<rparr>) db4)))"

text \<open>
  The tables of the subsystems and of the daemons, and the services. The function returns early
  when the array for either list of rows cannot be allocated.
\<close>

definition configure_tables :: "config_env \<Rightarrow> nat \<Rightarrow> ovsdb \<Rightarrow> ovsdb run" where
  "configure_tables env sys db =
     (if \<not> ce_calloc_subsys_ok env then Inr db
      else and_then (add_subsystems env (ce_subsystems env) db) (\<lambda>(subsys_l, db6).
        let db7 = set_system sys (\<lambda>s. s\<lparr>sys_subsystems := subsys_l\<rparr>) db6
        in if \<not> ce_calloc_daemons_ok env then Inr db7
           else
             (let (daemon_l, db8) = add_daemons (daemons (ce_manifest env)) db7;
                  db9 = (if daemons (ce_manifest env) \<noteq> []
                         then set_system sys (\<lambda>s. s\<lparr>sys_daemons := daemon_l\<rparr>) db8 else db8)
              in configure_services env sys db9)))"

definition sysd_initial_configure :: "config_env \<Rightarrow> ovsdb \<Rightarrow> ovsdb run" where
  "sysd_initial_configure env db =
     (let sys = length (db_system db);
          db1 = db\<lparr>db_system := db_system db @ [system_fresh]\<rparr>
      in and_then (configure_base env sys db1) (configure_tables env sys))"

section \<open>The speeds string\<close>

text \<open>The speeds as the comma separated list they are meant to be.\<close>

fun speeds_text :: "c_int list \<Rightarrow> string" where
  "speeds_text [] = []"
| "speeds_text [s] = show_d (sint s)"
| "speeds_text (s # t # ss) = show_d (sint s) @ CHR '','' # speeds_text (t # ss)"

definition speeds_tail :: "c_int list \<Rightarrow> string" where
  "speeds_tail ss = concat (map (\<lambda>s. CHR '','' # show_d (sint s)) ss)"

lemma speeds_text_Cons: "speeds_text (s # ss) = show_d (sint s) @ speeds_tail ss"
  by (induction ss arbitrary: s) (auto simp: speeds_tail_def)

lemma short_speed:
  assumes "0 \<le> sint (s :: c_int)" and "sint s < 10 ^ 8"
  shows "length (show_d (sint s)) \<le> 8"
proof -
  have "nat (sint s) < 10 ^ 8" using assms by simp
  then show ?thesis using assms length_nat_digits [of 8 "nat (sint s)"] by (simp add: show_d_def)
qed

lemma speeds_loop_tail:
  assumes "\<forall>s \<in> set ss. 0 \<le> sint s \<and> sint s < 10 ^ 8" and "9 \<le> len" and "0 < i" and "length str < len"
  shows "speeds_loop len i ss str =
    (if length (str @ speeds_tail ss) < len then Inr (str @ speeds_tail ss) else Inl Out_Of_Bounds_Write)"
  using assms
proof (induction ss arbitrary: i str)
  case Nil
  then show ?case by (simp add: speeds_tail_def)
next
  case (Cons s ss)
  have "length (CHR '','' # show_d (sint s)) < 10" using Cons.prems(1) short_speed [of s] by simp
  then have piece: "strncat str (trunc_copy 10 (CHR '','' # show_d (sint s))) len = str @ CHR '','' # show_d (sint s)"
    using Cons.prems(2) by (simp only: trunc_copy_fits) (simp add: strncat_def)
  show ?case
    using Cons.prems Cons.IH [of "Suc i" "str @ CHR '','' # show_d (sint s)"]
    by (auto simp: piece Let_def speeds_tail_def not_le)
qed

lemma speeds_text_result:
  assumes "\<forall>s \<in> set ss. 0 \<le> sint s \<and> sint s < 10 ^ 8" and "9 \<le> len"
  shows "sysd_get_speeds_string len ss =
    (if length (speeds_text ss) < len then Inr (speeds_text ss) else Inl Out_Of_Bounds_Write)"
proof (cases ss)
  case (Cons s rest)
  have short: "length (show_d (sint s)) \<le> 8" using assms(1) Cons short_speed [of s] by simp
  then have "strncat [] (trunc_copy 10 (show_d (sint s))) len = show_d (sint s)"
    using assms(2) by (simp add: trunc_copy_fits strncat_def)
  then show ?thesis
    using assms short Cons speeds_loop_tail [of rest len 1 "show_d (sint s)"]
    by (simp add: sysd_get_speeds_string_def speeds_text_Cons Let_def)
qed (use assms in \<open>simp add: sysd_get_speeds_string_def\<close>)

section \<open>Properties of the interfaces\<close>

text \<open>
  C37. For speeds below one hundred million the speeds string is the comma separated list of all
  of them, in order, when that list and its terminator fit the buffer; otherwise the code writes
  past the buffer's end: the limit given to \<open>strncat\<close> never stops it.
\<close>

theorem speeds_string:
  assumes "\<forall>s \<in> set ss. 0 \<le> sint s \<and> sint s < 10 ^ 8" and "9 \<le> len"
  shows "sysd_get_speeds_string len ss =
    (if length (speeds_text ss) < len then Inr (speeds_text ss) else Inl Out_Of_Bounds_Write)"
  by (rule speeds_text_result [OF assms])

lemma digit_chars: "char_of (48 :: nat) = CHR ''0''" "char_of (49 :: nat) = CHR ''1''"
  by code_simp+

lemma show_d_1000: "show_d 1000 = ''1000''" and show_d_10000: "show_d 10000 = ''10000''"
  by (simp_all add: show_d_def nat_digits.simps digit_chars)

theorem speeds_string_witness:
  "sysd_get_speeds_string 128 [1000, 10000] = Inr ''1000,10000'' \<and>
   sysd_get_speeds_string 9 [1000, 10000] = Inl Out_Of_Bounds_Write"
  using speeds_string [of "[1000, 10000]" 128] speeds_string [of "[1000, 10000]" 9]
  by (simp add: show_d_1000 show_d_10000)

section \<open>Split ports as a relation\<close>

definition found_subports :: "(string \<times> nat) list \<Rightarrow> string list \<Rightarrow> nat list" where
  "found_subports tab nms = List.map_filter (map_of tab) nms"

text \<open>The loop runs out of the array when four subports are found before the last name.\<close>

definition subports_overflow :: "(string \<times> nat) list \<Rightarrow> yaml_port \<Rightarrow> bool" where
  "subports_overflow tab p \<longleftrightarrow> SYSD_MAX_SPLIT_PORTS \<le> length (found_subports tab (butlast (subports p)))"

lemma collect_children_result:
  "collect_children tab nms found =
     (if nms \<noteq> [] \<and> SYSD_MAX_SPLIT_PORTS \<le> length found + length (found_subports tab (butlast nms))
      then Inl Out_Of_Bounds_Write else Inr (found @ found_subports tab nms))"
proof (induction nms arbitrary: found)
  case Nil
  show ?case by (simp add: found_subports_def map_filter_simps)
next
  case (Cons nm nms)
  then show ?case
    by (cases "nms = []") (auto simp: found_subports_def map_filter_simps split: option.split)
qed

definition linked :: "(string \<times> nat) list \<Rightarrow> yaml_port \<Rightarrow> interface_row \<Rightarrow> interface_row" where
  "linked tab p row = row\<lparr>
     if_split_parent := (case parent_port p of
         None \<Rightarrow> if_split_parent row
       | Some nm \<Rightarrow> (case map_of tab nm of None \<Rightarrow> if_split_parent row | Some par \<Rightarrow> Some par)),
     if_split_children := (if subports p = [] then if_split_children row else found_subports tab (subports p))\<rparr>"

lemma set_interface_id: "(\<And>row. f row = row) \<Longrightarrow> set_interface r f db = db"
  by (simp add: set_interface_def upd_nth_def)

lemma set_interface_twice: "set_interface r g (set_interface r f db) = set_interface r (\<lambda>row. g (f row)) db"
  by (simp add: set_interface_def upd_nth_twice)

lemma link_one:
  "link_children tab r p (link_parent tab r p db) =
     (if subports_overflow tab p then Inl Out_Of_Bounds_Write else Inr (set_interface r (linked tab p) db))"
proof -
  have parent: "link_parent tab r p db = set_interface r (\<lambda>row. row\<lparr>if_split_parent := (case parent_port p of
         None \<Rightarrow> if_split_parent row
       | Some nm \<Rightarrow> (case map_of tab nm of None \<Rightarrow> if_split_parent row | Some par \<Rightarrow> Some par))\<rparr>) db"
    by (auto simp: link_parent_def set_interface_id split: option.split)
  have "subports p = [] \<Longrightarrow> \<not> subports_overflow tab p"
    by (simp add: subports_overflow_def found_subports_def map_filter_simps SYSD_MAX_SPLIT_PORTS_def)
  moreover have "linked tab p = (\<lambda>row. (row\<lparr>if_split_parent := (case parent_port p of
         None \<Rightarrow> if_split_parent row
       | Some nm \<Rightarrow> (case map_of tab nm of None \<Rightarrow> if_split_parent row | Some par \<Rightarrow> Some par))\<rparr>)
       \<lparr>if_split_children := (if subports p = [] then if_split_children row else found_subports tab (subports p))\<rparr>)"
    by (simp add: linked_def fun_eq_iff)
  ultimately show ?thesis
    by (auto simp: link_children_def collect_children_result parent set_interface_twice subports_overflow_def)
qed

lemma link_ports_result:
  "length rows = length ps \<Longrightarrow> link_ports tab rows ps db =
     (if list_ex (subports_overflow tab) ps then Inl Out_Of_Bounds_Write
      else Inr (fold (\<lambda>(r, p). set_interface r (linked tab p)) (zip rows ps) db))"
proof (induction tab rows ps db rule: link_ports.induct)
  case (1 tab r rs p ps db)
  then show ?case by (simp add: link_one)
qed auto

lemma nth_fold_linked:
  fixes tab rows ps db
  assumes "distinct rows" and "length rows = length ps" and "\<forall>r \<in> set rows. r < length (db_interface db)"
  defines "db' \<equiv> fold (\<lambda>(r, p). set_interface r (linked tab p)) (zip rows ps) db"
  shows "length (db_interface db') = length (db_interface db)
    \<and> (\<forall>k < length rows. db_interface db' ! (rows ! k) = linked tab (ps ! k) (db_interface db ! (rows ! k)))
    \<and> (\<forall>r. r \<notin> set rows \<longrightarrow> db_interface db' ! r = db_interface db ! r)"
  unfolding db'_def using assms(1-3)
proof (induction rows ps arbitrary: db rule: list_induct2')
  case (4 r rows p ps)
  have IH: "length (db_interface (fold (\<lambda>(r, p). set_interface r (linked tab p)) (zip rows ps) (set_interface r (linked tab p) db))) =
      length (db_interface (set_interface r (linked tab p) db))
    \<and> (\<forall>k < length rows. db_interface (fold (\<lambda>(r, p). set_interface r (linked tab p)) (zip rows ps) (set_interface r (linked tab p) db)) ! (rows ! k)
        = linked tab (ps ! k) (db_interface (set_interface r (linked tab p) db) ! (rows ! k)))
    \<and> (\<forall>r'. r' \<notin> set rows \<longrightarrow> db_interface (fold (\<lambda>(r, p). set_interface r (linked tab p)) (zip rows ps) (set_interface r (linked tab p) db)) ! r'
        = db_interface (set_interface r (linked tab p) db) ! r')"
    using "4.prems" by (intro "4.IH") auto
  have other: "db_interface (set_interface r (linked tab p) db) ! (rows ! k) = db_interface db ! (rows ! k)"
    if "k < length rows" for k
    using "4.prems"(1) nth_mem [OF that] by (auto intro: nth_upd_nth_other)
  show ?case
  proof (intro conjI allI impI)
    fix k assume "k < length (r # rows)"
    then show "db_interface (fold (\<lambda>(r, p). set_interface r (linked tab p)) (zip (r # rows) (p # ps)) db) ! ((r # rows) ! k)
      = linked tab ((p # ps) ! k) (db_interface db ! ((r # rows) ! k))"
      using IH other "4.prems" by (cases k) auto
  next
    fix r' assume "r' \<notin> set (r # rows)"
    then show "db_interface (fold (\<lambda>(r, p). set_interface r (linked tab p)) (zip (r # rows) (p # ps)) db) ! r' = db_interface db ! r'"
      using IH by auto
  qed (use IH in simp)
qed auto

text \<open>
  Port data in which every port has a list of subports, the names are unique, no port has more than
  four subports, and the two directions of the relation agree.
\<close>

definition split_consistent :: "yaml_port list \<Rightarrow> bool" where
  "split_consistent ps \<longleftrightarrow>
     list_all (\<lambda>p. subports_ptr p \<noteq> None) ps \<and> distinct (map port_name ps) \<and>
     list_all (\<lambda>p. length (subports p) \<le> 4 \<and>
       list_all (\<lambda>nm. list_ex (\<lambda>q. port_name q = nm \<and> parent_port q = Some (port_name p)) ps) (subports p) \<and>
       (case parent_port p of None \<Rightarrow> True
        | Some nm \<Rightarrow> list_ex (\<lambda>q. port_name q = nm \<and> port_name p \<in> set (subports q)) ps)) ps"

lemma name_index:
  "distinct (map port_name ps) \<Longrightarrow> i < length ps \<Longrightarrow> j < length ps \<Longrightarrow> port_name (ps ! i) = port_name (ps ! j) \<Longrightarrow> i = j"
  by (metis nth_eq_iff_index_eq length_map nth_map)

lemma map_of_split_table:
  assumes names: "distinct (map port_name ps)"
    and rows: "\<forall>k < length ps. if_name (db_interface db ! (n + k)) = port_name (ps ! k)"
  shows "map_of (split_table [n..<n + length ps] ps db) nm = Some r \<longleftrightarrow>
    (\<exists>k < length ps. r = n + k \<and> splittable (ps ! k) \<and> port_name (ps ! k) = nm)"
proof -
  let ?z = "filter (\<lambda>(r, p). splittable p) (zip [n..<n + length ps] ps)"
  have zip: "(r, p) \<in> set ?z \<longleftrightarrow> (\<exists>k < length ps. r = n + k \<and> p = ps ! k \<and> splittable p)" for r p
  proof -
    have "(r, p) \<in> set (zip [n..<n + length ps] ps) \<longleftrightarrow> (\<exists>k < length ps. r = n + k \<and> p = ps ! k)"
      unfolding set_zip mem_Collect_eq prod.inject by (intro ex_cong1) auto
    then show ?thesis by auto
  qed
  have "map fst (split_table [n..<n + length ps] ps db) = map (\<lambda>(r, p). port_name p) ?z"
    using rows by (auto simp: split_table_def set_zip)
  also have "distinct \<dots>"
  proof (rule distinct_map_filter)
    have "map (\<lambda>(r, p). port_name p) (zip [n..<n + length ps] ps) = map port_name ps"
      by (rule nth_equalityI) simp_all
    then show "distinct (map (\<lambda>(r, p). port_name p) (zip [n..<n + length ps] ps))" using names by simp
  qed
  finally have "map_of (split_table [n..<n + length ps] ps db) nm = Some r \<longleftrightarrow>
      (nm, r) \<in> set (split_table [n..<n + length ps] ps db)"
    by (rule map_of_eq_Some_iff)
  also have "\<dots> \<longleftrightarrow> (\<exists>p. (r, p) \<in> set ?z \<and> nm = if_name (db_interface db ! r))"
    unfolding split_table_def by force
  finally show ?thesis using rows unfolding zip by auto
qed

lemma consistent_port:
  assumes "split_consistent ps" and "i < length ps"
  shows "length (subports (ps ! i)) \<le> 4"
    and "nm \<in> set (subports (ps ! i)) \<Longrightarrow> \<exists>q \<in> set ps. port_name q = nm \<and> parent_port q = Some (port_name (ps ! i))"
    and "parent_port (ps ! i) = Some nm \<Longrightarrow> \<exists>q \<in> set ps. port_name q = nm \<and> port_name (ps ! i) \<in> set (subports q)"
proof -
  have "\<forall>p \<in> set ps. length (subports p) \<le> 4 \<and>
      (\<forall>nm \<in> set (subports p). \<exists>q \<in> set ps. port_name q = nm \<and> parent_port q = Some (port_name p)) \<and>
      (case parent_port p of None \<Rightarrow> True | Some nm \<Rightarrow> \<exists>q \<in> set ps. port_name q = nm \<and> port_name p \<in> set (subports q))"
    using assms(1) unfolding split_consistent_def list_all_iff list_ex_iff by blast
  from bspec [OF this nth_mem [OF assms(2)]]
  show "length (subports (ps ! i)) \<le> 4"
    and "nm \<in> set (subports (ps ! i)) \<Longrightarrow> \<exists>q \<in> set ps. port_name q = nm \<and> parent_port q = Some (port_name (ps ! i))"
    and "parent_port (ps ! i) = Some nm \<Longrightarrow> \<exists>q \<in> set ps. port_name q = nm \<and> port_name (ps ! i) \<in> set (subports q)"
    by auto
qed

lemma consistent_subports:
  assumes c: "split_consistent ps" and i: "i < length ps" and j: "j < length ps"
  shows "port_name (ps ! i) \<in> set (subports (ps ! j)) \<longleftrightarrow> parent_port (ps ! i) = Some (port_name (ps ! j))"
proof
  assume "port_name (ps ! i) \<in> set (subports (ps ! j))"
  then obtain q where "q \<in> set ps" "port_name q = port_name (ps ! i)" "parent_port q = Some (port_name (ps ! j))"
    using consistent_port(2) [OF c j] by blast
  then show "parent_port (ps ! i) = Some (port_name (ps ! j))"
    using c i name_index [of ps] by (metis in_set_conv_nth split_consistent_def)
next
  assume "parent_port (ps ! i) = Some (port_name (ps ! j))"
  then obtain q where "q \<in> set ps" "port_name q = port_name (ps ! j)" "port_name (ps ! i) \<in> set (subports q)"
    using consistent_port(3) [OF c i] by blast
  then show "port_name (ps ! i) \<in> set (subports (ps ! j))"
    using c j name_index [of ps] by (metis in_set_conv_nth split_consistent_def)
qed

lemma consistent_subport_index:
  assumes "split_consistent ps" and "j < length ps" and "nm \<in> set (subports (ps ! j))"
  obtains i where "i < length ps" and "port_name (ps ! i) = nm" and "parent_port (ps ! i) = Some (port_name (ps ! j))"
proof -
  from assms obtain q where "q \<in> set ps" "port_name q = nm" "parent_port q = Some (port_name (ps ! j))"
    using consistent_port(2) [OF assms] by blast
  then show thesis using that by (metis in_set_conv_nth)
qed

lemma consistent_parent_index:
  assumes "split_consistent ps" and "i < length ps" and "parent_port (ps ! i) = Some nm"
  obtains j where "j < length ps" and "port_name (ps ! j) = nm" and "port_name (ps ! i) \<in> set (subports (ps ! j))"
proof -
  from assms obtain q where "q \<in> set ps" "port_name q = nm" "port_name (ps ! i) \<in> set (subports q)"
    using consistent_port(3) [OF assms] by blast
  then show thesis using that by (metis in_set_conv_nth)
qed

lemma found_all:
  assumes "\<And>nm. nm \<in> set nms \<Longrightarrow> map_of tab nm = Some (f nm)"
  shows "found_subports tab nms = map f nms"
  using assms by (induction nms) (auto simp: found_subports_def map_filter_simps)

lemma length_found: "length (found_subports tab nms) \<le> length nms"
  by (induction nms) (auto simp: found_subports_def map_filter_simps split: option.split)

text \<open>The rows of the ports as the interface code inserts them, from row \<open>n\<close> on.\<close>

definition ports_inserted :: "nat \<Rightarrow> yaml_port list \<Rightarrow> ovsdb \<Rightarrow> bool" where
  "ports_inserted n ps db \<longleftrightarrow> n + length ps \<le> length (db_interface db) \<and>
     list_all (\<lambda>k. if_name (db_interface db ! (n + k)) = port_name (ps ! k) \<and>
       if_split_parent (db_interface db ! (n + k)) = None \<and> if_split_children (db_interface db ! (n + k)) = [])
     [0..<length ps]"

lemma ports_inserted_row:
  assumes "ports_inserted n ps db" and "k < length ps"
  shows "if_name (db_interface db ! (n + k)) = port_name (ps ! k)" and "if_split_parent (db_interface db ! (n + k)) = None"
    and "if_split_children (db_interface db ! (n + k)) = []"
  using assms by (simp_all add: ports_inserted_def list_all_iff)

lemma linking_run:
  assumes c: "split_consistent (interfaces s)" and ins: "ports_inserted n (interfaces s) db"
  obtains db' where "sysd_set_splittable_port_info [n..<n + length (interfaces s)] s db = Inr db'"
    and "\<And>k. k < length (interfaces s) \<Longrightarrow> db_interface db' ! (n + k) =
      linked (split_table [n..<n + length (interfaces s)] (interfaces s) db) (interfaces s ! k) (db_interface db ! (n + k))"
proof -
  let ?ps = "interfaces s" and ?rows = "[n..<n + length (interfaces s)]"
  let ?tab = "split_table ?rows ?ps db"
  let ?db' = "fold (\<lambda>(r, p). set_interface r (linked ?tab p)) (zip ?rows ?ps) db"
  have "\<not> subports_overflow ?tab (?ps ! k)" if "k < length ?ps" for k
  proof -
    have "length (butlast (subports (?ps ! k))) \<le> 3" using consistent_port(1) [OF c that] by simp
    then show ?thesis
      using length_found [of ?tab "butlast (subports (?ps ! k))"]
      unfolding subports_overflow_def SYSD_MAX_SPLIT_PORTS_def by linarith
  qed
  then have "\<not> list_ex (subports_overflow ?tab) ?ps" by (auto simp: list_ex_iff in_set_conv_nth)
  moreover have "\<not> list_ex (\<lambda>p. subports_ptr p = None) ?ps"
    using c by (auto simp: split_consistent_def list_ex_iff list_all_iff)
  ultimately have run: "sysd_set_splittable_port_info ?rows s db = Inr ?db'"
    by (simp add: sysd_set_splittable_port_info_def link_ports_result)
  have "db_interface ?db' ! (n + k) = linked ?tab (?ps ! k) (db_interface db ! (n + k))" if "k < length ?ps" for k
    using that ins nth_fold_linked [of ?rows ?ps db ?tab] by (auto simp: ports_inserted_def)
  with run show ?thesis by (rule that)
qed

lemma split_table_index:
  assumes "split_consistent ps" and "ports_inserted n ps db" and "k < length ps" and "splittable (ps ! k)"
  shows "map_of (split_table [n..<n + length ps] ps db) (port_name (ps ! k)) = Some (n + k)"
proof -
  have "distinct (map port_name ps)" using assms(1) by (simp add: split_consistent_def)
  then show ?thesis
    using map_of_split_table [of ps db n] ports_inserted_row(1) [OF assms(2)] assms(3,4) by blast
qed

lemma linked_parent:
  assumes c: "split_consistent ps" and ins: "ports_inserted n ps db" and i: "i < length ps" and j: "j < length ps"
  shows "if_split_parent (linked (split_table [n..<n + length ps] ps db) (ps ! i) (db_interface db ! (n + i))) = Some (n + j)
    \<longleftrightarrow> parent_port (ps ! i) = Some (port_name (ps ! j))"
proof (cases "parent_port (ps ! i)")
  case None
  then show ?thesis using ports_inserted_row(2) [OF ins i] by (simp add: linked_def)
next
  case (Some nm)
  obtain m where m: "m < length ps" "port_name (ps ! m) = nm" "port_name (ps ! i) \<in> set (subports (ps ! m))"
    by (rule consistent_parent_index [OF c i Some])
  then have "splittable (ps ! m)" by (auto simp: splittable_def)
  then have "map_of (split_table [n..<n + length ps] ps db) nm = Some (n + m)"
    using split_table_index [OF c ins m(1)] m(2) by simp
  moreover have "distinct (map port_name ps)" using c by (simp add: split_consistent_def)
  ultimately show ?thesis using Some m j name_index [of ps m j] by (auto simp: linked_def)
qed

text \<open>The children of a row are the rows of its subports, one by one.\<close>

lemma linked_children:
  assumes c: "split_consistent ps" and ins: "ports_inserted n ps db" and j: "j < length ps"
  obtains at where
    "if_split_children (linked (split_table [n..<n + length ps] ps db) (ps ! j) (db_interface db ! (n + j))) =
       map at (subports (ps ! j))"
    and "\<And>nm. nm \<in> set (subports (ps ! j)) \<Longrightarrow> \<exists>k < length ps. port_name (ps ! k) = nm \<and> at nm = n + k"
proof -
  let ?tab = "split_table [n..<n + length ps] ps db"
  let ?at = "\<lambda>nm. the (map_of ?tab nm)"
  have found: "\<exists>k < length ps. port_name (ps ! k) = nm \<and> map_of ?tab nm = Some (n + k)"
    if nm: "nm \<in> set (subports (ps ! j))" for nm
  proof -
    obtain k where k: "k < length ps" "port_name (ps ! k) = nm" "parent_port (ps ! k) = Some (port_name (ps ! j))"
      by (rule consistent_subport_index [OF c j nm])
    then have "splittable (ps ! k)" by (simp add: splittable_def)
    with k split_table_index [OF c ins k(1)] show ?thesis by auto
  qed
  then have "found_subports ?tab (subports (ps ! j)) = map ?at (subports (ps ! j))"
    by (intro found_all) force
  then have "if_split_children (linked ?tab (ps ! j) (db_interface db ! (n + j))) = map ?at (subports (ps ! j))"
    using ports_inserted_row(3) [OF ins j] by (simp add: linked_def)
  moreover have "\<exists>k < length ps. port_name (ps ! k) = nm \<and> ?at nm = n + k" if "nm \<in> set (subports (ps ! j))" for nm
    using found [OF that] by force
  ultimately show thesis by (rule that)
qed

text \<open>
  C19. For consistent port data the rows of the split ports are linked without a fault and both
  ways: an interface has another as its split parent exactly when it is one of the split
  children of the other, and the split children of a port are its subports by name, in the order
  of the file.
\<close>

theorem split_ports_linked:
  assumes c: "split_consistent (interfaces s)" and ins: "ports_inserted n (interfaces s) db"
  shows "\<exists>db'. sysd_set_splittable_port_info [n..<n + length (interfaces s)] s db = Inr db' \<and>
    (\<forall>i < length (interfaces s). \<forall>j < length (interfaces s).
       if_split_parent (db_interface db' ! (n + i)) = Some (n + j) \<longleftrightarrow>
       n + i \<in> set (if_split_children (db_interface db' ! (n + j)))) \<and>
    (\<forall>j < length (interfaces s).
       map (\<lambda>r. if_name (db_interface db' ! r)) (if_split_children (db_interface db' ! (n + j))) =
       subports (interfaces s ! j))"
proof -
  let ?ps = "interfaces s"
  obtain db' where run: "sysd_set_splittable_port_info [n..<n + length ?ps] s db = Inr db'"
    and row: "\<And>k. k < length ?ps \<Longrightarrow> db_interface db' ! (n + k) =
      linked (split_table [n..<n + length ?ps] ?ps db) (?ps ! k) (db_interface db ! (n + k))"
    by (rule linking_run [OF c ins]) blast
  have name: "if_name (db_interface db' ! (n + k)) = port_name (?ps ! k)" if "k < length ?ps" for k
    using ports_inserted_row(1) [OF ins that] by (simp add: row [OF that] linked_def)
  have names: "distinct (map port_name ?ps)" using c by (simp add: split_consistent_def)
  show ?thesis
  proof (intro exI [of _ db'] conjI allI impI run)
    fix i j assume i: "i < length ?ps" and j: "j < length ?ps"
    obtain at where ch: "if_split_children (db_interface db' ! (n + j)) = map at (subports (?ps ! j))"
      and at: "\<And>nm. nm \<in> set (subports (?ps ! j)) \<Longrightarrow> \<exists>k < length ?ps. port_name (?ps ! k) = nm \<and> at nm = n + k"
      by (rule linked_children [OF c ins j, folded row [OF j]]) blast
    have "n + i \<in> set (map at (subports (?ps ! j))) \<longleftrightarrow> port_name (?ps ! i) \<in> set (subports (?ps ! j))"
    proof
      assume "port_name (?ps ! i) \<in> set (subports (?ps ! j))"
      then show "n + i \<in> set (map at (subports (?ps ! j)))"
        using at [of "port_name (?ps ! i)"] name_index [OF names _ i] by (metis image_eqI set_map)
    qed (use at in fastforce)
    then show "if_split_parent (db_interface db' ! (n + i)) = Some (n + j) \<longleftrightarrow>
        n + i \<in> set (if_split_children (db_interface db' ! (n + j)))"
      by (simp only: row [OF i] linked_parent [OF c ins i j] ch consistent_subports [OF c i j])
  next
    fix j assume j: "j < length ?ps"
    obtain at where ch: "if_split_children (db_interface db' ! (n + j)) = map at (subports (?ps ! j))"
      and at: "\<And>nm. nm \<in> set (subports (?ps ! j)) \<Longrightarrow> \<exists>k < length ?ps. port_name (?ps ! k) = nm \<and> at nm = n + k"
      by (rule linked_children [OF c ins j, folded row [OF j]]) blast
    have "if_name (db_interface db' ! at nm) = nm" if "nm \<in> set (subports (?ps ! j))" for nm
      using at [OF that] name by auto
    then show "map (\<lambda>r. if_name (db_interface db' ! r)) (if_split_children (db_interface db' ! (n + j))) = subports (?ps ! j)"
      unfolding ch map_map o_def by (rule map_idI)
  qed
qed

definition sample_port :: "string \<Rightarrow> string list \<Rightarrow> string option \<Rightarrow> yaml_port" where
  "sample_port nm subs parent = \<lparr>port_name_ptr = Some nm, pluggable = True, connector_ptr = Some ''QSFP'',
     max_speed = 40000, speeds_ptr = Some [40000], device = 0, device_port = 1, capabilities_ptr = Some [],
     subports_ptr = Some subs, parent_port = parent\<rparr>"

definition sample_ports :: "yaml_port list" where
  "sample_ports = [sample_port ''3'' [''3-1'', ''3-2''] None, sample_port ''3-1'' [] (Some ''3''),
     sample_port ''3-2'' [] (Some ''3'')]"

theorem split_ports_linked_witness:
  "\<exists>db'. sysd_set_splittable_port_info [0, 1, 2] (subsystem_zero\<lparr>interfaces := sample_ports\<rparr>)
       (ovsdb_empty\<lparr>db_interface := map (\<lambda>p. interface_fresh\<lparr>if_name := port_name p\<rparr>) sample_ports\<rparr>) = Inr db'
     \<and> map (\<lambda>r. if_name (db_interface db' ! r)) (if_split_children (db_interface db' ! 0)) = [''3-1'', ''3-2'']"
proof -
  have c: "split_consistent sample_ports"
    by (simp add: split_consistent_def sample_ports_def sample_port_def port_defs)
  have ins: "ports_inserted 0 sample_ports
      (ovsdb_empty\<lparr>db_interface := map (\<lambda>p. interface_fresh\<lparr>if_name := port_name p\<rparr>) sample_ports\<rparr>)"
    by (simp add: ports_inserted_def list_all_iff interface_fresh_def)
  have len: "length sample_ports = 3" and sub: "subports (sample_ports ! 0) = [''3-1'', ''3-2'']"
    by (simp_all add: sample_ports_def sample_port_def port_defs)
  show ?thesis
    using split_ports_linked [of "subsystem_zero\<lparr>interfaces := sample_ports\<rparr>" 0
        "ovsdb_empty\<lparr>db_interface := map (\<lambda>p. interface_fresh\<lparr>if_name := port_name p\<rparr>) sample_ports\<rparr>"] c ins
    by (auto simp: len sub upt_3)
qed

section \<open>Referential integrity\<close>

definition below :: "nat list \<Rightarrow> 'a list \<Rightarrow> bool" where
  "below refs rows \<longleftrightarrow> list_all (\<lambda>r. r < length rows) refs"

definition system_refs :: "ovsdb \<Rightarrow> system_row \<Rightarrow> bool" where
  "system_refs db s \<longleftrightarrow> below (sys_bridges s) (db_bridge db) \<and> below (sys_vrfs s) (db_vrf db) \<and>
     below (sys_subsystems s) (db_subsystem db) \<and> below (sys_daemons s) (db_daemon db) \<and>
     below (sys_cos_map_entries s) (db_cos_map db) \<and> below (sys_dscp_map_entries s) (db_dscp_map db) \<and>
     (case sys_q_profile s of None \<Rightarrow> True | Some p \<Rightarrow> p < length (profiles (db_q_profile db))) \<and>
     (case sys_qos s of None \<Rightarrow> True | Some p \<Rightarrow> p < length (profiles (db_qos db)))"

definition interface_refs :: "ovsdb \<Rightarrow> interface_row \<Rightarrow> bool" where
  "interface_refs db i \<longleftrightarrow> below (if_split_children i) (db_interface db) \<and>
     (case if_split_parent i of None \<Rightarrow> True | Some p \<Rightarrow> p < length (db_interface db))"

text \<open>Every pointer of every row points to a row.\<close>

definition refs_ok :: "ovsdb \<Rightarrow> bool" where
  "refs_ok db \<longleftrightarrow>
     list_all (system_refs db) (db_system db) \<and>
     list_all (\<lambda>b. below (bridge_ports b) (db_port db)) (db_bridge db) \<and>
     list_all (\<lambda>p. below (pt_interfaces p) (db_interface db)) (db_port db) \<and>
     list_all (\<lambda>s. below (ss_interfaces s) (db_interface db)) (db_subsystem db) \<and>
     list_all (interface_refs db) (db_interface db) \<and>
     store_wf (db_q_profile db) \<and> store_wf (db_qos db)"

lemma below_mono: "below refs rows \<Longrightarrow> length rows \<le> length rows' \<Longrightarrow> below refs rows'"
  by (auto simp: below_def list_all_iff)

lemma below_simps [simp]: "below [] rows" "below (r # rs) rows \<longleftrightarrow> r < length rows \<and> below rs rows"
  by (auto simp: below_def)

lemma below_upt [simp]: "m \<le> length rows \<Longrightarrow> below [n..<m] rows"
  by (auto simp: below_def list_all_iff)

lemma below_upd_nth [simp]: "below refs (upd_nth i f rows) = below refs rows"
  by (simp add: below_def)

text \<open>No step of the configuration removes a row.\<close>

definition grows :: "ovsdb \<Rightarrow> ovsdb \<Rightarrow> bool" where
  "grows db db' \<longleftrightarrow> length (db_system db') = length (db_system db) \<and>
     length (db_bridge db) \<le> length (db_bridge db') \<and> length (db_vrf db) \<le> length (db_vrf db') \<and>
     length (db_subsystem db) \<le> length (db_subsystem db') \<and> length (db_daemon db) \<le> length (db_daemon db') \<and>
     length (db_cos_map db) \<le> length (db_cos_map db') \<and> length (db_dscp_map db) \<le> length (db_dscp_map db') \<and>
     length (db_interface db) \<le> length (db_interface db') \<and> length (db_port db) \<le> length (db_port db') \<and>
     length (profiles (db_q_profile db)) \<le> length (profiles (db_q_profile db')) \<and>
     length (profiles (db_qos db)) \<le> length (profiles (db_qos db'))"

lemma grows_refl [simp]: "grows db db"
  by (simp add: grows_def)

lemma grows_trans: "grows a b \<Longrightarrow> grows b c \<Longrightarrow> grows a c"
  by (auto simp: grows_def)

lemma system_refs_mono: "system_refs db s \<Longrightarrow> grows db db' \<Longrightarrow> system_refs db' s"
  by (auto simp: system_refs_def grows_def intro: below_mono split: option.splits)

lemma interface_refs_mono: "interface_refs db i \<Longrightarrow> grows db db' \<Longrightarrow> interface_refs db' i"
  by (auto simp: interface_refs_def grows_def intro: below_mono split: option.splits)

text \<open>A step is safe when it keeps the integrity and removes nothing.\<close>

definition safe_step :: "ovsdb \<Rightarrow> ovsdb \<Rightarrow> bool" where
  "safe_step db db' \<longleftrightarrow> grows db db' \<and> (refs_ok db \<longrightarrow> refs_ok db')"

lemma safe_refl [simp]: "safe_step db db"
  by (simp add: safe_step_def)

lemma safe_trans: "safe_step a b \<Longrightarrow> safe_step b c \<Longrightarrow> safe_step a c"
  by (auto simp: safe_step_def intro: grows_trans)

text \<open>Rows appended, with the old rows of each table as they were and new ones with good pointers.\<close>

lemma list_all_upd_nth: "list_all P xs \<Longrightarrow> (\<And>x. P x \<Longrightarrow> P (f x)) \<Longrightarrow> list_all P (upd_nth i f xs)"
  by (auto simp: list_all_iff dest!: set_upd_nth)

lemma safe_set_system:
  assumes "\<And>s. system_refs db s \<Longrightarrow> system_refs db (f s)"
  shows "safe_step db (set_system i f db)"
proof -
  have g: "grows db (set_system i f db)" by (simp add: grows_def)
  have "refs_ok (set_system i f db)" if r: "refs_ok db"
  proof -
    have "list_all (system_refs db) (upd_nth i f (db_system db))"
      using r assms by (intro list_all_upd_nth) (simp_all add: refs_ok_def)
    moreover have "system_refs (set_system i f db) = system_refs db" "interface_refs (set_system i f db) = interface_refs db"
      by (simp_all add: fun_eq_iff system_refs_def interface_refs_def split: option.split)
    ultimately show ?thesis using r by (simp add: refs_ok_def)
  qed
  with g show ?thesis by (simp add: safe_step_def)
qed

lemma safe_set_interface:
  assumes "\<And>row. interface_refs db row \<Longrightarrow> interface_refs db (f row)"
  shows "safe_step db (set_interface i f db)"
proof -
  have "refs_ok (set_interface i f db)" if r: "refs_ok db"
  proof -
    have "list_all (interface_refs db) (upd_nth i f (db_interface db))"
      using r assms by (intro list_all_upd_nth) (simp_all add: refs_ok_def)
    moreover have "system_refs (set_interface i f db) = system_refs db" "interface_refs (set_interface i f db) = interface_refs db"
      by (simp_all add: fun_eq_iff system_refs_def interface_refs_def split: option.split)
    ultimately show ?thesis using r by (simp add: refs_ok_def)
  qed
  then show ?thesis by (simp add: safe_step_def grows_def)
qed

lemma list_all_mono_on: "list_all P xs \<Longrightarrow> (\<And>x. P x \<Longrightarrow> Q x) \<Longrightarrow> list_all Q xs"
  by (auto simp: list_all_iff)

text \<open>The general case: tables grow, new rows are good in the new database.\<close>

lemma refs_ok_grown:
  assumes "refs_ok db" and g: "grows db db'"
    and "list_all (\<lambda>s. s \<in> set (db_system db) \<or> system_refs db' s) (db_system db')"
    and "list_all (\<lambda>b. b \<in> set (db_bridge db) \<or> below (bridge_ports b) (db_port db')) (db_bridge db')"
    and "list_all (\<lambda>p. p \<in> set (db_port db) \<or> below (pt_interfaces p) (db_interface db')) (db_port db')"
    and "list_all (\<lambda>s. s \<in> set (db_subsystem db) \<or> below (ss_interfaces s) (db_interface db')) (db_subsystem db')"
    and "list_all (\<lambda>i. i \<in> set (db_interface db) \<or> interface_refs db' i) (db_interface db')"
    and "store_wf (db_q_profile db')" and "store_wf (db_qos db')"
  shows "refs_ok db'"
proof -
  have "\<forall>s \<in> set (db_system db). system_refs db' s" and "\<forall>i \<in> set (db_interface db). interface_refs db' i"
    using assms(1) system_refs_mono [OF _ g] interface_refs_mono [OF _ g] by (simp_all add: refs_ok_def list_all_iff)
  moreover have "\<forall>b \<in> set (db_bridge db). below (bridge_ports b) (db_port db')"
    and "\<forall>p \<in> set (db_port db). below (pt_interfaces p) (db_interface db')"
    and "\<forall>s \<in> set (db_subsystem db). below (ss_interfaces s) (db_interface db')"
    using assms(1) g by (auto simp: refs_ok_def list_all_iff grows_def intro: below_mono)
  ultimately show ?thesis using assms(3-9) by (auto simp: refs_ok_def list_all_iff)
qed

text \<open>Step by step.\<close>

lemma safe_append_interface:
  assumes "if_split_parent row = None" and "if_split_children row = []"
  shows "safe_step db (db\<lparr>db_interface := db_interface db @ [row]\<rparr>)"
proof -
  let ?db = "db\<lparr>db_interface := db_interface db @ [row]\<rparr>"
  have g: "grows db ?db" by (simp add: grows_def)
  have "refs_ok ?db" if "refs_ok db"
    using that assms
    by (intro refs_ok_grown [OF that g]) (auto simp: list_all_iff interface_refs_def refs_ok_def)
  with g show ?thesis by (simp add: safe_step_def)
qed

lemma safe_interface_add:
  assumes "sysd_initial_interface_add names mac_text s p db = Inr (r, db')"
  shows "safe_step db db' \<and> r < length (db_interface db')"
  using assms
  by (auto simp: sysd_initial_interface_add_def and_then_eq_Inr Let_def interface_fresh_def split: if_splits intro: safe_append_interface)

lemma safe_length_interface: "safe_step db db' \<Longrightarrow> length (db_interface db) \<le> length (db_interface db')"
  by (simp add: safe_step_def grows_def)

lemma safe_add_interfaces:
  "add_interfaces names mac_text s ps db = Inr (rs, db') \<Longrightarrow> safe_step db db' \<and> below rs (db_interface db')"
proof (induction ps arbitrary: db rs)
  case (Cons p ps)
  then obtain r db1 rs1 where 1: "sysd_initial_interface_add names mac_text s p db = Inr (r, db1)"
    and 2: "add_interfaces names mac_text s ps db1 = Inr (rs1, db')" and rs: "rs = r # rs1"
    by (auto simp: and_then_eq_Inr)
  from safe_interface_add [OF 1] Cons.IH [OF 2] rs show ?case
    using safe_length_interface [of db1 db'] by (auto intro: safe_trans)
qed simp

lemma found_below: "below (map snd tab) rows \<Longrightarrow> below (found_subports tab nms) rows"
  by (induction nms)
     (auto simp: found_subports_def map_filter_simps below_def list_all_iff dest!: map_of_SomeD split: option.split)

lemma map_of_below: "below (map snd tab) rows \<Longrightarrow> map_of tab nm = Some r \<Longrightarrow> r < length rows"
  by (auto simp: below_def list_all_iff dest!: map_of_SomeD)

lemma linked_refs:
  assumes "below (map snd tab) (db_interface db)" and "interface_refs db row"
  shows "interface_refs db (linked tab p row)"
  using assms found_below [OF assms(1)] map_of_below [OF assms(1)]
  by (auto simp: interface_refs_def linked_def split: option.splits)

lemma safe_link_ports:
  "link_ports tab rows ps db = Inr db' \<Longrightarrow> below (map snd tab) (db_interface db) \<Longrightarrow> safe_step db db'"
proof (induction tab rows ps db arbitrary: db' rule: link_ports.induct)
  case (1 tab r rs p ps db)
  then have "\<not> subports_overflow tab p" and run: "link_ports tab rs ps (set_interface r (linked tab p) db) = Inr db'"
    by (auto simp: link_one split: if_splits)
  have "safe_step db (set_interface r (linked tab p) db)"
    using "1.prems"(2) by (intro safe_set_interface linked_refs)
  moreover have "safe_step (set_interface r (linked tab p) db) db'"
    using "1.prems"(2) run \<open>\<not> subports_overflow tab p\<close> by (intro "1.IH") (auto simp: link_one)
  ultimately show ?case by (rule safe_trans)
qed auto

lemma safe_set_splittable:
  assumes "sysd_set_splittable_port_info rows s db = Inr db'" and "below rows (db_interface db)"
  shows "safe_step db db'"
proof -
  have "below (map snd (split_table rows (interfaces s) db)) (db_interface db)"
    using assms(2) by (auto simp: below_def list_all_iff split_table_def dest: set_zip_leftD)
  with assms(1) show ?thesis by (auto simp: sysd_set_splittable_port_info_def split: if_splits intro: safe_link_ports)
qed

lemma safe_subsystem_row:
  assumes "below (ss_interfaces row) (db_interface db)"
  shows "safe_step db (db\<lparr>db_subsystem := db_subsystem db @ [row]\<rparr>)"
proof -
  let ?db = "db\<lparr>db_subsystem := db_subsystem db @ [row]\<rparr>"
  have g: "grows db ?db" by (simp add: grows_def)
  have "refs_ok ?db" if "refs_ok db"
    using that assms by (intro refs_ok_grown [OF that g]) (auto simp: list_all_iff refs_ok_def)
  with g show ?thesis by (simp add: safe_step_def)
qed

lemma safe_subsystem_update:
  assumes "\<And>row. below (ss_interfaces row) (db_interface db) \<Longrightarrow> below (ss_interfaces (f row)) (db_interface db)"
  shows "safe_step db (db\<lparr>db_subsystem := upd_nth i f (db_subsystem db)\<rparr>)"
proof -
  let ?db = "db\<lparr>db_subsystem := upd_nth i f (db_subsystem db)\<rparr>"
  have g: "grows db ?db" by (simp add: grows_def)
  have "refs_ok ?db" if r: "refs_ok db"
  proof -
    have "list_all (\<lambda>s. below (ss_interfaces s) (db_interface db)) (upd_nth i f (db_subsystem db))"
      using r assms by (intro list_all_upd_nth) (simp_all add: refs_ok_def)
    then show ?thesis
      using r by (intro refs_ok_grown [OF r g]) (auto simp: list_all_iff refs_ok_def)
  qed
  with g show ?thesis by (simp add: safe_step_def)
qed

lemma safe_subsystem_add:
  assumes "sysd_initial_subsystem_add names mac_text ok dir s db = Inr (r, db')"
  shows "safe_step db db' \<and> r < length (db_subsystem db')"
proof -
  obtain info where info: "intf_cmn_info s = Some info"
    using assms by (cases "intf_cmn_info s") (auto simp: sysd_initial_subsystem_add_def)
  define row where "row = subsystem_fresh\<lparr>ss_name := subsystem_name s, ss_asset_tag_number := DFLT_ASSET_TAG,
                 ss_hw_desc_dir := dir, ss_other_info := subsystem_other_info (Subsystem.fru_eeprom s) info\<rparr>"
  define db1 where "db1 = db\<lparr>db_subsystem := db_subsystem db @ [row]\<rparr>"
  have s1: "safe_step db db1"
    unfolding db1_def by (rule safe_subsystem_row) (simp add: row_def subsystem_fresh_def)
  show ?thesis
  proof (cases ok)
    case False
    then have "r = length (db_subsystem db)" "db' = db1"
      using assms info by (simp_all add: sysd_initial_subsystem_add_def Let_def row_def db1_def)
    then show ?thesis using s1 by (simp add: db1_def)
  next
    case True
    with assms info obtain rows db2 db3 where
      2: "add_interfaces names mac_text s (interfaces s) db1 = Inr (rows, db2)" and
      3: "sysd_set_splittable_port_info rows s db2 = Inr db3" and
      r: "r = length (db_subsystem db)" and
      db': "db' = db3\<lparr>db_subsystem := upd_nth r (\<lambda>row. row\<lparr>ss_next_mac_address := mac_text (nxt_mac_addr s),
             ss_macs_remaining := num_free_macs s, ss_interfaces := rows\<rparr>) (db_subsystem db3)\<rparr>"
      by (auto simp: sysd_initial_subsystem_add_def Let_def row_def [symmetric] db1_def [symmetric] and_then_eq_Inr)
    note s2 = safe_add_interfaces [OF 2]
    have s3: "safe_step db2 db3" using safe_set_splittable [OF 3] s2 by blast
    have rows: "below rows (db_interface db3)"
      using s2 safe_length_interface [OF s3] by (auto intro: below_mono)
    have s4: "safe_step db3 db'" unfolding db' by (rule safe_subsystem_update) (simp add: rows)
    have all: "safe_step db1 db'" using s2 s3 s4 by (blast intro: safe_trans)
    then have "r < length (db_subsystem db')" by (simp add: safe_step_def grows_def r db1_def)
    with s1 all show ?thesis by (blast intro: safe_trans)
  qed
qed

lemma safe_add_subsystems:
  "add_subsystems env ss db = Inr (rs, db') \<Longrightarrow> safe_step db db' \<and> below rs (db_subsystem db')"
proof (induction ss arbitrary: db rs)
  case (Cons s ss)
  then obtain r db1 rs1 where
    1: "sysd_initial_subsystem_add (ce_names env) (ce_mac_text env) (ce_calloc_intf_ok env) (ce_hw_desc_dir env) s db = Inr (r, db1)"
    and 2: "add_subsystems env ss db1 = Inr (rs1, db')" and rs: "rs = r # rs1"
    by (auto simp: and_then_eq_Inr)
  note IH = Cons.IH [OF 2]
  have "r < length (db_subsystem db')"
    using safe_subsystem_add [OF 1] IH by (auto simp: safe_step_def grows_def)
  with safe_subsystem_add [OF 1] IH rs show ?case by (auto intro: safe_trans)
qed simp

lemma safe_daemon_add: "safe_step db (db\<lparr>db_daemon := db_daemon db @ [row]\<rparr>)"
proof -
  let ?db = "db\<lparr>db_daemon := db_daemon db @ [row]\<rparr>"
  have g: "grows db ?db" by (simp add: grows_def)
  have "refs_ok ?db" if "refs_ok db"
    using that by (intro refs_ok_grown [OF that g]) (auto simp: list_all_iff refs_ok_def)
  with g show ?thesis by (simp add: safe_step_def)
qed

lemma add_daemons_rows:
  "add_daemons ds db = ([length (db_daemon db)..<length (db_daemon db) + length ds],
     db\<lparr>db_daemon := db_daemon db @ map (\<lambda>d. \<lparr>dr_name = daemon_name d, dr_cur_hw = cur_hw d,
           dr_is_hw_handler = is_hw_handler d\<rparr>) ds\<rparr>)"
proof (induction ds arbitrary: db)
  case (Cons d ds)
  have "[length (db_daemon db)..<length (db_daemon db) + length (d # ds)] =
      length (db_daemon db) # [Suc (length (db_daemon db))..<Suc (length (db_daemon db)) + length ds]"
    by (simp add: upt_conv_Cons del: upt_Suc)
  then show ?case
    by (simp add: sysd_initial_daemon_add_def Cons.IH del: upt_Suc)
qed simp

lemma safe_add_daemons: "add_daemons ds db = (rs, db') \<Longrightarrow> safe_step db db' \<and> below rs (db_daemon db')"
proof -
  assume a: "add_daemons ds db = (rs, db')"
  have "safe_step db (db\<lparr>db_daemon := db_daemon db @ rows\<rparr>)" for rows
  proof (induction rows rule: rev_induct)
    case (snoc row rows)
    from safe_trans [OF snoc safe_daemon_add [of "db\<lparr>db_daemon := db_daemon db @ rows\<rparr>" row]] show ?case by simp
  qed simp
  with a show ?thesis by (auto simp: add_daemons_rows)
qed

lemma safe_bridge:
  assumes "sys < length (db_system db)"
  shows "safe_step db (sysd_configure_default_bridge names sys db)"
proof -
  let ?db = "sysd_configure_default_bridge names sys db"
  have g: "grows db ?db" by (simp add: grows_def sysd_configure_default_bridge_def Let_def)
  have "refs_ok ?db" if r: "refs_ok db"
  proof (rule refs_ok_grown [OF r g])
    have "system_refs ?db (s\<lparr>sys_bridges := [length (db_bridge db)]\<rparr>)" if "s \<in> set (db_system db)" for s
    proof -
      have "system_refs ?db s" using r that by (auto simp: refs_ok_def list_all_iff intro: system_refs_mono [OF _ g])
      then show ?thesis by (simp add: system_refs_def) (simp add: sysd_configure_default_bridge_def Let_def)
    qed
    then show "list_all (\<lambda>s. s \<in> set (db_system db) \<or> system_refs ?db s) (db_system ?db)"
      using assms by (auto simp: list_all_iff sysd_configure_default_bridge_def Let_def dest!: set_upd_nth)
  qed (use r in \<open>auto simp: list_all_iff refs_ok_def sysd_configure_default_bridge_def Let_def
        interface_refs_def interface_fresh_def\<close>)
  with g show ?thesis by (simp add: safe_step_def)
qed

lemma safe_vrf:
  assumes "sysd_configure_default_vrf set_id names sys db = Inr db'" and "sys < length (db_system db)"
  shows "safe_step db db'"
proof -
  obtain row where db': "db' = (set_system sys (\<lambda>s. s\<lparr>sys_vrfs := [length (db_vrf db)]\<rparr>) db)
      \<lparr>db_vrf := db_vrf db @ [row]\<rparr>"
    using assms(1) by (auto simp: sysd_configure_default_vrf_def Let_def and_then_eq_Inr)
  have g: "grows db db'" by (simp add: grows_def db')
  have "refs_ok db'" if r: "refs_ok db"
  proof (rule refs_ok_grown [OF r g])
    have "system_refs db' (s\<lparr>sys_vrfs := [length (db_vrf db)]\<rparr>)" if "s \<in> set (db_system db)" for s
    proof -
      have "system_refs db' s" using r that by (auto simp: refs_ok_def list_all_iff intro: system_refs_mono [OF _ g])
      then show ?thesis by (simp add: system_refs_def) (simp add: db')
    qed
    then show "list_all (\<lambda>s. s \<in> set (db_system db) \<or> system_refs db' s) (db_system db')"
      using assms(2) by (auto simp: list_all_iff db' dest!: set_upd_nth)
  qed (use r in \<open>auto simp: list_all_iff refs_ok_def db'\<close>)
  with g show ?thesis by (simp add: safe_step_def)
qed

lemma safe_sw_info: "safe_step db (sysd_update_sw_info f sys db)"
proof -
  have keep: "safe_step db (set_system sys (\<lambda>r. r\<lparr>software_info := x\<rparr>) db)"
    "safe_step db (set_system sys (\<lambda>r. r\<lparr>switch_version := v\<rparr>) db)" for x v db
    by (auto intro!: safe_set_system simp: system_refs_def)
  show ?thesis
    using keep safe_trans [OF keep(1) keep(2)] unfolding sysd_update_sw_info_def Let_def
    by (cases f) simp_all
qed

lemma safe_trust: "safe_step db (qos_init_trust y sys db)"
  by (auto simp: qos_init_trust_def system_refs_def split: option.split intro!: safe_set_system)

text \<open>A step that changes only the system row and one of the tables without pointers.\<close>

lemma safe_map_rows:
  assumes "db' = set_system sys f (db\<lparr>db_cos_map := db_cos_map db @ cs, db_dscp_map := db_dscp_map db @ ds\<rparr>)"
    and "\<And>s. system_refs (db\<lparr>db_cos_map := db_cos_map db @ cs, db_dscp_map := db_dscp_map db @ ds\<rparr>) s \<Longrightarrow>
      system_refs (db\<lparr>db_cos_map := db_cos_map db @ cs, db_dscp_map := db_dscp_map db @ ds\<rparr>) (f s)"
  shows "safe_step db db'"
proof -
  let ?db = "db\<lparr>db_cos_map := db_cos_map db @ cs, db_dscp_map := db_dscp_map db @ ds\<rparr>"
  have g: "grows db ?db" by (simp add: grows_def)
  have "refs_ok ?db" if "refs_ok db"
    using that by (intro refs_ok_grown [OF that g]) (auto simp: list_all_iff refs_ok_def)
  with g have "safe_step db ?db" by (simp add: safe_step_def)
  then show ?thesis unfolding assms(1) by (rule safe_trans) (rule safe_set_system, rule assms(2))
qed

lemma safe_cos:
  assumes "qos_init_cos_map y sys db = Inr db'"
  shows "safe_step db db'"
proof (cases "cos_map_entry y 0")
  case (Some e)
  let ?rows = "map_rows QOS_COS_MAP_ENTRY_COUNT (unat (cos_map_entry_count y)) (cos_map_entry y) cos_map_fresh"
  let ?f = "\<lambda>s :: system_row. s\<lparr>sys_cos_map_entries :=
      [length (db_cos_map db)..<length (db_cos_map db) + QOS_COS_MAP_ENTRY_COUNT]\<rparr>"
  have db': "db' = set_system sys ?f (db\<lparr>db_cos_map := db_cos_map db @ ?rows\<rparr>)"
    using assms Some
    by (auto simp: qos_init_cos_map_def and_then_eq_Inr Let_def init_default_cos_rows cos_rows_result)
  show ?thesis
    by (rule safe_map_rows [where cs = "?rows" and ds = "[]" and sys = sys and f = ?f])
       (simp_all add: db' map_rows_def system_refs_def)
qed (use assms in \<open>simp add: qos_init_cos_map_def\<close>)

lemma safe_dscp:
  assumes "qos_init_dscp_map y sys db = Inr db'"
  shows "safe_step db db'"
proof (cases "dscp_map_entry y 0")
  case (Some e)
  let ?rows = "map_rows QOS_DSCP_MAP_ENTRY_COUNT (unat (dscp_map_entry_count y)) (dscp_map_entry y) dscp_map_fresh"
  let ?f = "\<lambda>s :: system_row. s\<lparr>sys_dscp_map_entries :=
      [length (db_dscp_map db)..<length (db_dscp_map db) + QOS_DSCP_MAP_ENTRY_COUNT]\<rparr>"
  have db': "db' = set_system sys ?f (db\<lparr>db_dscp_map := db_dscp_map db @ ?rows\<rparr>)"
    using assms Some
    by (auto simp: qos_init_dscp_map_def and_then_eq_Inr Let_def init_default_dscp_rows dscp_rows_result)
  show ?thesis
    by (rule safe_map_rows [where cs = "[]" and ds = "?rows" and sys = sys and f = ?f])
       (simp_all add: db' map_rows_def system_refs_def)
qed (use assms in \<open>simp add: qos_init_dscp_map_def\<close>)

lemma safe_profiles:
  assumes "store_wf (db_q_profile db) \<Longrightarrow> store_wf q \<and> length (profiles (db_q_profile db)) \<le> length (profiles q)"
    and "store_wf (db_qos db) \<Longrightarrow> store_wf s \<and> length (profiles (db_qos db)) \<le> length (profiles s)"
    and "refs_ok db"
  shows "refs_ok (db\<lparr>db_q_profile := q, db_qos := s\<rparr>) \<and> grows db (db\<lparr>db_q_profile := q, db_qos := s\<rparr>)"
proof -
  have wf: "store_wf (db_q_profile db)" "store_wf (db_qos db)" using assms(3) by (simp_all add: refs_ok_def)
  have g: "grows db (db\<lparr>db_q_profile := q, db_qos := s\<rparr>)" using assms(1,2) wf by (simp add: grows_def)
  moreover have "refs_ok (db\<lparr>db_q_profile := q, db_qos := s\<rparr>)"
    using assms wf by (intro refs_ok_grown [OF assms(3) g]) (auto simp: list_all_iff refs_ok_def)
  ultimately show ?thesis by simp
qed

lemma safe_queue_profile:
  assumes r: "refs_ok db" and run: "qos_init_queue_profile y sys db = Inr db'"
  shows "refs_ok db' \<and> grows db db'"
proof (cases "qos_info y")
  case None
  then show ?thesis using r run by (simp add: qos_init_queue_profile_def)
next
  case (Some info)
  have wf: "store_wf (db_q_profile db)" "store_wf (db_qos db)" using r by (simp_all add: refs_ok_def)
  have "profiles_named y" using queue_profile_faults [OF wf(1)] run by blast
  then obtain dn fdn where names: "default_name info = Some dn" "factory_default_name info = Some fdn"
    using Some by (auto simp: profiles_named_def)
  let ?st1 = "qos_queue_profile_create_factory_default y dn (db_q_profile db)"
  let ?st2 = "qos_queue_profile_create_factory_default y fdn ?st1"
  note c1 = create_default_queues_named [OF wf(1), where y = y and nm = dn]
  note c2 = create_default_queues_named [OF c1(1), where y = y and nm = fdn]
  obtain dp where dp: "find_profile dn ?st1 = Some dp" using c1(2) ..
  obtain fp where fp: "find_profile fdn ?st2 = Some fp" using c2(2) ..
  let ?st3 = "mark_profile (\<lambda>e. e\<lparr>q_hw_default := Some True\<rparr>) fp ?st2"
  note m = mark_profile_named [OF c2(1) fp, where f = "\<lambda>e. e\<lparr>q_hw_default := Some True\<rparr>"]
  have l1: "length (profiles (db_q_profile db)) \<le> length (profiles ?st1)"
    by (rule profiles_kept_length [OF wf(1) c1(3)])
  have l2: "length (profiles ?st1) \<le> length (profiles ?st3)"
    using profiles_kept_length [OF c1(1), of ?st3] c2(3) m(2) by simp
  have init: "db' = set_system sys (\<lambda>s. s\<lparr>sys_q_profile := Some dp\<rparr>) (db\<lparr>db_q_profile := ?st3, db_qos := db_qos db\<rparr>)"
    using Some names dp fp run
    by (auto simp: qos_init_queue_profile_def get_queue_profile_row_eq Let_def set_system_def)
  have g: "refs_ok (db\<lparr>db_q_profile := ?st3, db_qos := db_qos db\<rparr>) \<and> grows db (db\<lparr>db_q_profile := ?st3, db_qos := db_qos db\<rparr>)"
    by (rule safe_profiles) (use l1 l2 m(1) r in auto)
  have "dp < length (profiles ?st3)" using find_profile_bound [OF dp] l2 by simp
  then have "safe_step (db\<lparr>db_q_profile := ?st3, db_qos := db_qos db\<rparr>) db'"
    unfolding init by (intro safe_set_system) (simp add: system_refs_def)
  with g show ?thesis by (auto simp: safe_step_def intro: grows_trans)
qed

text \<open>What a schedule profile initialisation that ends has found in the file.\<close>

lemma schedule_run_complete:
  assumes "store_wf (db_qos db)" and "qos_init_schedule_profile y sys db = Inr db'" and "qos_info y = Some info"
  shows "list_all has_algorithm (schedule_entries y) \<and> profiles_named y"
proof -
  obtain dn where dn: "default_name info = Some dn"
    using assms(2,3) by (cases "default_name info") (auto simp: qos_init_schedule_profile_def)
  have ok: "list_all has_algorithm (schedule_entries y)"
    using assms(2,3) dn create_default_schedule_fault [OF assms(1), of y dn]
    by (cases "list_all has_algorithm (schedule_entries y)") (auto simp: qos_init_schedule_profile_def)
  obtain st1 where "qos_schedule_profile_create_factory_default y dn (db_qos db) = Inr st1" "\<exists>i. find_profile dn st1 = Some i"
    by (rule create_default_schedule_named [OF assms(1) ok])
  then have "factory_default_name info \<noteq> None"
    using assms(2,3) dn
    by (cases "factory_default_name info") (auto simp: qos_init_schedule_profile_def get_schedule_profile_row_eq Let_def)
  with ok dn assms(3) show ?thesis by (simp add: profiles_named_def)
qed

lemma safe_schedule_profile:
  assumes r: "refs_ok db" and run: "qos_init_schedule_profile y sys db = Inr db'"
  shows "refs_ok db' \<and> grows db db'"
proof (cases "qos_info y")
  case None
  then show ?thesis using r run by (simp add: qos_init_schedule_profile_def)
next
  case (Some info)
  have wf: "store_wf (db_q_profile db)" "store_wf (db_qos db)" using r by (simp_all add: refs_ok_def)
  note complete = schedule_run_complete [OF wf(2) run Some]
  then have ok: "list_all has_algorithm (schedule_entries y)" ..
  obtain dn fdn where names: "default_name info = Some dn" "factory_default_name info = Some fdn"
    using complete Some by (auto simp: profiles_named_def)
  obtain st1 where c1: "qos_schedule_profile_create_factory_default y dn (db_qos db) = Inr st1" "store_wf st1"
    "\<exists>i. find_profile dn st1 = Some i" "\<And>i j. find_profile j (db_qos db) = Some i \<Longrightarrow> find_profile j st1 = Some i"
    by (rule create_default_schedule_named [OF wf(2) ok, of dn]) blast
  obtain st2 where c2: "qos_schedule_profile_create_factory_default y fdn st1 = Inr st2" "store_wf st2"
    "\<exists>i. find_profile fdn st2 = Some i" "\<And>i j. find_profile j st1 = Some i \<Longrightarrow> find_profile j st2 = Some i"
    by (rule create_default_schedule_named [OF c1(2) ok, of fdn]) blast
  obtain dp where dp: "find_profile dn st1 = Some dp" using c1(3) ..
  obtain fp where fp: "find_profile fdn st2 = Some fp" using c2(3) ..
  let ?st3 = "mark_profile (\<lambda>e. e\<lparr>queue_hw_default := Some True\<rparr>) fp st2"
  note m = mark_profile_named [OF c2(2) fp, where f = "\<lambda>e. e\<lparr>queue_hw_default := Some True\<rparr>"]
  have l1: "length (profiles (db_qos db)) \<le> length (profiles st1)"
    by (rule profiles_kept_length [OF wf(2) c1(4)])
  have l2: "length (profiles st1) \<le> length (profiles ?st3)"
    using profiles_kept_length [OF c1(2), of ?st3] c2(4) m(2) by simp
  have init: "db' = set_system sys (\<lambda>s. s\<lparr>sys_qos := Some dp\<rparr>) (db\<lparr>db_q_profile := db_q_profile db, db_qos := ?st3\<rparr>)"
    using Some names dp fp c1(1) c2(1) run
    by (auto simp: qos_init_schedule_profile_def get_schedule_profile_row_eq Let_def set_system_def)
  have g: "refs_ok (db\<lparr>db_q_profile := db_q_profile db, db_qos := ?st3\<rparr>) \<and> grows db (db\<lparr>db_q_profile := db_q_profile db, db_qos := ?st3\<rparr>)"
    by (rule safe_profiles) (use l1 l2 m(1) r in auto)
  have "dp < length (profiles ?st3)" using find_profile_bound [OF dp] l2 by simp
  then have "safe_step (db\<lparr>db_q_profile := db_q_profile db, db_qos := ?st3\<rparr>) db'"
    unfolding init by (intro safe_set_system) (simp add: system_refs_def)
  with g show ?thesis by (auto simp: safe_step_def intro: grows_trans)
qed

lemma safe_acl: "acl_init_limits a sys db = Inr db' \<Longrightarrow> safe_step db db'"
  by (auto simp: acl_init_limits_def Let_def system_refs_def split: option.splits intro!: safe_set_system)

lemma safe_services:
  assumes r: "refs_ok db" and run: "configure_services env sys db = Inr db'"
  shows "refs_ok db' \<and> grows db db'"
proof -
  let ?y = "ce_qos env"
  let ?db3 = "qos_init_trust ?y sys (set_system sys (\<lambda>s. s\<lparr>timezone := DFLT_TIMEZONE\<rparr>)
      (sysd_update_sw_info (ce_os_release env) sys db))"
  obtain db4 db5 db6 db7 where 4: "qos_init_dscp_map ?y sys ?db3 = Inr db4" and 5: "qos_init_cos_map ?y sys db4 = Inr db5"
    and 6: "qos_init_queue_profile ?y sys db5 = Inr db6" "qos_init_schedule_profile ?y sys db6 = Inr db7"
    and 7: "acl_init_limits (ce_acl env) sys db7 = Inr db'"
    using run by (auto simp: configure_services_def Let_def and_then_eq_Inr)
  have "safe_step (sysd_update_sw_info (ce_os_release env) sys db)
      (set_system sys (\<lambda>s. s\<lparr>timezone := DFLT_TIMEZONE\<rparr>) (sysd_update_sw_info (ce_os_release env) sys db))"
    by (rule safe_set_system) (simp add: system_refs_def)
  then have "safe_step db ?db3" by (blast intro: safe_trans safe_sw_info safe_trust)
  then have s5: "safe_step db db5" by (blast intro: safe_trans safe_dscp [OF 4] safe_cos [OF 5])
  then have r5: "refs_ok db5" using r by (simp add: safe_step_def)
  note q = safe_queue_profile [OF r5 6(1)]
  note s = safe_schedule_profile [OF conjunct1 [OF q] 6(2)]
  note a = safe_acl [OF 7]
  show ?thesis
    using s5 q s a by (auto simp: safe_step_def intro: grows_trans)
qed

lemma safe_base:
  assumes run: "configure_base env sys db = Inr db'" and sys: "sys < length (db_system db)"
  shows "safe_step db db'"
proof -
  obtain nm where nm: "mgmt_intf_name (ce_manifest env) = Inr nm"
    using run by (auto simp: configure_base_def and_then_eq_Inr)
  let ?db2 = "set_system sys (\<lambda>s. s\<lparr>mgmt_intf_map := smap_add (key_mgmt_name (ce_names env)) nm []\<rparr>) db"
  let ?db3 = "sysd_configure_default_bridge (ce_names env) sys ?db2"
  obtain s0 ss where ss: "ce_subsystems env = s0 # ss"
    using run nm by (cases "ce_subsystems env") (auto simp: configure_base_def Let_def and_then_eq_Inr)
  obtain db4 where 4: "sysd_configure_default_vrf (ce_set_table_id env) (ce_names env) sys ?db3 = Inr db4"
    and db': "db' = set_system sys (\<lambda>s. s\<lparr>management_mac := ce_mac_text env (mgmt_mac_addr s0),
        system_mac := ce_mac_text env (system_mac_addr s0)\<rparr>) db4"
    using run nm ss by (auto simp: configure_base_def Let_def and_then_eq_Inr)
  have "safe_step db ?db2" and "safe_step db4 db'"
    unfolding db' by (rule safe_set_system, simp add: system_refs_def)+
  moreover have "safe_step ?db2 ?db3" using sys by (intro safe_bridge) simp
  moreover have "safe_step ?db3 db4"
    using sys by (intro safe_vrf [OF 4]) (simp add: sysd_configure_default_bridge_def Let_def)
  ultimately show ?thesis by (blast intro: safe_trans)
qed

lemma safe_tables:
  assumes r: "refs_ok db" and run: "configure_tables env sys db = Inr db'"
  shows "refs_ok db' \<and> grows db db'"
proof (cases "ce_calloc_subsys_ok env")
  case False
  then show ?thesis using r run by (simp add: configure_tables_def)
next
  case True
  let ?ds = "daemons (ce_manifest env)"
  obtain rs db6 where 6: "add_subsystems env (ce_subsystems env) db = Inr (rs, db6)"
    using True run by (auto simp: configure_tables_def and_then_eq_Inr)
  note s6 = safe_add_subsystems [OF 6]
  let ?db7 = "set_system sys (\<lambda>s. s\<lparr>sys_subsystems := rs\<rparr>) db6"
  have "safe_step db6 ?db7" using s6 by (intro safe_set_system) (simp add: system_refs_def)
  with s6 have s7: "safe_step db ?db7" by (blast intro: safe_trans)
  obtain ls db8 where 8: "add_daemons ?ds ?db7 = (ls, db8)" by fastforce
  note s8 = safe_add_daemons [OF 8]
  let ?db9 = "if ?ds \<noteq> [] then set_system sys (\<lambda>s. s\<lparr>sys_daemons := ls\<rparr>) db8 else db8"
  have "safe_step db8 ?db9" using s8 by (auto intro!: safe_set_system simp: system_refs_def)
  with s7 s8 have s9: "safe_step db ?db9" by (blast intro: safe_trans)
  show ?thesis
  proof (cases "ce_calloc_daemons_ok env")
    case False
    then have "db' = ?db7" using True run 6 by (simp add: configure_tables_def Let_def)
    then show ?thesis using s7 r by (simp add: safe_step_def)
  next
    case ok: True
    have "configure_services env sys ?db9 = Inr db'"
      using True ok run 6 8 by (simp add: configure_tables_def Let_def)
    moreover have "refs_ok ?db9" using s9 r by (simp add: safe_step_def)
    ultimately show ?thesis using s9 safe_services [of ?db9 env sys db'] by (auto simp: safe_step_def intro: grows_trans)
  qed
qed

lemma configure_safe:
  assumes "refs_ok db" and "sysd_initial_configure env db = Inr db'"
  shows "refs_ok db' \<and> length (db_system db') = Suc (length (db_system db))"
proof -
  let ?db1 = "db\<lparr>db_system := db_system db @ [system_fresh]\<rparr>"
  have r1: "refs_ok ?db1"
    using assms(1) by (simp add: refs_ok_def system_refs_def interface_refs_def system_fresh_def list_all_iff fun_eq_iff
        cong: option.case_cong)
  obtain db2 where 2: "configure_base env (length (db_system db)) ?db1 = Inr db2"
    and 3: "configure_tables env (length (db_system db)) db2 = Inr db'"
    using assms(2) by (auto simp: sysd_initial_configure_def Let_def and_then_eq_Inr)
  have s2: "safe_step ?db1 db2" by (rule safe_base [OF 2]) simp
  then have "refs_ok db2" using r1 by (simp add: safe_step_def)
  from safe_tables [OF this 3] s2 show ?thesis by (auto simp: safe_step_def grows_def)
qed

text \<open>
  C5. The first configuration keeps the referential integrity of the database: when every pointer
  of every row points to a row of its table, and every queue row belongs to one profile, this
  still holds after the configuration, on every path on which it ends without a fault, its early
  returns included; one system row is added.
\<close>

theorem configuration_integrity:
  assumes "refs_ok db" and "sysd_initial_configure env db = Inr db'"
  shows "refs_ok db' \<and> length (db_system db') = Suc (length (db_system db))"
  by (rule configure_safe [OF assms])

definition sample_names :: idl_names where
  "sample_names = \<lparr>key_pluggable = ''p'', pluggable_true = ''t'', pluggable_false = ''f'', key_connector = ''c'',
     key_max_speed = ''m'', key_speeds = ''s'', key_switch_unit = ''u'', key_switch_intf_id = ''i'', key_mac_addr = ''a'',
     type_system = ''system'', type_internal = ''internal'', admin_state_down = ''down'', key_bridge = ''b'',
     bridge_true = ''t'', key_admin = ''admin'', admin_up = ''up'', default_bridge_name = ''bridge_normal'',
     default_vrf_name = ''vrf_default'', vrf_status_key = ''k'', vrf_status_value = ''v'', key_mgmt_name = ''name''\<rparr>"

definition sample_port_info :: yaml_port_info where
  "sample_port_info = \<lparr>number_ports = 1, max_port_speed = 1, max_transmission_unit = 1, max_lag_count = 1,
     max_lag_member_count = 1, l3_port_requires_internal_vlan = 0\<rparr>"

definition sample_env :: config_env where
  "sample_env = \<lparr>ce_names = sample_names, ce_mac_text = (\<lambda>w. []), ce_set_table_id = (\<lambda>ids n. Inr (take 1 ids)),
     ce_hw_desc_dir = ''/'', ce_manifest = manifest_init\<lparr>mgmt_intf := Some (''eth0'' @ [CHR 0x00])\<rparr>,
     ce_subsystems = [subsystem_zero\<lparr>intf_cmn_info := Some sample_port_info, interfaces := [], intf_count := 0\<rparr>],
     ce_qos = sample_qos\<lparr>qos_info := None\<rparr>, ce_acl = Some \<lparr>max_acls = 1, max_aces = 1, max_aces_per_acl = 1\<rparr>,
     ce_os_release = None, ce_calloc_intf_ok = True, ce_calloc_subsys_ok = True, ce_calloc_daemons_ok = True\<rparr>"

lemma refs_ok_empty: "refs_ok ovsdb_empty"
  by (simp add: refs_ok_def ovsdb_empty_def)

text \<open>An object for the name of the management interface that has room for it.\<close>

lemma readable_intf: "mgmt_intf_name (m\<lparr>mgmt_intf := Some (''eth0'' @ [CHR 0x00])\<rparr>) = Inr ''eth0''"
  by (simp add: mgmt_intf_name_def c_string_at_def)

lemma sample_configure_runs: "\<exists>db'. sysd_initial_configure sample_env ovsdb_empty = Inr db'"
  by (simp add: sysd_initial_configure_def configure_base_def configure_tables_def configure_services_def Let_def
      sample_env_def mgmt_intf_name_def c_string_at_def manifest_init_def sysd_configure_default_vrf_def sysd_initial_subsystem_add_def subsystem_zero_def
      sysd_set_splittable_port_info_def split_table_def qos_init_dscp_map_def qos_init_cos_map_def
      qos_init_queue_profile_def qos_init_schedule_profile_def acl_init_limits_def sample_qos_def)

theorem configuration_integrity_witness:
  "\<exists>db'. sysd_initial_configure sample_env ovsdb_empty = Inr db' \<and> refs_ok db' \<and> length (db_system db') = 1"
proof -
  obtain db' where run: "sysd_initial_configure sample_env ovsdb_empty = Inr db'" using sample_configure_runs ..
  from configuration_integrity [OF refs_ok_empty run] run show ?thesis by (auto simp: ovsdb_empty_def)
qed


end
