(* ===== verification/Package_Info.thy ===== *)
theory Package_Info
  imports Ovsdb
begin

text \<open>
  The loader of the Package_Info table, \<open>sysd_add_package_info\<close> in \<open>src/sysd_ovsdb_if.c\<close>: a machine
  driven by the events of the YAML parser. A scalar that is one of five key words selects the
  column of the next values; a package name opens a transaction when the number of completed
  packages is a multiple of 2000 and inserts a row; a source type completes the package and
  commits the transaction at the next multiple. The results of commits and insertions come from
  the database library and are arguments.
\<close>

section \<open>Model\<close>

datatype pkg_key = VALUE | PKG | PV | SRCREV | SRC_URL | TYPE_KEY

datatype yaml_event = Scalar string | Stream_End | Other_Event

definition PKG_INFO_ENTRIES_PER_COMMIT :: nat where "PKG_INFO_ENTRIES_PER_COMMIT = 2000"

text \<open>The keys in the order of the enumeration of the code, which indexes the array of key words.\<close>

instantiation pkg_key :: enum
begin

definition enum_pkg_key :: "pkg_key list" where
  "enum_pkg_key = [VALUE, PKG, PV, SRCREV, SRC_URL, TYPE_KEY]"

definition enum_all_pkg_key :: "(pkg_key \<Rightarrow> bool) \<Rightarrow> bool" where
  "enum_all_pkg_key P = list_all P enum_class.enum"

definition enum_ex_pkg_key :: "(pkg_key \<Rightarrow> bool) \<Rightarrow> bool" where
  "enum_ex_pkg_key P = list_ex P enum_class.enum"

instance
proof
  show "(UNIV :: pkg_key set) = set enum_class.enum" using pkg_key.exhaust by (auto simp: enum_pkg_key_def)
  note all = this
  show "distinct (enum_class.enum :: pkg_key list)" by (simp add: enum_pkg_key_def)
  show "enum_class.enum_all P \<longleftrightarrow> Ball UNIV P" for P :: "pkg_key \<Rightarrow> bool"
    by (simp only: enum_all_pkg_key_def list_all_iff all)
  show "enum_class.enum_ex P \<longleftrightarrow> Bex UNIV P" for P :: "pkg_key \<Rightarrow> bool"
    by (simp only: enum_ex_pkg_key_def list_ex_iff all)
qed

end

fun keystr_pkg_info :: "pkg_key \<Rightarrow> string" where
  "keystr_pkg_info VALUE = ''values''"
| "keystr_pkg_info PKG = ''PKG''"
| "keystr_pkg_info PV = ''PV''"
| "keystr_pkg_info SRCREV = ''SRCREV''"
| "keystr_pkg_info SRC_URL = ''SRC_URL''"
| "keystr_pkg_info TYPE_KEY = ''TYPE''"

text \<open>The search starts behind the key \<open>VALUE\<close>, which also stands for a text that is no key word.\<close>

definition package_info_mapping_check_key :: "string \<Rightarrow> pkg_key" where
  "package_info_mapping_check_key s =
     (case List.find (\<lambda>k. strcmp (keystr_pkg_info k) s = 0) (tl enum_class.enum) of None \<Rightarrow> VALUE | Some k \<Rightarrow> k)"

lemma key_of_keystr: "package_info_mapping_check_key (keystr_pkg_info k) = k"
  by (cases k) (simp_all add: package_info_mapping_check_key_def enum_pkg_key_def)

lemma keystr_of_key:
  assumes "package_info_mapping_check_key s \<noteq> VALUE"
  shows "keystr_pkg_info (package_info_mapping_check_key s) = s"
proof (cases "List.find (\<lambda>k. strcmp (keystr_pkg_info k) s = 0) (tl enum_class.enum)")
  case (Some k)
  from iffD1 [OF find_Some_iff this] have "strcmp (keystr_pkg_info k) s = 0" by blast
  then have "keystr_pkg_info k = s" by (simp only: strcmp_eq)
  then show ?thesis unfolding package_info_mapping_check_key_def Some by simp
next
  case None
  then have "package_info_mapping_check_key s = VALUE" unfolding package_info_mapping_check_key_def by (simp only: option.case)
  with assms show ?thesis by contradiction
qed

text \<open>
  The local variables: the column, the number of completed packages, the row pointer, the
  transaction with the rows inserted in it (\<open>None\<close> is the null pointer). \<open>stored\<close> are the rows of
  committed transactions, \<open>commits\<close> and \<open>inserts\<close> count the calls, and \<open>returned\<close> says that the
  function has returned early. The counter of packages is an \<open>int\<close> that starts at 0: incrementing
  it beyond \<open>INT_MAX\<close> is a fault. A row that was inserted in a transaction is freed with it.
\<close>

record loader =
  current_state :: pkg_key
  record_count :: nat
  pkg_row :: "nat option"
  pkg_txn :: "package_info_row list option"
  stored :: "package_info_row list"
  commits :: nat
  inserts :: nat
  returned :: bool

definition loader_init :: loader where
  "loader_init = \<lparr>current_state = VALUE, record_count = 0, pkg_row = None, pkg_txn = None, stored = [],
     commits = 0, inserts = 0, returned = False\<rparr>"

text \<open>A column setter writes through the row pointer.\<close>

definition set_column :: "(package_info_row \<Rightarrow> package_info_row) \<Rightarrow> loader \<Rightarrow> loader run" where
  "set_column f l =
     (case pkg_row l of
        None \<Rightarrow> Inl Null_Dereference
      | Some r \<Rightarrow>
          (case pkg_txn l of
             None \<Rightarrow> Inl Use_After_Free
           | Some rows \<Rightarrow> Inr (l\<lparr>pkg_txn := Some (upd_nth r f rows)\<rparr>)))"

text \<open>Creating a second transaction while one is open fails an assertion of the library.\<close>

definition txn_create :: "loader \<Rightarrow> loader run" where
  "txn_create l = (case pkg_txn l of None \<Rightarrow> Inr (l\<lparr>pkg_txn := Some []\<rparr>) | Some _ \<Rightarrow> Inl Assertion_Failure)"

definition txn_commit :: "(nat \<Rightarrow> bool) \<Rightarrow> loader \<Rightarrow> loader run" where
  "txn_commit commit_ok l =
     (case pkg_txn l of
        None \<Rightarrow> Inl Null_Dereference
      | Some rows \<Rightarrow>
          Inr (l\<lparr>pkg_txn := None, commits := Suc (commits l),
                 stored := (if commit_ok (commits l) then stored l @ rows else stored l)\<rparr>))"

definition package_insert :: "(nat \<Rightarrow> bool) \<Rightarrow> string \<Rightarrow> loader \<Rightarrow> loader run" where
  "package_insert insert_ok nm l =
     (case pkg_txn l of
        None \<Rightarrow> Inl Null_Dereference
      | Some rows \<Rightarrow>
          if \<not> insert_ok (inserts l)
          then Inr (l\<lparr>inserts := Suc (inserts l), pkg_txn := None, returned := True\<rparr>)
          else Inr (l\<lparr>inserts := Suc (inserts l), pkg_row := Some (length rows),
                 pkg_txn := Some (rows @ [package_info_fresh\<lparr>pkg_name := nm\<rparr>])\<rparr>))"

definition value_event :: "(nat \<Rightarrow> bool) \<Rightarrow> (nat \<Rightarrow> bool) \<Rightarrow> string \<Rightarrow> loader \<Rightarrow> loader run" where
  "value_event insert_ok commit_ok v l =
     (case current_state l of
        VALUE \<Rightarrow> Inr l
      | PKG \<Rightarrow> and_then (if record_count l mod PKG_INFO_ENTRIES_PER_COMMIT = 0 then txn_create l else Inr l)
                 (package_insert insert_ok v)
      | PV \<Rightarrow> set_column (\<lambda>r. r\<lparr>pkg_version := Some v\<rparr>) l
      | SRCREV \<Rightarrow> if strcmp v ''INVALID'' \<noteq> 0 then set_column (\<lambda>r. r\<lparr>pkg_version := Some v\<rparr>) l else Inr l
      | SRC_URL \<Rightarrow> set_column (\<lambda>r. r\<lparr>pkg_src_url := Some v\<rparr>) l
      | TYPE_KEY \<Rightarrow>
          if INT_MAX \<le> record_count l then Inl Signed_Overflow
          else and_then (set_column (\<lambda>r. r\<lparr>pkg_src_type := Some v\<rparr>) (l\<lparr>record_count := Suc (record_count l)\<rparr>))
                  (\<lambda>l'. if record_count l' mod PKG_INFO_ENTRIES_PER_COMMIT = 0 then txn_commit commit_ok l' else Inr l'))"

definition package_event :: "(nat \<Rightarrow> bool) \<Rightarrow> (nat \<Rightarrow> bool) \<Rightarrow> yaml_event \<Rightarrow> loader \<Rightarrow> loader run" where
  "package_event insert_ok commit_ok e l =
     (if returned l then Inr l
      else case e of
        Scalar s \<Rightarrow>
          (case package_info_mapping_check_key s of
             VALUE \<Rightarrow> value_event insert_ok commit_ok s l
           | k \<Rightarrow> Inr (l\<lparr>current_state := k\<rparr>))
      | Stream_End \<Rightarrow> Inr l
      | Other_Event \<Rightarrow> Inr l)"

text \<open>
  The loop ends after the event that ends the stream, or when the parser fails, which is the end
  of the list. What is left in an open transaction is committed then.
\<close>

fun package_loop :: "(nat \<Rightarrow> bool) \<Rightarrow> (nat \<Rightarrow> bool) \<Rightarrow> yaml_event list \<Rightarrow> loader \<Rightarrow> loader run" where
  "package_loop insert_ok commit_ok [] l = Inr l"
| "package_loop insert_ok commit_ok (e # es) l =
     and_then (package_event insert_ok commit_ok e l) (\<lambda>l'.
       if returned l' \<or> e = Stream_End then Inr l' else package_loop insert_ok commit_ok es l')"

definition sysd_add_package_info :: "bool \<Rightarrow> (nat \<Rightarrow> bool) \<Rightarrow> (nat \<Rightarrow> bool) \<Rightarrow> yaml_event list option \<Rightarrow>
    ovsdb \<Rightarrow> ovsdb run" where
  "sysd_add_package_info parser_ok insert_ok commit_ok version_detail db =
     (if \<not> parser_ok then Inr db
      else case version_detail of
        None \<Rightarrow> Inr db
      | Some events \<Rightarrow>
          and_then (package_loop insert_ok commit_ok events loader_init) (\<lambda>l.
          and_then (if \<not> returned l \<and> pkg_txn l \<noteq> None then txn_commit commit_ok l else Inr l) (\<lambda>l'.
            Inr (db\<lparr>db_package_info := db_package_info db @ stored l'\<rparr>))))"

text \<open>Whether the loader ends without a fault does not depend on the database.\<close>

definition package_load_ok :: "bool \<Rightarrow> (nat \<Rightarrow> bool) \<Rightarrow> (nat \<Rightarrow> bool) \<Rightarrow> yaml_event list option \<Rightarrow> bool" where
  "package_load_ok parser_ok insert_ok commit_ok version_detail \<longleftrightarrow>
     (case sysd_add_package_info parser_ok insert_ok commit_ok version_detail ovsdb_empty of
        Inl _ \<Rightarrow> False | Inr _ \<Rightarrow> True)"

lemma package_load_any:
  "(\<exists>db'. sysd_add_package_info p i c v db = Inr db') \<longleftrightarrow> package_load_ok p i c v"
  by (auto simp: package_load_ok_def sysd_add_package_info_def and_then_def split: option.split sum.split)

section \<open>Invariant\<close>

text \<open>
  No transaction is open, unless a row was inserted in it, and the row pointer points to its
  last row; and when none is open, the number of completed packages is a multiple of 2000.
\<close>

definition loader_inv :: "loader \<Rightarrow> bool" where
  "loader_inv l \<longleftrightarrow>
     (returned l \<or>
        (case pkg_txn l of
           None \<Rightarrow> record_count l mod PKG_INFO_ENTRIES_PER_COMMIT = 0
         | Some rows \<Rightarrow> rows \<noteq> [] \<and> pkg_row l = Some (length rows - 1)))"

lemma loader_inv_init: "loader_inv loader_init"
  by (simp add: loader_inv_def loader_init_def)

lemma set_column_inv: "loader_inv l \<Longrightarrow> set_column f l = Inr l' \<Longrightarrow> loader_inv l'"
  by (auto simp: set_column_def loader_inv_def upd_nth_def split: option.splits)

lemma set_column_count: "set_column f l = Inr l' \<Longrightarrow> pkg_txn l \<noteq> None"
  by (auto simp: set_column_def split: option.splits)

lemma loader_inv_count: "loader_inv l \<Longrightarrow> pkg_txn l \<noteq> None \<Longrightarrow> loader_inv (l\<lparr>record_count := n\<rparr>)"
  by (auto simp: loader_inv_def)

lemma txn_commit_inv:
  "record_count l mod PKG_INFO_ENTRIES_PER_COMMIT = 0 \<Longrightarrow> txn_commit ok l = Inr l' \<Longrightarrow> loader_inv l'"
  by (auto simp: txn_commit_def loader_inv_def split: option.splits)

lemma package_insert_inv: "package_insert ok v l = Inr l' \<Longrightarrow> loader_inv l'"
  by (auto simp: package_insert_def loader_inv_def split: option.splits if_splits)

lemma value_event_inv:
  assumes "loader_inv l" and "value_event iok cok v l = Inr l'"
  shows "loader_inv l'"
proof (cases "current_state l")
  case TYPE_KEY
  with assms(2) obtain l1 where
    l1: "set_column (\<lambda>r. r\<lparr>pkg_src_type := Some v\<rparr>) (l\<lparr>record_count := Suc (record_count l)\<rparr>) = Inr l1" and
    l': "(if record_count l1 mod PKG_INFO_ENTRIES_PER_COMMIT = 0 then txn_commit cok l1 else Inr l1) = Inr l'"
    by (auto simp: value_event_def and_then_eq_Inr split: if_splits)
  have "loader_inv l1"
    using set_column_inv [OF loader_inv_count [OF assms(1)] l1] set_column_count [OF l1] by simp
  with l' show ?thesis using txn_commit_inv [of l1 cok l'] by (auto split: if_splits)
qed (use assms in \<open>auto simp: value_event_def and_then_eq_Inr intro: package_insert_inv set_column_inv
      split: if_splits\<close>)

lemma loader_inv_state [simp]: "loader_inv (l\<lparr>current_state := k\<rparr>) = loader_inv l"
  by (simp add: loader_inv_def split: option.split)

lemma package_event_inv:
  "loader_inv l \<Longrightarrow> package_event iok cok e l = Inr l' \<Longrightarrow> loader_inv l'"
  by (auto simp: package_event_def intro: value_event_inv split: if_splits yaml_event.splits pkg_key.splits)

definition run_inv :: "loader run \<Rightarrow> bool" where
  "run_inv m \<longleftrightarrow> (case m of Inl _ \<Rightarrow> True | Inr l \<Rightarrow> loader_inv l)"

interpretation package_machine: state_machine "\<lambda>m. m = Inr loader_init"
    "\<lambda>e m. and_then m (package_event iok cok e)" run_inv for iok cok
proof unfold_locales
  fix s :: "loader run" assume "s = Inr loader_init"
  then show "run_inv s" by (simp add: run_inv_def loader_inv_init)
next
  fix s e assume "run_inv s"
  then show "run_inv (and_then s (package_event iok cok e))"
    by (auto simp: run_inv_def intro: package_event_inv split: sum.splits)
qed

section \<open>Which event sequences fault\<close>

text \<open>The events that a state in which the loader is still running cannot take.\<close>

definition bad_event :: "loader \<Rightarrow> yaml_event \<Rightarrow> fault option" where
  "bad_event l e =
     (case e of
        Scalar s \<Rightarrow>
          if package_info_mapping_check_key s \<noteq> VALUE then None
          else if current_state l = PKG then
            (if record_count l mod PKG_INFO_ENTRIES_PER_COMMIT = 0 \<and> pkg_txn l \<noteq> None
             then Some Assertion_Failure else None)
          else if current_state l = VALUE \<or> current_state l = SRCREV \<and> s = ''INVALID'' then None
          else if current_state l = TYPE_KEY \<and> INT_MAX \<le> record_count l then Some Signed_Overflow
          else if pkg_row l = None then Some Null_Dereference
          else if pkg_txn l = None then Some Use_After_Free
          else None
      | _ \<Rightarrow> None)"

lemma set_column_fault:
  "set_column f l = Inl x \<longleftrightarrow>
     pkg_row l = None \<and> x = Null_Dereference \<or> pkg_row l \<noteq> None \<and> pkg_txn l = None \<and> x = Use_After_Free"
  by (auto simp: set_column_def split: option.splits)

lemma and_then_eq_Inl: "and_then m f = Inl x \<longleftrightarrow> m = Inl x \<or> (\<exists>y. m = Inr y \<and> f y = Inl x)"
  by (cases m) auto

lemma txn_commit_no_fault: "pkg_txn l \<noteq> None \<Longrightarrow> txn_commit cok l \<noteq> Inl x"
  by (auto simp: txn_commit_def)

lemma set_column_keeps_txn: "set_column f l = Inr l' \<Longrightarrow> pkg_txn l' \<noteq> None"
  by (auto simp: set_column_def split: option.splits)

lemma value_event_fault:
  assumes "loader_inv l" and "\<not> returned l"
  shows "value_event iok cok v l = Inl x \<longleftrightarrow>
    (if current_state l = PKG then
       record_count l mod PKG_INFO_ENTRIES_PER_COMMIT = 0 \<and> pkg_txn l \<noteq> None \<and> x = Assertion_Failure
     else if current_state l = VALUE \<or> current_state l = SRCREV \<and> v = ''INVALID'' then False
     else if current_state l = TYPE_KEY \<and> INT_MAX \<le> record_count l then x = Signed_Overflow
     else pkg_row l = None \<and> x = Null_Dereference \<or> pkg_row l \<noteq> None \<and> pkg_txn l = None \<and> x = Use_After_Free)"
proof (cases "current_state l")
  case PKG
  then show ?thesis
    using assms
    by (auto simp: value_event_def and_then_eq_Inl txn_create_def package_insert_def loader_inv_def
        split: option.splits if_splits)
next
  case TYPE_KEY
  then show ?thesis
    by (auto simp: value_event_def and_then_eq_Inl set_column_fault dest: set_column_keeps_txn
        simp: txn_commit_no_fault)
qed (simp_all add: value_event_def set_column_fault strcmp_eq)

lemma package_event_fault:
  assumes "loader_inv l" and "\<not> returned l"
  shows "package_event iok cok e l = Inl x \<longleftrightarrow> bad_event l e = Some x"
  using assms
  by (auto simp: package_event_def bad_event_def value_event_fault split: yaml_event.splits pkg_key.splits)

section \<open>The loop as a run of the machine\<close>

lemma package_loop_snoc:
  "package_loop iok cok (es @ [e]) l =
     and_then (package_loop iok cok es l) (\<lambda>l'.
       if returned l' \<or> Stream_End \<in> set es then Inr l' else package_event iok cok e l')"
proof (induction es arbitrary: l)
  case Nil
  have "package_event iok cok Stream_End l = Inr l" and "returned l \<Longrightarrow> package_event iok cok e l = Inr l"
    by (simp_all add: package_event_def)
  then show ?case by (cases "package_event iok cok e l") auto
next
  case (Cons f fs)
  then show ?case by (cases "package_event iok cok f l") auto
qed

lemma package_loop_prefix:
  "\<exists>k. package_loop iok cok es l = fold (\<lambda>e m. and_then m (package_event iok cok e)) (take k es) (Inr l)"
proof (induction es arbitrary: l)
  case Nil
  show ?case by simp
next
  case (Cons e es)
  have stuck: "fold (\<lambda>e m. and_then m (package_event iok cok e)) es (Inl x) = Inl x" for es x
    by (induction es) simp_all
  show ?case
  proof (cases "package_event iok cok e l")
    case (Inl x)
    then show ?thesis by (intro exI [of _ "Suc 0"]) simp
  next
    case (Inr l')
    show ?thesis
    proof (cases "returned l' \<or> e = Stream_End")
      case True
      then show ?thesis using Inr by (intro exI [of _ "Suc 0"]) auto
    next
      case False
      obtain k where "package_loop iok cok es l' = fold (\<lambda>e m. and_then m (package_event iok cok e)) (take k es) (Inr l')"
        using Cons.IH ..
      then show ?thesis using Inr False by (intro exI [of _ "Suc k"]) simp
    qed
  qed
qed

text \<open>So every state the loop reaches has the invariant of the machine.\<close>

lemma package_loop_inv: "package_loop iok cok es loader_init = Inr l \<Longrightarrow> loader_inv l"
proof -
  assume "package_loop iok cok es loader_init = Inr l"
  moreover obtain k where
    "package_loop iok cok es loader_init = fold (\<lambda>e m. and_then m (package_event iok cok e)) (take k es) (Inr loader_init)"
    using package_loop_prefix by blast
  moreover have "run_inv (fold (\<lambda>e m. and_then m (package_event iok cok e)) (take k es) (Inr loader_init))"
    by (rule package_machine.run_inv) simp
  ultimately show "loader_inv l" by (simp add: run_inv_def)
qed

definition bad_at :: "(nat \<Rightarrow> bool) \<Rightarrow> (nat \<Rightarrow> bool) \<Rightarrow> yaml_event list \<Rightarrow> fault \<Rightarrow> nat \<Rightarrow> bool" where
  "bad_at iok cok es x k =
     (case package_loop iok cok (take k es) loader_init of
        Inl _ \<Rightarrow> False
      | Inr l \<Rightarrow> \<not> returned l \<and> Stream_End \<notin> set (take k es) \<and> bad_event l (es ! k) = Some x)"

lemma bad_at_snoc:
  "k < length es \<Longrightarrow> bad_at iok cok (es @ [e]) x k = bad_at iok cok es x k"
  "bad_at iok cok (es @ [e]) x (length es) \<longleftrightarrow>
     (case package_loop iok cok es loader_init of Inl _ \<Rightarrow> False
      | Inr l \<Rightarrow> \<not> returned l \<and> Stream_End \<notin> set es \<and> bad_event l e = Some x)"
  by (simp_all add: bad_at_def nth_append split: sum.split)

text \<open>
  C21. The loader faults on a sequence of events exactly when some event finds it running in a
  state that cannot take it: a package name while the transaction of the current batch is already
  open, but no package of it is complete (an assertion of the database library); a version,
  revision, address or type before any package name (a null pointer); or one of these, other
  than the revision INVALID, after the transaction of the row was committed (a freed row); or the
  type of one package more than the counter, an \<open>int\<close>, can count. It
  never inserts a row outside a transaction and never commits a transaction that is not open.
\<close>

theorem package_loader_faults:
  "package_loop iok cok es loader_init = Inl x \<longleftrightarrow> list_ex (bad_at iok cok es x) [0..<length es]"
proof (induction es rule: rev_induct)
  case (snoc e es)
  have "package_loop iok cok (es @ [e]) loader_init = Inl x \<longleftrightarrow>
      package_loop iok cok es loader_init = Inl x \<or> bad_at iok cok (es @ [e]) x (length es)"
    unfolding bad_at_snoc using package_event_fault [OF package_loop_inv]
    by (auto simp: package_loop_snoc and_then_eq_Inl split: sum.split)
  also have "\<dots> \<longleftrightarrow> list_ex (bad_at iok cok (es @ [e]) x) [0..<length (es @ [e])]"
    unfolding snoc.IH list_ex_iff by (auto simp: bad_at_snoc(1))
  finally show ?case .
qed simp
section \<open>Loading a list of packages\<close>

record package =
  p_name :: string
  p_pv :: string
  p_srcrev :: string
  p_src_url :: string
  p_type :: string

definition package_events :: "package \<Rightarrow> yaml_event list" where
  "package_events p =
     [Other_Event, Scalar ''PKG'', Scalar (p_name p), Scalar ''PV'', Scalar (p_pv p), Scalar ''SRCREV'',
      Scalar (p_srcrev p), Scalar ''SRC_URL'', Scalar (p_src_url p), Scalar ''TYPE'', Scalar (p_type p), Other_Event]"

definition package_ok :: "package \<Rightarrow> bool" where
  "package_ok p \<longleftrightarrow> list_all (\<lambda>s. package_info_mapping_check_key s = VALUE)
     [p_name p, p_pv p, p_srcrev p, p_src_url p, p_type p]"

definition package_row :: "package \<Rightarrow> package_info_row" where
  "package_row p = \<lparr>pkg_name = p_name p,
     pkg_version = Some (if p_srcrev p = ''INVALID'' then p_pv p else p_srcrev p),
     pkg_src_url = Some (p_src_url p), pkg_src_type = Some (p_type p)\<rparr>"

text \<open>A list cut into pieces of \<open>n\<close>, and those pieces whose transaction is accepted.\<close>

function chunks :: "nat \<Rightarrow> 'a list \<Rightarrow> 'a list list" where
  "chunks n xs = (if n = 0 \<or> xs = [] then [] else take n xs # chunks n (drop n xs))"
  by pat_completeness auto
termination by (relation "measure (\<lambda>(n, xs). length xs)") auto

declare chunks.simps [simp del]

definition accepted :: "(nat \<Rightarrow> bool) \<Rightarrow> 'a list list \<Rightarrow> 'a list" where
  "accepted ok bs = concat (map snd (filter (\<lambda>(i, b). ok i) (enumerate 0 bs)))"

lemma accepted_Nil [simp]: "accepted ok [] = []"
  by (simp add: accepted_def)

lemma accepted_snoc: "accepted ok (bs @ [b]) = (if ok (length bs) then accepted ok bs @ b else accepted ok bs)"
  by (simp add: accepted_def enumerate_append_eq)

definition close_batch :: "'a list list \<times> 'a list \<Rightarrow> 'a list list" where
  "close_batch = (\<lambda>(bs, ps). if ps = [] then bs else bs @ [ps])"

definition add_to_batch :: "nat \<Rightarrow> 'a \<Rightarrow> 'a list list \<times> 'a list \<Rightarrow> 'a list list \<times> 'a list" where
  "add_to_batch n x = (\<lambda>(bs, ps). if length ps + 1 = n then (bs @ [ps @ [x]], []) else (bs, ps @ [x]))"

lemma batches_are_chunks:
  "length ps < n \<Longrightarrow> close_batch (fold (add_to_batch n) xs (bs, ps)) = bs @ chunks n (ps @ xs)"
proof (induction xs arbitrary: bs ps)
  case Nil
  then show ?case by (subst chunks.simps) (simp add: close_batch_def chunks.simps)
next
  case (Cons x xs)
  show ?case
  proof (cases "length ps + 1 = n")
    case True
    then have "chunks n (ps @ x # xs) = (ps @ [x]) # chunks n xs"
      by (subst chunks.simps) auto
    moreover have "0 < n" using True by simp
    ultimately show ?thesis
      using True Cons.IH [of "[]" "bs @ [ps @ [x]]"] by (simp add: add_to_batch_def)
  next
    case False
    then show ?thesis using Cons.prems Cons.IH [of "ps @ [x]" bs] by (simp add: add_to_batch_def)
  qed
qed

text \<open>The loader between two packages, with the batches it has committed and the open one.\<close>

definition loader_at :: "(nat \<Rightarrow> bool) \<Rightarrow> package_info_row list list \<times> package_info_row list \<Rightarrow> loader \<Rightarrow> bool" where
  "loader_at cok b l \<longleftrightarrow> \<not> returned l \<and>
     record_count l = PKG_INFO_ENTRIES_PER_COMMIT * length (fst b) + length (snd b) \<and>
     length (snd b) < PKG_INFO_ENTRIES_PER_COMMIT \<and>
     pkg_txn l = (if snd b = [] then None else Some (snd b)) \<and>
     commits l = length (fst b) \<and> stored l = accepted cok (fst b)"

lemma keys:
  "package_info_mapping_check_key ''PKG'' = PKG" "package_info_mapping_check_key ''PV'' = PV"
  "package_info_mapping_check_key ''SRCREV'' = SRCREV" "package_info_mapping_check_key ''SRC_URL'' = SRC_URL"
  "package_info_mapping_check_key ''TYPE'' = TYPE_KEY"
  by (simp_all add: package_info_mapping_check_key_def enum_pkg_key_def)

text \<open>A key word and a value.\<close>

lemma loop_column:
  assumes "package_info_mapping_check_key kw = k" and "k \<noteq> VALUE" and "package_info_mapping_check_key s = VALUE"
    and "\<not> returned l" and "value_event iok cok s (l\<lparr>current_state := k\<rparr>) = Inr l'" and "\<not> returned l'"
  shows "package_loop iok cok (Scalar kw # Scalar s # es) l = package_loop iok cok es l'"
  using assms by (auto simp: package_event_def split: pkg_key.split)

lemma loop_other: "\<not> returned l \<Longrightarrow> package_loop iok cok (Other_Event # es) l = package_loop iok cok es l"
  by (simp add: package_event_def)

lemma loop_package:
  assumes at: "loader_at cok (bs, ps) l" and ok: "package_ok p"
    and room: "PKG_INFO_ENTRIES_PER_COMMIT * length bs + length ps < INT_MAX"
  shows "\<exists>l'. package_loop (\<lambda>_. True) cok (package_events p @ es) l = package_loop (\<lambda>_. True) cok es l'
    \<and> loader_at cok (add_to_batch PKG_INFO_ENTRIES_PER_COMMIT (package_row p) (bs, ps)) l'"
proof -
  let ?n = PKG_INFO_ENTRIES_PER_COMMIT
  let ?r1 = "package_info_fresh\<lparr>pkg_name := p_name p\<rparr>"
  let ?r2 = "?r1\<lparr>pkg_version := Some (p_pv p)\<rparr>"
  let ?r3 = "if p_srcrev p = ''INVALID'' then ?r2 else ?r2\<lparr>pkg_version := Some (p_srcrev p)\<rparr>"
  let ?r4 = "?r3\<lparr>pkg_src_url := Some (p_src_url p)\<rparr>"
  let ?l0 = "l\<lparr>pkg_row := Some (length ps), inserts := Suc (inserts l)\<rparr>"
  let ?l = "\<lambda>k r. ?l0\<lparr>current_state := k, pkg_txn := Some (ps @ [r])\<rparr>"
  let ?lc = "(?l TYPE_KEY (package_row p))\<lparr>record_count := Suc (record_count l)\<rparr>"
  define l' where "l' = (if Suc (record_count l) mod ?n = 0
     then ?lc\<lparr>pkg_txn := None, commits := Suc (commits l),
            stored := (if cok (commits l) then stored l @ ps @ [package_row p] else stored l)\<rparr>
     else ?lc)"
  have kv: "package_info_mapping_check_key (p_name p) = VALUE" "package_info_mapping_check_key (p_pv p) = VALUE"
    "package_info_mapping_check_key (p_srcrev p) = VALUE" "package_info_mapping_check_key (p_src_url p) = VALUE"
    "package_info_mapping_check_key (p_type p) = VALUE"
    using ok by (simp_all add: package_ok_def)
  have run: "\<not> returned l" and count: "record_count l = ?n * length bs + length ps" and less: "length ps < ?n"
    and txn: "pkg_txn l = (if ps = [] then None else Some ps)"
    using at by (simp_all add: loader_at_def)
  have "record_count l mod ?n = 0 \<longleftrightarrow> ps = []" using less by (simp add: count)
  then have v1: "value_event (\<lambda>_. True) cok (p_name p) (l\<lparr>current_state := PKG\<rparr>) = Inr (?l PKG ?r1)"
    by (auto simp: value_event_def txn txn_create_def package_insert_def)
  have v2: "value_event (\<lambda>_. True) cok (p_pv p) ((?l PKG ?r1)\<lparr>current_state := PV\<rparr>) = Inr (?l PV ?r2)"
    by (simp add: value_event_def set_column_def upd_nth_last)
  have v3: "value_event (\<lambda>_. True) cok (p_srcrev p) ((?l PV ?r2)\<lparr>current_state := SRCREV\<rparr>) = Inr (?l SRCREV ?r3)"
    by (simp add: value_event_def set_column_def upd_nth_last strcmp_eq)
  have v4: "value_event (\<lambda>_. True) cok (p_src_url p) ((?l SRCREV ?r3)\<lparr>current_state := SRC_URL\<rparr>) = Inr (?l SRC_URL ?r4)"
    by (simp add: value_event_def set_column_def upd_nth_last)
  have row: "?r4\<lparr>pkg_src_type := Some (p_type p)\<rparr> = package_row p"
    by (simp add: package_row_def package_info_fresh_def)
  have v5: "value_event (\<lambda>_. True) cok (p_type p) ((?l SRC_URL ?r4)\<lparr>current_state := TYPE_KEY\<rparr>) = Inr l'"
    using row room count by (simp add: value_event_def set_column_def upd_nth_last l'_def txn_commit_def)
  have run': "\<not> returned l'" "\<And>k r. \<not> returned (?l k r)" using run by (simp_all add: l'_def)
  let ?loop = "package_loop (\<lambda>_. True) cok"
  note c = loop_column [where iok = "\<lambda>_. True" and cok = cok]
  have "?loop (package_events p @ es) l =
      ?loop (Scalar ''PV'' # Scalar (p_pv p) # Scalar ''SRCREV'' # Scalar (p_srcrev p) # Scalar ''SRC_URL'' #
        Scalar (p_src_url p) # Scalar ''TYPE'' # Scalar (p_type p) # Other_Event # es) (?l PKG ?r1)"
    by (simp only: package_events_def append_Cons append_Nil loop_other [OF run])
       (rule c [OF keys(1) _ kv(1) run v1 run'(2)]; simp)
  also have "\<dots> = ?loop (Scalar ''SRCREV'' # Scalar (p_srcrev p) # Scalar ''SRC_URL'' #
        Scalar (p_src_url p) # Scalar ''TYPE'' # Scalar (p_type p) # Other_Event # es) (?l PV ?r2)"
    by (rule c [OF keys(2) _ kv(2) run'(2) v2 run'(2)]) simp
  also have "\<dots> = ?loop (Scalar ''SRC_URL'' #
        Scalar (p_src_url p) # Scalar ''TYPE'' # Scalar (p_type p) # Other_Event # es) (?l SRCREV ?r3)"
    by (rule c [OF keys(3) _ kv(3) run'(2) v3 run'(2)]) simp
  also have "\<dots> = ?loop (Scalar ''TYPE'' # Scalar (p_type p) # Other_Event # es) (?l SRC_URL ?r4)"
    by (rule c [OF keys(4) _ kv(4) run'(2) v4 run'(2)]) simp
  also have "\<dots> = ?loop (Other_Event # es) l'"
    by (rule c [OF keys(5) _ kv(5) run'(2) v5 run'(1)]) simp
  also have "\<dots> = ?loop es l'" by (rule loop_other [OF run'(1)])
  finally have "?loop (package_events p @ es) l = ?loop es l'" .
  moreover have "loader_at cok (add_to_batch ?n (package_row p) (bs, ps)) l'"
  proof (cases "length ps + 1 = ?n")
    case True
    then have "Suc (record_count l) = ?n * Suc (length bs)" using count by simp
    then have "Suc (record_count l) mod ?n = 0" by (simp only: mod_mult_self1_is_0)
    then show ?thesis
      using True at by (simp add: loader_at_def add_to_batch_def l'_def accepted_snoc)
  next
    case False
    have "Suc (record_count l) = ?n * length bs + Suc (length ps)" and "Suc (length ps) < ?n"
      using False count less by simp_all
    then have "Suc (record_count l) mod ?n \<noteq> 0" by (simp only: mod_mult_self4 mod_less)
    then show ?thesis
      using False at less by (simp add: loader_at_def add_to_batch_def l'_def)
  qed
  ultimately show ?thesis by blast
qed

definition batched :: "'a list list \<times> 'a list \<Rightarrow> nat" where
  "batched b = PKG_INFO_ENTRIES_PER_COMMIT * length (fst b) + length (snd b)"

lemma batched_add: "batched (add_to_batch PKG_INFO_ENTRIES_PER_COMMIT x b) = Suc (batched b)"
  by (cases b) (auto simp: batched_def add_to_batch_def)

lemma loop_packages:
  "loader_at cok b l \<Longrightarrow> \<forall>p \<in> set ps. package_ok p \<Longrightarrow> batched b + length ps \<le> INT_MAX \<Longrightarrow>
   \<exists>l'. package_loop (\<lambda>_. True) cok (concat (map package_events ps) @ es) l = package_loop (\<lambda>_. True) cok es l'
     \<and> loader_at cok (fold (add_to_batch PKG_INFO_ENTRIES_PER_COMMIT) (map package_row ps) b) l'"
proof (induction ps arbitrary: b l)
  case (Cons p ps)
  obtain bs rs where b: "b = (bs, rs)" by (cases b)
  obtain l1 where l1: "package_loop (\<lambda>_. True) cok (package_events p @ concat (map package_events ps) @ es) l
      = package_loop (\<lambda>_. True) cok (concat (map package_events ps) @ es) l1"
    "loader_at cok (add_to_batch PKG_INFO_ENTRIES_PER_COMMIT (package_row p) b) l1"
    using loop_package [of cok bs rs l p "concat (map package_events ps) @ es"] Cons.prems b
    by (auto simp: batched_def)
  from Cons.IH [OF l1(2)] Cons.prems(2,3) l1(1) show ?case by (simp add: batched_add)
qed auto

text \<open>
  C9. Loading a file that lists packages in the usual form, however many up to the range of the
  counter (an \<open>int\<close>), stores them in the order of the file in transactions of 2000 packages, the last one with the rest: the table
  gets the packages of exactly those transactions that the server accepts, each with its name,
  its source address and type, and as its version the source revision, or the package version
  where the revision is INVALID. The loader ends without a fault.
\<close>

theorem package_info_loaded:
  assumes "\<forall>p \<in> set ps. package_ok p" and "length ps \<le> INT_MAX"
  shows "sysd_add_package_info True (\<lambda>_. True) cok
      (Some (concat (map package_events ps) @ [Stream_End])) db =
    Inr (db\<lparr>db_package_info := db_package_info db @ accepted cok (chunks 2000 (map package_row ps))\<rparr>)"
proof -
  let ?n = PKG_INFO_ENTRIES_PER_COMMIT
  have n: "0 < ?n" by (simp add: PKG_INFO_ENTRIES_PER_COMMIT_def)
  have init: "loader_at cok ([], []) loader_init" using n by (simp add: loader_at_def loader_init_def)
  have "batched ([] :: package_info_row list list, []) + length ps \<le> INT_MAX" using assms(2) by (simp add: batched_def)
  from loop_packages [OF init assms(1) this, of "[Stream_End]"] obtain l where
    run: "package_loop (\<lambda>_. True) cok (concat (map package_events ps) @ [Stream_End]) loader_init = Inr l" and
    at: "loader_at cok (fold (add_to_batch ?n) (map package_row ps) ([], [])) l"
    by (auto simp: package_event_def split: if_splits)
  obtain bs rs where b: "fold (add_to_batch ?n) (map package_row ps) ([], []) = (bs, rs)" by fastforce
  have "close_batch (bs, rs) = chunks ?n (map package_row ps)"
    using batches_are_chunks [of "[]" ?n "map package_row ps" "[]"] n b by simp
  then have "(if rs = [] then bs else bs @ [rs]) = chunks 2000 (map package_row ps)"
    by (simp add: close_batch_def PKG_INFO_ENTRIES_PER_COMMIT_def)
  with at b run show ?thesis
    by (cases "rs = []")
       (auto simp: sysd_add_package_info_def loader_at_def txn_commit_def accepted_snoc
         simp del: package_loop.simps dest!: sym [where t = "chunks 2000 (map package_row ps)"])
qed

definition sample_package :: package where
  "sample_package = \<lparr>p_name = ''ops-sysd'', p_pv = ''1.0'', p_srcrev = ''INVALID'',
     p_src_url = ''git'', p_type = ''git''\<rparr>"

theorem package_info_loaded_witness:
  "sysd_add_package_info True (\<lambda>_. True) (\<lambda>_. True)
      (Some (concat (map package_events [sample_package]) @ [Stream_End])) ovsdb_empty =
    Inr (ovsdb_empty\<lparr>db_package_info := [\<lparr>pkg_name = ''ops-sysd'', pkg_version = Some ''1.0'',
       pkg_src_url = Some ''git'', pkg_src_type = Some ''git''\<rparr>]\<rparr>)"
proof -
  have ok: "\<forall>p \<in> set [sample_package]. package_ok p"
    by (simp add: package_ok_def sample_package_def package_info_mapping_check_key_def enum_pkg_key_def)
  have "accepted (\<lambda>_. True) (chunks 2000 (map package_row [sample_package])) = [package_row sample_package]"
    by (simp add: chunks.simps accepted_def enumerate_eq_zip)
  then show ?thesis
    using package_info_loaded [OF ok, of "\<lambda>_. True" ovsdb_empty]
    by (simp add: INT_MAX_def package_row_def sample_package_def ovsdb_empty_def del: package_loop.simps)
qed


end
