(* ===== verification/Main_Loop.thy ===== *)
theory Main_Loop
  imports Configure Package_Info
begin

text \<open>
  The main loop of the daemon, \<open>sysd_run\<close> in \<open>src/sysd_ovsdb_if.c\<close>, with the check that the hardware
  daemons are done and the dump of the daemon's data. One iteration is a step of a state machine
  on the database replica and the daemon's own variables; the database server, the other daemons
  and the outcomes of commits and of the link are in the environment of the step.
\<close>

section \<open>State and environment\<close>

record loop_state =
  database :: ovsdb
  idl_seqno :: "32 word"
  hw_init_done_set :: bool
  localtime :: "string option"
  startup_notified :: bool

text \<open>
  \<open>external\<close> is what the other clients of the database have changed since the last iteration. A
  blocking commit receives such changes too while it waits: \<open>during_commit\<close> are those that arrive
  with the transaction that configures the database or sets cur_hw, \<open>during_load\<close> those that arrive
  with the transactions of the package loader. Each is any function of the database.
  \<open>write_outside_txn\<close> says whether the library accepts a column that is changed while no
  transaction is open.
\<close>

record loop_env =
  external :: "ovsdb \<Rightarrow> ovsdb"
  during_commit :: "ovsdb \<Rightarrow> ovsdb"
  during_load :: "ovsdb \<Rightarrow> ovsdb"
  lock_contended :: bool
  has_lock :: bool
  new_seqno :: "32 word"
  config :: config_env
  configure_commit_ok :: bool
  write_outside_txn :: bool
  hw_commit_ok :: bool
  yaml_parser_ok :: bool
  pkg_insert_ok :: "nat \<Rightarrow> bool"
  pkg_commit_ok :: "nat \<Rightarrow> bool"
  version_detail :: "yaml_event list option"
  unlink_ok :: bool
  symlink_ok :: bool

text \<open>No other client changes anything, neither between the iterations nor in the middle of one.\<close>

definition quiet :: "loop_env \<Rightarrow> bool" where
  "quiet e \<longleftrightarrow> external e = id \<and> during_commit e = id \<and> during_load e = id"

text \<open>The server refuses a transaction that leaves a dangling reference or a second system row.\<close>

definition server_accepts :: "ovsdb \<Rightarrow> bool" where
  "server_accepts db \<longleftrightarrow> refs_ok db \<and> length (db_system db) \<le> 1"

definition ovsdb_idl_run :: "(ovsdb \<Rightarrow> ovsdb) \<Rightarrow> ovsdb \<Rightarrow> ovsdb" where
  "ovsdb_idl_run ext db = (if server_accepts (ext db) then ext db else db)"

lemma ovsdb_idl_run_id [simp]: "ovsdb_idl_run id db = db"
  by (simp add: ovsdb_idl_run_def)

lemma ovsdb_idl_run_accepts: "server_accepts db \<Longrightarrow> server_accepts (ovsdb_idl_run ext db)"
  by (simp add: ovsdb_idl_run_def)

section \<open>Hardware daemons\<close>

definition sysd_set_hw_done :: "bool \<Rightarrow> loop_state \<Rightarrow> loop_state" where
  "sysd_set_hw_done commit_ok st =
     (let db = database st;
          db' = db\<lparr>db_system := map (\<lambda>s. s\<lparr>sys_cur_hw := 1, sys_next_hw := 1\<rparr>) (db_system db)\<rparr>
      in st\<lparr>database := (if commit_ok then db' else db), hw_init_done_set := True\<rparr>)"

text \<open>
  The row that the inner loop stops at: the first row of a hardware daemon whose name begins with
  the name in the manifest.
\<close>

definition matching_row :: "daemon_info \<Rightarrow> daemon_row list \<Rightarrow> daemon_row option" where
  "matching_row d rows =
     List.find (\<lambda>r. dr_is_hw_handler r \<and> strncmp (daemon_name d) (dr_name r) (length (daemon_name d)) = 0) rows"

text \<open>The outer loop: \<open>None\<close> when it meets a daemon that is not done, otherwise the number found.\<close>

fun count_done :: "daemon_row list \<Rightarrow> daemon_info list \<Rightarrow> nat \<Rightarrow> nat option" where
  "count_done rows [] num_found = Some num_found"
| "count_done rows (d # ds) num_found =
     (if is_hw_handler d then
        (case matching_row d rows of
           None \<Rightarrow> count_done rows ds num_found
         | Some r \<Rightarrow> if dr_cur_hw r > 0 then count_done rows ds (Suc num_found) else None)
      else count_done rows ds num_found)"

definition sysd_chk_if_hw_daemons_done :: "manifest \<Rightarrow> bool \<Rightarrow> loop_state \<Rightarrow> loop_state" where
  "sysd_chk_if_hw_daemons_done m commit_ok st =
     (if num_hw_daemons m \<le> 0 then sysd_set_hw_done commit_ok st
      else case count_done (db_daemon (database st)) (daemons m) 0 of
        None \<Rightarrow> st
      | Some num_found \<Rightarrow> if num_found = 0 then st else sysd_set_hw_done commit_ok st)"

section \<open>One iteration\<close>

definition update_sw_info_outside :: "loop_env \<Rightarrow> ovsdb \<Rightarrow> ovsdb run" where
  "update_sw_info_outside e db =
     (let db' = sysd_update_sw_info (ce_os_release (config e)) 0 db
      in if db' = db \<or> write_outside_txn e then Inr db' else Inl Null_Dereference)"

text \<open>The replica when a blocking commit returns.\<close>

definition meanwhile :: "(ovsdb \<Rightarrow> ovsdb) \<Rightarrow> loop_state \<Rightarrow> loop_state" where
  "meanwhile ext st = st\<lparr>database := ovsdb_idl_run ext (database st)\<rparr>"

lemma meanwhile_simps [simp]:
  "database (meanwhile ext st) = ovsdb_idl_run ext (database st)" "idl_seqno (meanwhile ext st) = idl_seqno st"
  "hw_init_done_set (meanwhile ext st) = hw_init_done_set st" "localtime (meanwhile ext st) = localtime st"
  "startup_notified (meanwhile ext st) = startup_notified st" "meanwhile id st = st"
  by (simp_all add: meanwhile_def)

text \<open>The first iteration configures the database; the later ones check on the hardware daemons.\<close>

definition run_system :: "loop_env \<Rightarrow> loop_state \<Rightarrow> loop_state run" where
  "run_system e st =
     (if db_system (database st) = [] then
        and_then (sysd_initial_configure (config e) (database st)) (\<lambda>db'.
          Inr (meanwhile (during_commit e) (if configure_commit_ok e then st\<lparr>database := db'\<rparr> else st)))
      else
        and_then (update_sw_info_outside e (database st)) (\<lambda>db'.
          let st' = st\<lparr>database := db'\<rparr>
          in if hw_init_done_set st' then Inr st'
             else
               (let st'' = sysd_chk_if_hw_daemons_done (ce_manifest (config e)) (hw_commit_ok e) st'
                in Inr (if hw_init_done_set st'' then meanwhile (during_commit e) st'' else st''))))"

definition run_packages :: "loop_env \<Rightarrow> loop_state \<Rightarrow> loop_state run" where
  "run_packages e st =
     (if db_package_info (database st) = [] then
        and_then (sysd_add_package_info (yaml_parser_ok e) (pkg_insert_ok e) (pkg_commit_ok e) (version_detail e)
                    (database st)) (\<lambda>db'. Inr (meanwhile (during_load e) (st\<lparr>database := db'\<rparr>)))
      else Inr st)"

definition run_timezone :: "loop_env \<Rightarrow> loop_state \<Rightarrow> loop_state run" where
  "run_timezone e st =
     and_then (sysd_handle_timezone_update (database st) (unlink_ok e) (symlink_ok e) (localtime st)) (\<lambda>l.
       Inr (st\<lparr>localtime := l\<rparr>))"

definition sysd_run :: "loop_env \<Rightarrow> loop_state \<Rightarrow> loop_state run" where
  "sysd_run e st0 =
     (let st = st0\<lparr>database := ovsdb_idl_run (external e) (database st0)\<rparr>
      in if lock_contended e then Inr st
         else if \<not> has_lock e then Inr st
         else
           and_then (if new_seqno e \<noteq> idl_seqno st
                     then and_then (run_system e (st\<lparr>idl_seqno := new_seqno e\<rparr>)) (\<lambda>st1.
                          and_then (run_packages e st1) (run_timezone e))
                     else Inr st) (\<lambda>st'.
             Inr (st'\<lparr>startup_notified := True\<rparr>)))"

text \<open>The loader takes the file of packages without a fault.\<close>

definition loads_packages :: "loop_env \<Rightarrow> bool" where
  "loads_packages e \<longleftrightarrow> package_load_ok (yaml_parser_ok e) (pkg_insert_ok e) (pkg_commit_ok e) (version_detail e)"

section \<open>The dump\<close>

text \<open>
  The header is copied without a bound; every later piece is appended with the rest of the buffer
  as its bound, which also limits how far the name of the management interface is read. Only as many
  daemons are listed as there are hardware daemons.
\<close>

definition append_piece :: "nat \<Rightarrow> string \<Rightarrow> string \<Rightarrow> string" where
  "append_piece buflen piece buf = strncat buf piece (buflen - 1 - length buf)"

definition nl :: string where "nl = [CHR 0x0A]"
definition tabs :: string where "tabs = [CHR 0x09, CHR 0x09, CHR 0x09]"
definition dump_header :: string where
  "dump_header = ''=============== Daemon Info ========================='' @ nl"
definition dump_columns :: string where
  "dump_columns = ''Name'' @ tabs @ ''is_hw_handler'' @ tabs @ ''cur_hw'' @ nl"
definition dump_mgmt_header :: string where
  "dump_mgmt_header = ''=============== Mgmt_intf Info =========================='' @ nl"

fun dump_daemons :: "nat \<Rightarrow> nat \<Rightarrow> daemon_info list \<Rightarrow> string \<Rightarrow> string run" where
  "dump_daemons buflen 0 ds buf = Inr buf"
| "dump_daemons buflen (Suc n) [] buf = Inl Out_Of_Bounds_Read"
| "dump_daemons buflen (Suc n) (d # ds) buf =
     dump_daemons buflen n ds
       (append_piece buflen nl (append_piece buflen (show_d (cur_hw d)) (append_piece buflen tabs
         (append_piece buflen (if is_hw_handler d then ''1'' else ''0'') (append_piece buflen tabs
         (append_piece buflen (daemon_name d) buf))))))"

definition sysd_dump :: "manifest \<Rightarrow> nat \<Rightarrow> string run" where
  "sysd_dump m buflen =
     (if buflen \<le> length dump_header then Inl Out_Of_Bounds_Write
      else
        and_then (dump_daemons buflen (nat (num_hw_daemons m)) (daemons m)
                    (append_piece buflen dump_columns dump_header)) (\<lambda>buf.
          let buf' = append_piece buflen dump_mgmt_header buf
          in case mgmt_intf m of
               None \<Rightarrow> Inl Null_Dereference
             | Some arr \<Rightarrow>
                 and_then (c_string_upto (buflen - 1 - length buf') arr) (\<lambda>nm.
                   Inr (append_piece buflen nl (append_piece buflen nm buf')))))"

section \<open>The dump is a prefix\<close>

definition daemon_line :: "daemon_info \<Rightarrow> string" where
  "daemon_line d = daemon_name d @ tabs @ (if is_hw_handler d then ''1'' else ''0'') @ tabs @ show_d (cur_hw d) @ nl"

lemma append_piece_prefix:
  "0 < n \<Longrightarrow> append_piece n p (take (n - 1) buf) = take (n - 1) (buf @ p)"
  by (simp add: append_piece_def strncat_def min_def)

lemma dump_daemons_prefix:
  "0 < n \<Longrightarrow> k \<le> length ds \<Longrightarrow>
   dump_daemons n k ds (take (n - 1) buf) = Inr (take (n - 1) (buf @ concat (map daemon_line (take k ds))))"
proof (induction k arbitrary: ds buf)
  case (Suc k)
  then obtain e es where ds: "ds = e # es" by (cases ds) auto
  have "dump_daemons n (Suc k) ds (take (n - 1) buf) = dump_daemons n k es (take (n - 1) (buf @ daemon_line e))"
    using Suc.prems(1)
    by (simp add: ds append_piece_prefix daemon_line_def del: One_nat_def take_append)
  also have "\<dots> = Inr (take (n - 1) ((buf @ daemon_line e) @ concat (map daemon_line (take k es))))"
    using Suc.prems ds by (intro Suc.IH) simp_all
  finally show ?case by (simp add: ds del: One_nat_def take_append)
qed simp

section \<open>Hardware daemons, all of them or some of them\<close>

lemma count_done_result:
  "count_done rows ds n =
     (if list_all (\<lambda>d. is_hw_handler d \<longrightarrow> (case matching_row d rows of None \<Rightarrow> True | Some r \<Rightarrow> dr_cur_hw r > 0)) ds
      then Some (n + length (filter (\<lambda>d. is_hw_handler d \<and> matching_row d rows \<noteq> None) ds)) else None)"
  by (induction ds arbitrary: n) (auto split: option.split)

definition hw_daemons_done :: "manifest \<Rightarrow> daemon_row list \<Rightarrow> bool" where
  "hw_daemons_done m rows \<longleftrightarrow> num_hw_daemons m \<le> 0 \<or>
     (list_all (\<lambda>d. is_hw_handler d \<longrightarrow> (case matching_row d rows of None \<Rightarrow> True | Some r \<Rightarrow> dr_cur_hw r > 0)) (daemons m) \<and>
      list_ex (\<lambda>d. is_hw_handler d \<and> matching_row d rows \<noteq> None) (daemons m))"

lemma chk_if_done:
  "sysd_chk_if_hw_daemons_done m ok st =
     (if hw_daemons_done m (db_daemon (database st)) then sysd_set_hw_done ok st else st)"
proof -
  have "length (filter P ds) = 0 \<longleftrightarrow> \<not> list_ex P ds" for P and ds :: "daemon_info list"
    by (induction ds) auto
  then show ?thesis
    unfolding sysd_chk_if_hw_daemons_done_def count_done_result hw_daemons_done_def by simp
qed
section \<open>What an iteration keeps\<close>

lemma refs_ok_packages [simp]: "refs_ok (db\<lparr>db_package_info := x\<rparr>) = refs_ok db"
proof -
  have "system_refs (db\<lparr>db_package_info := x\<rparr>) = system_refs db"
    "interface_refs (db\<lparr>db_package_info := x\<rparr>) = interface_refs db"
    by (simp_all add: fun_eq_iff system_refs_def interface_refs_def split: option.split)
  then show ?thesis by (simp add: refs_ok_def)
qed

lemma add_package_info_only:
  "sysd_add_package_info a b c d db = Inr db' \<Longrightarrow> \<exists>x. db' = db\<lparr>db_package_info := x\<rparr>"
proof -
  have self: "\<exists>x. d = d\<lparr>db_package_info := x\<rparr>" for d :: ovsdb
    by (rule exI [of _ "db_package_info d"]) simp
  assume "sysd_add_package_info a b c d db = Inr db'"
  then show ?thesis
    by (auto simp: sysd_add_package_info_def and_then_eq_Inr intro: self split: if_splits option.splits)
qed

lemma set_hw_done_accepts:
  assumes "server_accepts (database st)"
  shows "server_accepts (database (sysd_set_hw_done ok st))"
proof -
  let ?db = "(database st)\<lparr>db_system := map (\<lambda>s. s\<lparr>sys_cur_hw := 1, sys_next_hw := 1\<rparr>) (db_system (database st))\<rparr>"
  have "system_refs ?db s = system_refs (database st) s" "interface_refs ?db = interface_refs (database st)"
    "system_refs (database st) (s\<lparr>sys_cur_hw := 1, sys_next_hw := 1\<rparr>) = system_refs (database st) s" for s
    by (simp_all add: fun_eq_iff system_refs_def interface_refs_def split: option.split)
  then have "refs_ok ?db = refs_ok (database st)" by (simp add: refs_ok_def list_all_iff)
  then show ?thesis using assms by (simp add: sysd_set_hw_done_def server_accepts_def Let_def)
qed

lemma set_hw_done_simps [simp]:
  "hw_init_done_set (sysd_set_hw_done ok st) = True" "localtime (sysd_set_hw_done ok st) = localtime st"
  "idl_seqno (sysd_set_hw_done ok st) = idl_seqno st" "startup_notified (sysd_set_hw_done ok st) = startup_notified st"
  by (simp_all add: sysd_set_hw_done_def Let_def)

text \<open>The two branches of an iteration on the system row.\<close>

lemma run_system_row:
  assumes "db_system (database st) \<noteq> []" and "run_system e st = Inr st'"
  shows "\<exists>db'. update_sw_info_outside e (database st) = Inr db' \<and>
    st' = (if \<not> hw_init_done_set st \<and> hw_daemons_done (ce_manifest (config e)) (db_daemon db')
      then meanwhile (during_commit e) (sysd_set_hw_done (hw_commit_ok e) (st\<lparr>database := db'\<rparr>))
      else st\<lparr>database := db'\<rparr>)"
  using assms by (auto simp: run_system_def and_then_eq_Inr Let_def chk_if_done split: if_splits)

lemma run_system_no_row:
  assumes "db_system (database st) = []" and "run_system e st = Inr st'"
  shows "\<exists>db'. sysd_initial_configure (config e) (database st) = Inr db' \<and>
    st' = meanwhile (during_commit e) (st\<lparr>database := (if configure_commit_ok e then db' else database st)\<rparr>)"
  using assms by (auto simp: run_system_def and_then_eq_Inr)

lemma configure_accepts:
  "server_accepts db \<Longrightarrow> sysd_initial_configure env db = Inr db' \<Longrightarrow> db_system db = [] \<Longrightarrow> server_accepts db'"
  using configure_safe [of db env db'] by (simp add: server_accepts_def)

lemma packages_accept: "server_accepts (db\<lparr>db_package_info := x\<rparr>) = server_accepts db"
  by (simp add: server_accepts_def)

lemma run_system_accepts:
  assumes "server_accepts (database st)" and "run_system e st = Inr st'"
  shows "server_accepts (database st')"
proof (cases "db_system (database st) = []")
  case True
  then show ?thesis
    using run_system_no_row [OF True assms(2)] assms(1) configure_accepts [of "database st" "config e"] True
    by (auto intro!: ovsdb_idl_run_accepts)
next
  case False
  from run_system_row [OF False assms(2)] obtain db' where db': "update_sw_info_outside e (database st) = Inr db'"
    and st': "st' = (if \<not> hw_init_done_set st \<and> hw_daemons_done (ce_manifest (config e)) (db_daemon db')
       then meanwhile (during_commit e) (sysd_set_hw_done (hw_commit_ok e) (st\<lparr>database := db'\<rparr>))
       else st\<lparr>database := db'\<rparr>)" by blast
  have "safe_step (database st) db'"
    using db' safe_sw_info by (auto simp: update_sw_info_outside_def Let_def split: if_splits)
  then have "server_accepts db'" using assms(1) by (auto simp: server_accepts_def safe_step_def grows_def)
  then show ?thesis by (simp add: st' set_hw_done_accepts ovsdb_idl_run_accepts)
qed

lemma sysd_run_accepts:
  assumes "server_accepts (database st)" and "sysd_run e st = Inr st'"
  shows "server_accepts (database st')"
proof -
  have idl: "server_accepts (ovsdb_idl_run (external e) (database st))"
    using assms(1) by (simp add: ovsdb_idl_run_def)
  have packages: "server_accepts (database st2)" if "run_packages e st1 = Inr st2" "server_accepts (database st1)" for st1 st2
    using that
    by (auto simp: run_packages_def and_then_eq_Inr packages_accept dest!: add_package_info_only
        intro!: ovsdb_idl_run_accepts split: if_splits)
  have zone: "database st3 = database st2" if "run_timezone e st2 = Inr st3" for st2 st3
    using that by (auto simp: run_timezone_def and_then_eq_Inr)
  have body: "server_accepts (database st3)"
    if "run_system e st0 = Inr st1" and "run_packages e st1 = Inr st2" and "run_timezone e st2 = Inr st3"
      and "server_accepts (database st0)" for st0 st1 st2 st3
    using run_system_accepts [OF that(4,1)] packages [OF that(2)] zone [OF that(3)] by simp
  show ?thesis
    using assms(2) idl body [of "st\<lparr>database := ovsdb_idl_run (external e) (database st), idl_seqno := new_seqno e\<rparr>"]
    by (auto simp: sysd_run_def Let_def and_then_eq_Inr split: if_splits)
qed

definition loop_inv :: "loop_state run \<Rightarrow> bool" where
  "loop_inv m \<longleftrightarrow> (case m of Inl _ \<Rightarrow> True | Inr st \<Rightarrow> server_accepts (database st))"

definition loop_step :: "loop_env \<Rightarrow> loop_state run \<Rightarrow> loop_state run" where
  "loop_step e m = and_then m (sysd_run e)"

interpretation main_loop: state_machine "\<lambda>m. \<exists>st. m = Inr st \<and> server_accepts (database st)" loop_step loop_inv
proof unfold_locales
  fix s :: "loop_state run" assume "\<exists>st. s = Inr st \<and> server_accepts (database st)"
  then show "loop_inv s" by (auto simp: loop_inv_def)
next
  fix s e assume "loop_inv s"
  then show "loop_inv (loop_step e s)"
    by (auto simp: loop_inv_def loop_step_def intro: sysd_run_accepts split: sum.splits)
qed

section \<open>Properties of the main loop\<close>

lemma loop_step_Inl: "fold loop_step es (Inl x) = Inl x"
  by (induction es) (simp_all add: loop_step_def)

text \<open>The daemon's flag after the parts of an iteration.\<close>

lemma run_tail_flag:
  "run_packages e st = Inr st1 \<Longrightarrow> hw_init_done_set st1 = hw_init_done_set st"
  "run_timezone e st = Inr st1 \<Longrightarrow> hw_init_done_set st1 = hw_init_done_set st"
  by (auto simp: run_packages_def run_timezone_def and_then_eq_Inr split: if_splits)

lemma update_sw_info_daemons:
  assumes "update_sw_info_outside e db = Inr db'"
  shows "db_daemon db' = db_daemon db \<and> length (db_system db') = length (db_system db)"
  using assms by (auto simp: update_sw_info_outside_def sysd_update_sw_info_def Let_def split: if_splits option.splits)

lemma run_system_flag:
  assumes "run_system e st = Inr st'"
  shows "hw_init_done_set st' \<longleftrightarrow> hw_init_done_set st \<or>
    db_system (database st) \<noteq> [] \<and> hw_daemons_done (ce_manifest (config e)) (db_daemon (database st))"
proof (cases "db_system (database st) = []")
  case True
  then show ?thesis using run_system_no_row [OF True assms] by auto
next
  case False
  from run_system_row [OF False assms] obtain db' where "update_sw_info_outside e (database st) = Inr db'"
    and "st' = (if \<not> hw_init_done_set st \<and> hw_daemons_done (ce_manifest (config e)) (db_daemon db')
      then meanwhile (during_commit e) (sysd_set_hw_done (hw_commit_ok e) (st\<lparr>database := db'\<rparr>))
      else st\<lparr>database := db'\<rparr>)" by blast
  with False show ?thesis using update_sw_info_daemons [of e "database st" db'] by auto
qed

text \<open>
  A concrete loop for the witnesses: a database with one system row, a manifest without hardware
  daemons, no changes by others, and an iteration that holds the lock and sees a new version.
\<close>

definition sample_loop :: loop_state where
  "sample_loop = \<lparr>database = ovsdb_empty\<lparr>db_system := [system_fresh]\<rparr>, idl_seqno = 0, hw_init_done_set = False,
     localtime = None, startup_notified = False\<rparr>"

definition sample_loop_env :: loop_env where
  "sample_loop_env = \<lparr>external = id, during_commit = id, during_load = id, lock_contended = False, has_lock = True, new_seqno = 1, config = sample_env,
     configure_commit_ok = True, write_outside_txn = False, hw_commit_ok = True, yaml_parser_ok = False,
     pkg_insert_ok = (\<lambda>_. True), pkg_commit_ok = (\<lambda>_. True), version_detail = None, unlink_ok = True, symlink_ok = True\<rparr>"

lemma sample_loop_accepts: "server_accepts (database sample_loop)"
  by (simp add: server_accepts_def refs_ok_def sample_loop_def ovsdb_empty_def system_fresh_def system_refs_def
      interface_refs_def)

definition sample_loop_result :: "loop_state" where
  "sample_loop_result = sample_loop\<lparr>database := ovsdb_empty\<lparr>db_system := [system_fresh\<lparr>sys_cur_hw := 1, sys_next_hw := 1\<rparr>]\<rparr>,
     idl_seqno := 1, hw_init_done_set := True, localtime := Some ZONEINFO_BASE, startup_notified := True\<rparr>"

lemma sample_run: "sysd_run sample_loop_env sample_loop = Inr sample_loop_result"
  by (simp add: sysd_run_def Let_def sample_loop_env_def sample_loop_def ovsdb_idl_run_def run_system_def
      update_sw_info_outside_def sysd_update_sw_info_def sample_env_def sysd_chk_if_hw_daemons_done_def
      manifest_init_def sysd_set_hw_done_def run_packages_def sysd_add_package_info_def run_timezone_def
      sysd_handle_timezone_update_def ovsdb_empty_def system_fresh_def
      TIMEZONE_CMD_SIZE_def ZONEINFO_BASE_def sample_loop_result_def)

text \<open>
  C4. In a run of the main loop of any length, whatever the other clients of the database do (between
  the iterations and during the commits) and whichever commits fail, every state has an intact
  database with at most one system row at a time: the daemon never adds a row to one that is there,
  though it configures the system again when another client has deleted the row. And the record
  that the hardware initialisation is done is never taken back.
\<close>

theorem main_loop_safe:
  assumes "server_accepts (database st)" and "fold loop_step es (Inr st) = Inr st'"
  shows "server_accepts (database st') \<and> (hw_init_done_set st \<longrightarrow> hw_init_done_set st')"
proof -
  let ?flag = "\<lambda>m. case m of Inl _ \<Rightarrow> True | Inr t \<Rightarrow> hw_init_done_set st \<longrightarrow> hw_init_done_set t"
  have "loop_inv (fold loop_step es (Inr st))" by (rule main_loop.run_inv) (use assms(1) in blast)
  moreover have "?flag (fold loop_step es (Inr st))"
  proof (rule main_loop.fold_monotone)
    fix e m assume "loop_inv m" and "?flag m"
    then show "?flag (loop_step e m)"
      by (auto simp: loop_step_def sysd_run_def Let_def and_then_eq_Inr run_system_flag run_tail_flag
          split: sum.splits if_splits)
  qed (use assms(1) in \<open>simp_all add: loop_inv_def\<close>)
  ultimately show ?thesis using assms(2) by (simp add: loop_inv_def)
qed

theorem main_loop_safe_witness:
  "\<exists>st'. fold loop_step [sample_loop_env] (Inr sample_loop) = Inr st' \<and> server_accepts (database st') \<and>
     map sys_cur_hw (db_system (database st')) = [1] \<and> hw_init_done_set st'"
proof -
  have run: "fold loop_step [sample_loop_env] (Inr sample_loop) = Inr sample_loop_result"
    by (simp add: loop_step_def sample_run)
  from main_loop_safe [OF sample_loop_accepts run] have "server_accepts (database sample_loop_result)" ..
  with run show ?thesis by (intro exI [of _ sample_loop_result]) (simp add: sample_loop_result_def)
qed

text \<open>
  One iteration declares the hardware initialisation done exactly when it holds the lock, it
  sees a new version of a database that already has a system row, and the hardware daemons are
  done: the manifest names none, or at least one of them has a row and none of those that have
  one is still at cur_hw = 0.
\<close>

lemma hw_done_declared:
  assumes "sysd_run e st = Inr st'" and "\<not> hw_init_done_set st"
  shows "hw_init_done_set st' \<longleftrightarrow>
    \<not> lock_contended e \<and> has_lock e \<and> new_seqno e \<noteq> idl_seqno st \<and>
    db_system (ovsdb_idl_run (external e) (database st)) \<noteq> [] \<and>
    hw_daemons_done (ce_manifest (config e)) (db_daemon (ovsdb_idl_run (external e) (database st)))"
  using assms
  by (auto simp: sysd_run_def Let_def and_then_eq_Inr run_system_flag run_tail_flag split: if_splits)

theorem hw_done_declared_witness:
  "hw_init_done_set sample_loop_result \<and> hw_daemons_done (ce_manifest sample_env) []"
  using hw_done_declared [OF sample_run]
  by (simp add: sample_loop_def sample_loop_result_def sample_loop_env_def ovsdb_idl_run_def ovsdb_empty_def id_def)

lemma run_system_done:
  assumes "hw_init_done_set st" and "db_system (database st) \<noteq> []" and "run_system e st = Inr st'"
  shows "hw_init_done_set st'" and "map sys_cur_hw (db_system (database st')) = map sys_cur_hw (db_system (database st))"
proof -
  from run_system_row [OF assms(2,3)] assms(1)
  obtain db' where db': "update_sw_info_outside e (database st) = Inr db'" and st': "st' = st\<lparr>database := db'\<rparr>" by auto
  show "hw_init_done_set st'" using st' assms(1) by simp
  have "map sys_cur_hw (db_system (sysd_update_sw_info f i db)) = map sys_cur_hw (db_system db)" for f i db
    by (simp add: sysd_update_sw_info_def Let_def map_upd_nth_field split: option.split)
  then show "map sys_cur_hw (db_system (database st')) = map sys_cur_hw (db_system (database st))"
    using db' by (auto simp: st' update_sw_info_outside_def Let_def split: if_splits)
qed

lemma run_keeps_cur_hw:
  assumes "hw_init_done_set st" and "db_system (database st) \<noteq> []" and "quiet e" and "sysd_run e st = Inr st'"
  shows "hw_init_done_set st'" and "map sys_cur_hw (db_system (database st')) = map sys_cur_hw (db_system (database st))"
proof -
  have packages: "db_system (database st2) = db_system (database st1)" if "run_packages e st1 = Inr st2" for st1 st2
    using that assms(3)
    by (auto simp: quiet_def run_packages_def and_then_eq_Inr dest!: add_package_info_only split: if_splits)
  have zone: "database st2 = database st1" if "run_timezone e st1 = Inr st2" for st1 st2
    using that by (auto simp: run_timezone_def and_then_eq_Inr)
  let ?st = "st\<lparr>idl_seqno := new_seqno e\<rparr>"
  have idl: "st\<lparr>database := ovsdb_idl_run (external e) (database st)\<rparr> = st"
    using assms(3) by (simp add: quiet_def)
  consider "database st' = database st" "hw_init_done_set st' = hw_init_done_set st"
    | st1 st2 st3 where "run_system e ?st = Inr st1" "run_packages e st1 = Inr st2" "run_timezone e st2 = Inr st3"
      "st' = st3\<lparr>startup_notified := True\<rparr>"
    using assms(4) unfolding sysd_run_def Let_def idl by (auto simp: and_then_eq_Inr split: if_splits)
  then have "hw_init_done_set st' \<and> map sys_cur_hw (db_system (database st')) = map sys_cur_hw (db_system (database st))"
  proof cases
    case 1
    then show ?thesis using assms(1) by simp
  next
    case 2
    have "hw_init_done_set st1" and "map sys_cur_hw (db_system (database st1)) = map sys_cur_hw (db_system (database st))"
      using run_system_done [OF _ _ 2(1)] assms(1,2) by simp_all
    moreover have "database st' = database st2" "hw_init_done_set st' = hw_init_done_set st1"
      using zone [OF 2(3)] run_tail_flag(2) [OF 2(3)] run_tail_flag(1) [OF 2(2)] 2(4) by simp_all
    ultimately show ?thesis using packages [OF 2(2)] by simp
  qed
  then show "hw_init_done_set st'" and "map sys_cur_hw (db_system (database st')) = map sys_cur_hw (db_system (database st))"
    by simp_all
qed

text \<open>
  C39. When the commit that publishes cur_hw = 1 fails, the daemon records the initialisation as
  done all the same and does not try again: in every later run in which no other client changes the
  database, cur_hw of the system row stays what it was, so that a client that waits for it waits for
  ever.
\<close>

theorem failed_hw_commit_is_final:
  assumes "db_system (database st) \<noteq> []" and "\<forall>e \<in> set es. quiet e"
    and "fold loop_step es (Inr (sysd_set_hw_done False st)) = Inr st'"
  shows "hw_init_done_set st' \<and> map sys_cur_hw (db_system (database st')) = map sys_cur_hw (db_system (database st))"
proof -
  have "hw_init_done_set st' \<and> map sys_cur_hw (db_system (database st')) = map sys_cur_hw (db_system (database t))"
    if "hw_init_done_set t" and "db_system (database t) \<noteq> []" and "fold loop_step es (Inr t) = Inr st'" for t
    using assms(2) that
  proof (induction es arbitrary: t)
    case (Cons e es)
    have ls: "loop_step e (Inr t) = sysd_run e t" by (simp add: loop_step_def)
    have "fold loop_step es (sysd_run e t) = Inr st'" using Cons.prems(4) by (simp add: ls)
    then obtain t' where t': "sysd_run e t = Inr t'"
      by (cases "sysd_run e t") (simp_all add: loop_step_Inl)
    have "quiet e" using Cons.prems(1) by (metis list.set_intros(1))
    note keep = run_keeps_cur_hw [OF Cons.prems(2,3) this t']
    then have "db_system (database t') \<noteq> []" using Cons.prems(3) by auto
    with keep Cons t' show ?case by (simp add: ls)
  qed simp
  from this [of "sysd_set_hw_done False st"] assms show ?thesis by (simp add: sysd_set_hw_done_def Let_def)
qed

theorem failed_hw_commit_is_final_witness:
  "\<exists>st'. fold loop_step [sample_loop_env, sample_loop_env\<lparr>new_seqno := 2\<rparr>]
       (Inr (sysd_set_hw_done False sample_loop)) = Inr st' \<and> idl_seqno st' = 2 \<and> hw_init_done_set st' \<and>
     map sys_cur_hw (db_system (database st')) = [0]"
proof -
  let ?es = "[sample_loop_env, sample_loop_env\<lparr>new_seqno := 2\<rparr>]"
  let ?st = "sample_loop\<lparr>hw_init_done_set := True, localtime := Some ZONEINFO_BASE, idl_seqno := 2, startup_notified := True\<rparr>"
  have run: "fold loop_step ?es (Inr (sysd_set_hw_done False sample_loop)) = Inr ?st"
    by (simp add: loop_step_def sysd_run_def Let_def sample_loop_env_def sample_loop_def run_system_def
      update_sw_info_outside_def sysd_update_sw_info_def sample_env_def
      manifest_init_def sysd_set_hw_done_def run_packages_def sysd_add_package_info_def run_timezone_def
      sysd_handle_timezone_update_def ovsdb_empty_def system_fresh_def
      TIMEZONE_CMD_SIZE_def ZONEINFO_BASE_def ovsdb_idl_run_id [unfolded id_def] meanwhile_simps(6) [unfolded id_def])
  have "\<forall>e \<in> set ?es. quiet e" by (simp add: sample_loop_env_def quiet_def)
  moreover have "db_system (database sample_loop) \<noteq> []" by (simp add: sample_loop_def)
  ultimately have "map sys_cur_hw (db_system (database ?st)) = map sys_cur_hw (db_system (database sample_loop))"
    using failed_hw_commit_is_final [OF _ _ run] by blast
  with run show ?thesis by (intro exI [of _ ?st]) (simp add: sample_loop_def system_fresh_def)
qed

text \<open>The rows of the daemon table as the configuration inserts them, with their current cur_hw.\<close>

definition daemon_rows :: "daemon_info list \<Rightarrow> int list \<Rightarrow> daemon_row list" where
  "daemon_rows ds hs = map (\<lambda>(d, h). \<lparr>dr_name = daemon_name d, dr_cur_hw = h, dr_is_hw_handler = is_hw_handler d\<rparr>) (zip ds hs)"

text \<open>No name of a hardware daemon begins with the name of another one.\<close>

definition prefix_free :: "daemon_info list \<Rightarrow> bool" where
  "prefix_free ds \<longleftrightarrow> list_all (\<lambda>i. list_all (\<lambda>j.
     is_hw_handler (ds ! i) \<and> is_hw_handler (ds ! j) \<and> prefix (daemon_name (ds ! i)) (daemon_name (ds ! j)) \<longrightarrow> i = j)
     [0..<length ds]) [0..<length ds]"

lemma prefix_freeD:
  "prefix_free ds \<Longrightarrow> i < length ds \<Longrightarrow> j < length ds \<Longrightarrow> is_hw_handler (ds ! i) \<Longrightarrow> is_hw_handler (ds ! j) \<Longrightarrow>
   prefix (daemon_name (ds ! i)) (daemon_name (ds ! j)) \<Longrightarrow> i = j"
  by (simp add: prefix_free_def list_all_iff)

lemma nth_daemon_rows:
  "length hs = length ds \<Longrightarrow> i < length ds \<Longrightarrow> daemon_rows ds hs ! i =
     \<lparr>dr_name = daemon_name (ds ! i), dr_cur_hw = hs ! i, dr_is_hw_handler = is_hw_handler (ds ! i)\<rparr>"
  by (simp add: daemon_rows_def)

lemma own_row_matches:
  assumes "prefix_free ds" and "length hs = length ds" and "i < length ds" and "is_hw_handler (ds ! i)"
  shows "matching_row (ds ! i) (daemon_rows ds hs) = Some (daemon_rows ds hs ! i)"
proof -
  have len: "length (daemon_rows ds hs) = length ds" using assms(2) by (simp add: daemon_rows_def)
  have "dr_is_hw_handler (daemon_rows ds hs ! j) \<and>
      strncmp (daemon_name (ds ! i)) (dr_name (daemon_rows ds hs ! j)) (length (daemon_name (ds ! i))) = 0 \<longleftrightarrow> j = i"
    if "j < length ds" for j
    using assms(2-4) that prefix_freeD [OF assms(1), of i j]
    by (auto simp: nth_daemon_rows strncmp_tag_first)
  then show ?thesis
    unfolding matching_row_def find_Some_iff using assms(3) len by (intro exI [of _ i]) auto
qed

lemma hw_check_complete:
  assumes "prefix_free (daemons m)" and "length hs = length (daemons m)"
    and "num_hw_daemons m = int (length (filter is_hw_handler (daemons m)))"
  shows "hw_daemons_done m (daemon_rows (daemons m) hs) \<longleftrightarrow>
    list_all (\<lambda>r. dr_is_hw_handler r \<longrightarrow> dr_cur_hw r > 0) (daemon_rows (daemons m) hs)"
proof -
  let ?ds = "daemons m" and ?rows = "daemon_rows (daemons m) hs"
  have match: "(case matching_row (?ds ! i) ?rows of None \<Rightarrow> True | Some r \<Rightarrow> dr_cur_hw r > 0) \<longleftrightarrow> dr_cur_hw (?rows ! i) > 0"
      "matching_row (?ds ! i) ?rows \<noteq> None"
    if "i < length ?ds" "is_hw_handler (?ds ! i)" for i
    using own_row_matches [OF assms(1,2) that] by simp_all
  have len: "length ?rows = length ?ds" using assms(2) by (simp add: daemon_rows_def)
  have "list_all (\<lambda>d. is_hw_handler d \<longrightarrow> (case matching_row d ?rows of None \<Rightarrow> True | Some r \<Rightarrow> dr_cur_hw r > 0)) ?ds
      \<longleftrightarrow> list_all (\<lambda>r. dr_is_hw_handler r \<longrightarrow> dr_cur_hw r > 0) ?rows"
    unfolding list_all_length len using match nth_daemon_rows [OF assms(2)] by auto
  moreover have "list_ex (\<lambda>d. is_hw_handler d \<and> matching_row d ?rows \<noteq> None) ?ds \<longleftrightarrow> 0 < num_hw_daemons m"
  proof -
    have "matching_row d ?rows \<noteq> None" if "d \<in> set ?ds" "is_hw_handler d" for d
      using match(2) that by (metis in_set_conv_nth)
    then have "list_ex (\<lambda>d. is_hw_handler d \<and> matching_row d ?rows \<noteq> None) ?ds \<longleftrightarrow> (\<exists>d \<in> set ?ds. is_hw_handler d)"
      by (auto simp: list_ex_iff)
    also have "\<dots> \<longleftrightarrow> filter is_hw_handler ?ds \<noteq> []" by (simp add: filter_empty_conv)
    finally show ?thesis by (simp add: assms(3))
  qed
  moreover have "num_hw_daemons m \<le> 0 \<Longrightarrow> list_all (\<lambda>r. dr_is_hw_handler r \<longrightarrow> dr_cur_hw r > 0) ?rows"
    using assms(3) by (auto simp: list_all_length len nth_daemon_rows [OF assms(2)] filter_empty_conv)
  ultimately show ?thesis unfolding hw_daemons_done_def by auto
qed

text \<open>
  C30. \<open>sysd_chk_if_hw_daemons_done\<close> is what the comment in it says, on the daemon table that the
  configuration creates from the manifest, with any progress of the daemons, when the counter of
  hardware daemons is right and no name of a hardware daemon begins with that of another: it sets
  cur_hw of the system exactly when every hardware daemon in the table has set its own, and leaves
  everything as it is otherwise.
\<close>

theorem hw_check_all_daemons:
  assumes "prefix_free (daemons m)" and "length hs = length (daemons m)"
    and "num_hw_daemons m = int (length (filter is_hw_handler (daemons m)))"
    and "db_daemon (database st) = daemon_rows (daemons m) hs"
  shows "sysd_chk_if_hw_daemons_done m commit_ok st =
    (if list_all (\<lambda>r. dr_is_hw_handler r \<longrightarrow> dr_cur_hw r > 0) (db_daemon (database st))
     then sysd_set_hw_done commit_ok st else st)"
  using hw_check_complete [OF assms(1-3)] by (simp add: chk_if_done assms(4))

definition sample_daemon :: "string \<Rightarrow> daemon_info" where
  "sample_daemon nm = \<lparr>daemon_name = nm, is_hw_handler = True, cur_hw = 0\<rparr>"

text \<open>Two hardware daemons: the check waits for the second, and then sets cur_hw of the system row.\<close>

definition two_daemons :: manifest where
  "two_daemons = manifest_init\<lparr>daemons := [sample_daemon ''ops-fand'', sample_daemon ''ops-ledd''], num_hw_daemons := 2\<rparr>"

definition daemons_at :: "int list \<Rightarrow> loop_state" where
  "daemons_at hs = sample_loop\<lparr>database := (database sample_loop)\<lparr>db_daemon := daemon_rows (daemons two_daemons) hs\<rparr>\<rparr>"

theorem hw_check_all_daemons_witness:
  "sysd_chk_if_hw_daemons_done two_daemons True (daemons_at [1, 0]) = daemons_at [1, 0] \<and>
   map sys_cur_hw (db_system (database (sysd_chk_if_hw_daemons_done two_daemons True (daemons_at [1, 1])))) = [1]"
proof -
  have m: "prefix_free (daemons two_daemons)" "num_hw_daemons two_daemons = int (length (filter is_hw_handler (daemons two_daemons)))"
    "length [a, b] = length (daemons two_daemons)" for a b :: int
    by (simp_all add: two_daemons_def prefix_free_def sample_daemon_def less_Suc_eq upt_rec)
  have rows: "db_daemon (database (daemons_at hs)) = daemon_rows (daemons two_daemons) hs" for hs
    by (simp add: daemons_at_def)
  have check: "sysd_chk_if_hw_daemons_done two_daemons True (daemons_at [a, b]) =
      (if 0 < a \<and> 0 < b then sysd_set_hw_done True (daemons_at [a, b]) else daemons_at [a, b])" for a b
    unfolding hw_check_all_daemons [OF m(1,3,2) rows] rows
    by (simp add: two_daemons_def daemon_rows_def sample_daemon_def)
  have "map sys_cur_hw (db_system (database (sysd_set_hw_done True (daemons_at hs)))) = [1]" for hs
    by (simp add: daemons_at_def sample_loop_def sysd_set_hw_done_def)
  with check show ?thesis by simp
qed

text \<open>
  Without these conditions the check may pass early. A hardware daemon whose name begins
  another's is taken for done when the other's row comes first and is done, even if its own row
  still has cur_hw = 0; and a hardware daemon without a row is not waited for, as long as some
  other one has set cur_hw.
\<close>

lemma hw_check_passes_early:
  assumes "daemons m = [a, b]" and "is_hw_handler a" and "is_hw_handler b" and "daemon_name b = daemon_name a @ x"
    and "0 < h"
  shows "hw_daemons_done m
      [\<lparr>dr_name = daemon_name b, dr_cur_hw = h, dr_is_hw_handler = True\<rparr>,
       \<lparr>dr_name = daemon_name a, dr_cur_hw = 0, dr_is_hw_handler = True\<rparr>]
    \<and> hw_daemons_done m [\<lparr>dr_name = daemon_name b, dr_cur_hw = h, dr_is_hw_handler = True\<rparr>]"
  using assms by (simp add: hw_daemons_done_def matching_row_def strncmp_tag_first)

theorem hw_check_passes_early_witness:
  "hw_daemons_done (manifest_init\<lparr>daemons := [sample_daemon ''ops-led'', sample_daemon ''ops-ledd''], num_hw_daemons := 2\<rparr>)
     [\<lparr>dr_name = ''ops-ledd'', dr_cur_hw = 1, dr_is_hw_handler = True\<rparr>]"
  using hw_check_passes_early [of "manifest_init\<lparr>daemons := [sample_daemon ''ops-led'', sample_daemon ''ops-ledd''], num_hw_daemons := 2\<rparr>"
    "sample_daemon ''ops-led''" "sample_daemon ''ops-ledd''" "''d''" 1]
  by (simp add: sample_daemon_def)

section \<open>Property of the dump\<close>



end
