(* ===== verification/Platform.thy ===== *)
theory Platform
  imports C_Strings
begin

text \<open>
  Finding the hardware description, \<open>src/sysd_util.c\<close> and \<open>sysd_find_hw_desc_files\<close> of
  \<open>src/sysd.c\<close>: the output of two commands names the manufacturer and the product, which name a
  directory, to which a link is made. The paths are set when the code is configured and the file
  system belongs to the operating system: both are parameters. A loop may run for ever here, which
  is the value \<open>None\<close>.
\<close>

section \<open>Runs that may not end\<close>

definition and_next :: "'a run option \<Rightarrow> ('a \<Rightarrow> 'b run option) \<Rightarrow> 'b run option" where
  "and_next p f = (case p of None \<Rightarrow> None | Some (Inl e) \<Rightarrow> Some (Inl e) | Some (Inr x) \<Rightarrow> f x)"

lemma and_next_simps [simp, run_simps]:
  "and_next None f = None" "and_next (Some (Inl e)) f = Some (Inl e)" "and_next (Some (Inr x)) f = f x"
  by (simp_all add: and_next_def)

lemma and_next_eq_Inr:
  "and_next p f = Some (Inr y) \<longleftrightarrow> (\<exists>x. p = Some (Inr x) \<and> f x = Some (Inr y))"
  by (cases p; simp add: and_next_def split: sum.split)

section \<open>The first line of a command's output\<close>

text \<open>
  A line as \<open>getline\<close> delivers it, its newline included. At the end of the output \<open>getline\<close> returns
  -1, which as a \<open>size_t\<close> is not below or equal to 0, so that the code goes on with a buffer whose
  first byte is not determined: \<open>garbage i\<close> in the \<open>i\<close>-th such call. The write to \<open>buf[nbytes - 1]\<close>
  is then outside the buffer.
\<close>

record command =
  popen_ok :: bool
  cmd_lines :: "string list"
  garbage :: "nat \<Rightarrow> char"

definition buf0 :: "string \<Rightarrow> char" where
  "buf0 buf = (case buf of [] \<Rightarrow> CHR 0x00 | c # _ \<Rightarrow> c)"

definition skipped :: "char \<Rightarrow> bool" where
  "skipped c \<longleftrightarrow> c = CHR ''#'' \<or> c = CHR 0x00"

text \<open>The last character is overwritten with the terminator.\<close>

definition line_text :: "string \<Rightarrow> string" where
  "line_text buf = takeWhile (\<lambda>c. c \<noteq> CHR 0x00) (butlast buf)"

partial_function (option) read_line :: "(nat \<Rightarrow> char) \<Rightarrow> string list \<Rightarrow> nat \<Rightarrow> string option run option" where
  "read_line gs bufs i =
     (case bufs of
        buf # rest \<Rightarrow> if skipped (buf0 buf) then read_line gs rest i else Some (Inr (Some (line_text buf)))
      | [] \<Rightarrow> if skipped (gs i) then read_line gs [] (Suc i) else Some (Inl Out_Of_Bounds_Write))"

definition get_sys_cmd_out :: "command \<Rightarrow> string option run option" where
  "get_sys_cmd_out c = (if \<not> popen_ok c then Some (Inr None) else read_line (garbage c) (cmd_lines c) 0)"

section \<open>Manufacturer and product\<close>

definition QUOTE :: char where "QUOTE = CHR 0x22"

definition strip_quotes :: "string option \<Rightarrow> string option" where
  "strip_quotes s =
     (case s of
        None \<Rightarrow> None
      | Some str \<Rightarrow>
          Some (if str \<noteq> [] \<and> hd str = QUOTE \<and> str ! (length str - 1) = QUOTE then butlast (tl str) else str))"

definition get_manuf_and_prodname :: "command \<Rightarrow> command \<Rightarrow> (string option \<times> string option) run option" where
  "get_manuf_and_prodname manufacturer_cmd product_cmd =
     and_next (get_sys_cmd_out manufacturer_cmd) (\<lambda>manufacturer.
       if manufacturer = None then Some (Inr (None, None))
       else and_next (get_sys_cmd_out product_cmd) (\<lambda>product_name.
         Some (Inr (strip_quotes manufacturer, if product_name = None then None else strip_quotes product_name))))"

section \<open>The link\<close>

datatype mkdir_result = Made | Already_Exists | Mkdir_Failed

text \<open>\<open>symlink\<close> fails when the name is taken, and may fail for other reasons.\<close>

record platform_env =
  simulation :: bool
  manufacturer_cmd :: command
  product_cmd :: command
  hwdesc_files_path :: string
  is_there :: "string \<Rightarrow> bool"
  remove_ok :: bool
  mkdir_result :: mkdir_result
  symlink_possible :: bool

record platform =
  g_hw_desc_dir :: string
  hwdesc_link :: "string option"

definition HW_DESC_DIR_SIZE :: nat where "HW_DESC_DIR_SIZE = 1024"

definition create_link_to_desc_files :: "platform_env \<Rightarrow> string \<Rightarrow> string \<Rightarrow> platform \<Rightarrow> int \<times> platform" where
  "create_link_to_desc_files e manufacturer product_name st =
     (let dir = trunc_copy HW_DESC_DIR_SIZE (hwdesc_files_path e @ ''/'' @ manufacturer @ ''/'' @ product_name);
          st1 = st\<lparr>g_hw_desc_dir := dir\<rparr>
      in if \<not> is_there e dir then (-1, st1)
         else
           (let st2 = (if remove_ok e then st1\<lparr>hwdesc_link := None\<rparr> else st1)
            in if mkdir_result e = Mkdir_Failed then (-1, st2)
               else if symlink_possible e \<and> hwdesc_link st2 = None then (0, st2\<lparr>hwdesc_link := Some dir\<rparr>)
               else (-1, st2)))"

definition GENERIC_X86_MANUFACTURER :: string where "GENERIC_X86_MANUFACTURER = ''Generic-x86''"
definition GENERIC_X86_PRODUCT_NAME :: string where "GENERIC_X86_PRODUCT_NAME = ''X86-64''"

definition sysd_create_link_to_hwdesc_files :: "platform_env \<Rightarrow> platform \<Rightarrow> (int \<times> platform) run option" where
  "sysd_create_link_to_hwdesc_files e st =
     and_next (if simulation e then Some (Inr (Some GENERIC_X86_MANUFACTURER, Some GENERIC_X86_PRODUCT_NAME))
               else get_manuf_and_prodname (manufacturer_cmd e) (product_cmd e)) (\<lambda>(manufacturer, product_name).
       case (manufacturer, product_name) of
         (Some m, Some p) \<Rightarrow>
           (let (rc, st') = create_link_to_desc_files e m p st in Some (Inr (if rc \<noteq> 0 then -1 else 0, st')))
       | _ \<Rightarrow> Some (Inr (-1, st)))"

definition sysd_find_hw_desc_files :: "platform_env \<Rightarrow> platform \<Rightarrow> (int \<times> platform) run option" where
  "sysd_find_hw_desc_files e st =
     and_next (sysd_create_link_to_hwdesc_files e st) (\<lambda>(rc, st').
       Some (Inr (if rc \<noteq> 0 then (-1, st') else (rc, st'))))"

section \<open>What the loop returns\<close>

lemma read_line_lines:
  "read_line gs bufs i = (case List.find (\<lambda>b. \<not> skipped (buf0 b)) bufs of
     Some b \<Rightarrow> Some (Inr (Some (line_text b))) | None \<Rightarrow> read_line gs [] i)"
  by (induction bufs) (simp_all add: read_line.simps [of gs "_ # _"])

lemma read_line_end_fault:
  "\<not> skipped (gs (i + k)) \<Longrightarrow> read_line gs [] i = Some (Inl Out_Of_Bounds_Write)"
proof (induction k arbitrary: i)
  case 0
  then show ?case by (simp add: read_line.simps [of gs "[]"])
next
  case (Suc k)
  then have "read_line gs [] (Suc i) = Some (Inl Out_Of_Bounds_Write)" by simp
  then show ?case by (simp add: read_line.simps [of gs "[]" i])
qed

text \<open>A run that returns has met a byte that is not skipped.\<close>

lemma read_line_end_returns:
  assumes "read_line gs bufs i = Some r"
  shows "bufs = [] \<longrightarrow> (\<exists>k. \<not> skipped (gs (i + k)))"
  using _ assms
proof (rule read_line.raw_induct)
  fix f gs bufs i r
  assume IH: "\<And>gs bufs i r. f gs bufs i = Some r \<Longrightarrow> bufs = [] \<longrightarrow> (\<exists>k. \<not> skipped (gs (i + k)))"
    and run: "(case bufs of
        [] \<Rightarrow> if skipped (gs i) then f gs [] (Suc i) else Some (Inl Out_Of_Bounds_Write)
      | buf # rest \<Rightarrow> if skipped (buf0 buf) then f gs rest i else Some (Inr (Some (line_text buf)))) = Some r"
  show "bufs = [] \<longrightarrow> (\<exists>k. \<not> skipped (gs (i + k)))"
  proof (cases "skipped (gs i)")
    case True
    then have "bufs = [] \<longrightarrow> (\<exists>k. \<not> skipped (gs (Suc i + k)))" using run IH [of gs "[]" "Suc i"] by auto
    then show ?thesis by (metis add_Suc_shift)
  next
    case False
    then show ?thesis by (metis add_0_right)
  qed
qed

lemma read_line_end:
  "read_line gs [] 0 = (if \<exists>k. \<not> skipped (gs k) then Some (Inl Out_Of_Bounds_Write) else None)"
proof (cases "\<exists>k. \<not> skipped (gs k)")
  case True
  then obtain k where "\<not> skipped (gs (0 + k))" by auto
  from read_line_end_fault [where i = 0 and k = k and gs = gs, OF this] True show ?thesis by simp
next
  case False
  then have "read_line gs [] 0 \<noteq> Some r" for r using read_line_end_returns [of gs "[]" 0 r] by auto
  with False show ?thesis by (cases "read_line gs [] 0") auto
qed

text \<open>
  C27. The output of a platform command: the text is the first line that neither is a comment nor
  starts with a NUL, without its last character, which is the newline, or, when the output ends
  without one, a character of the name. A command that cannot be started gives none. But a command
  without such a line never gives none: the end of the output is not noticed, and the code writes
  in front of its buffer or never returns.
\<close>

theorem command_output:
  "get_sys_cmd_out c =
     (if \<not> popen_ok c then Some (Inr None)
      else case List.find (\<lambda>b. \<not> skipped (buf0 b)) (cmd_lines c) of
        Some b \<Rightarrow> Some (Inr (Some (line_text b)))
      | None \<Rightarrow> if \<exists>k. \<not> skipped (garbage c k) then Some (Inl Out_Of_Bounds_Write) else None)"
  unfolding get_sys_cmd_out_def read_line_lines [of "garbage c" "cmd_lines c"] read_line_end ..

lemma hw_desc_search:
  assumes "sysd_find_hw_desc_files e st = Some (Inr (rc, st'))"
  shows "(if rc = 0 then is_there e (g_hw_desc_dir st') \<and> hwdesc_link st' = Some (g_hw_desc_dir st')
          else rc = -1 \<and> hwdesc_link st' \<in> {hwdesc_link st, None}) \<and>
    (g_hw_desc_dir st' = g_hw_desc_dir st \<or>
     (\<exists>m p. g_hw_desc_dir st' = take 1023 (hwdesc_files_path e @ ''/'' @ m @ ''/'' @ p) \<and>
        (simulation e \<and> m = ''Generic-x86'' \<and> p = ''X86-64'' \<or>
         \<not> simulation e \<and> (\<exists>m' p'. get_sys_cmd_out (manufacturer_cmd e) = Some (Inr (Some m')) \<and>
            get_sys_cmd_out (product_cmd e) = Some (Inr (Some p')) \<and>
            strip_quotes (Some m') = Some m \<and> strip_quotes (Some p') = Some p))))"
proof -
  have link: "if rc' = 0 then is_there e (g_hw_desc_dir st'') \<and> hwdesc_link st'' = Some (g_hw_desc_dir st'')
      else rc' = -1 \<and> hwdesc_link st'' \<in> {hwdesc_link st, None}"
    "g_hw_desc_dir st'' = take 1023 (hwdesc_files_path e @ ''/'' @ m @ ''/'' @ p)"
    if "create_link_to_desc_files e m p st = (rc', st'')" for m p rc' st''
    using that by (auto simp: create_link_to_desc_files_def Let_def trunc_copy_def HW_DESC_DIR_SIZE_def split: if_splits)
  obtain mo po where names: "(if simulation e then Some (Inr (Some GENERIC_X86_MANUFACTURER, Some GENERIC_X86_PRODUCT_NAME))
      else get_manuf_and_prodname (manufacturer_cmd e) (product_cmd e)) = Some (Inr (mo, po))"
    using assms unfolding sysd_find_hw_desc_files_def sysd_create_link_to_hwdesc_files_def and_next_eq_Inr by fast
  show ?thesis
  proof (cases "mo = None \<or> po = None")
    case True
    then have "rc = -1 \<and> st' = st"
      using assms names by (auto simp: sysd_find_hw_desc_files_def sysd_create_link_to_hwdesc_files_def split: option.splits)
    then show ?thesis by simp
  next
    case False
    then obtain m p where mp: "mo = Some m" "po = Some p" by auto
    obtain rc' st'' where c: "create_link_to_desc_files e m p st = (rc', st'')" by fastforce
    have r: "rc = (if rc' \<noteq> 0 then -1 else 0)" "st' = st''"
      using assms names mp c
      by (auto simp: sysd_find_hw_desc_files_def sysd_create_link_to_hwdesc_files_def split: if_splits)
    have "simulation e \<and> m = ''Generic-x86'' \<and> p = ''X86-64'' \<or>
        \<not> simulation e \<and> (\<exists>m' p'. get_sys_cmd_out (manufacturer_cmd e) = Some (Inr (Some m')) \<and>
          get_sys_cmd_out (product_cmd e) = Some (Inr (Some p')) \<and>
          strip_quotes (Some m') = Some m \<and> strip_quotes (Some p') = Some p)"
      using names mp
      by (auto simp: get_manuf_and_prodname_def and_next_eq_Inr GENERIC_X86_MANUFACTURER_def GENERIC_X86_PRODUCT_NAME_def
          split: if_splits)
    with link [OF c] r show ?thesis by (auto split: if_splits)
  qed
qed

text \<open>
  C28. The hardware description: when the search returns 0, the directory it has recorded is there
  and the link points to it; when it returns an error, the code is -1 and the link is the old one
  or gone, never a wrong one. The directory is the platform path with the two names without their
  quotes, cut to 1023 characters.
\<close>

theorem hw_desc_link:
  assumes "sysd_find_hw_desc_files e st = Some (Inr (rc, st'))"
  shows "(if rc = 0 then is_there e (g_hw_desc_dir st') \<and> hwdesc_link st' = Some (g_hw_desc_dir st')
          else rc = -1 \<and> hwdesc_link st' \<in> {hwdesc_link st, None}) \<and>
    (g_hw_desc_dir st' = g_hw_desc_dir st \<or>
     (\<exists>m p. g_hw_desc_dir st' = take 1023 (hwdesc_files_path e @ ''/'' @ m @ ''/'' @ p) \<and>
        (simulation e \<and> m = ''Generic-x86'' \<and> p = ''X86-64'' \<or>
         \<not> simulation e \<and> (\<exists>m' p'. get_sys_cmd_out (manufacturer_cmd e) = Some (Inr (Some m')) \<and>
            get_sys_cmd_out (product_cmd e) = Some (Inr (Some p')) \<and>
            strip_quotes (Some m') = Some m \<and> strip_quotes (Some p') = Some p))))"
  by (rule hw_desc_search [OF assms])

text \<open>A machine whose first command prints a comment and a quoted name.\<close>

definition sample_platform :: platform_env where
  "sample_platform = \<lparr>simulation = False,
     manufacturer_cmd = \<lparr>popen_ok = True, cmd_lines = [''# SMBIOS'' @ [CHR 0x0A], [QUOTE] @ ''Acme'' @ [QUOTE, CHR 0x0A]],
       garbage = (\<lambda>_. CHR 0x00)\<rparr>,
     product_cmd = \<lparr>popen_ok = True, cmd_lines = [''S1'' @ [CHR 0x0A]], garbage = (\<lambda>_. CHR 0x00)\<rparr>,
     hwdesc_files_path = ''/p'', is_there = (\<lambda>d. d = ''/p/Acme/S1''), remove_ok = True, mkdir_result = Already_Exists,
     symlink_possible = True\<rparr>"

lemma sample_platform_found:
  "sysd_find_hw_desc_files sample_platform \<lparr>g_hw_desc_dir = ''/'', hwdesc_link = None\<rparr> =
     Some (Inr (0, \<lparr>g_hw_desc_dir = ''/p/Acme/S1'', hwdesc_link = Some ''/p/Acme/S1''\<rparr>))"
  by (simp add: sysd_find_hw_desc_files_def sysd_create_link_to_hwdesc_files_def get_manuf_and_prodname_def
      get_sys_cmd_out_def sample_platform_def read_line_lines skipped_def buf0_def line_text_def QUOTE_def
      strip_quotes_def create_link_to_desc_files_def trunc_copy_def HW_DESC_DIR_SIZE_def Let_def)

theorem hw_desc_link_witness:
  "is_there sample_platform ''/p/Acme/S1'' \<and>
   (\<exists>st'. sysd_find_hw_desc_files sample_platform \<lparr>g_hw_desc_dir = ''/'', hwdesc_link = None\<rparr> = Some (Inr (0, st')) \<and>
     hwdesc_link st' = Some ''/p/Acme/S1'')"
  using hw_desc_link [OF sample_platform_found] sample_platform_found by simp

end
