(* ===== verification/Configured.thy ===== *)
theory Configured
  imports Configure
begin

text \<open>
  The first configuration comes to its end: for platform data that fit the buffers and the arrays
  of the code, \<open>sysd_initial_configure\<close> meets no fault, and the rows it leaves are those that the
  manifest, the FRU record and the port file describe.
\<close>

section \<open>Data that fit\<close>

definition speeds_fit :: "yaml_port \<Rightarrow> bool" where
  "speeds_fit p \<longleftrightarrow> list_all (\<lambda>s. 0 \<le> sint s \<and> sint s < 10 ^ 8) (speeds p) \<and> length (speeds_text (speeds p)) < 128"

definition subsystem_fits :: "subsystem \<Rightarrow> bool" where
  "subsystem_fits s \<longleftrightarrow> intf_cmn_info s \<noteq> None \<and> list_all port_complete (interfaces s) \<and>
     list_all speeds_fit (interfaces s) \<and> split_consistent (interfaces s)"

definition map_fits :: "nat \<Rightarrow> c_int \<Rightarrow> (nat \<Rightarrow> yaml_map_entry option) \<Rightarrow> bool" where
  "map_fits room n entry \<longleftrightarrow> entry 0 = None \<or> unat n \<le> room \<and> entries_complete (unat n) entry"

definition qos_fits :: "yaml_qos \<Rightarrow> bool" where
  "qos_fits y \<longleftrightarrow> map_fits 64 (dscp_map_entry_count y) (dscp_map_entry y) \<and>
     map_fits 8 (cos_map_entry_count y) (cos_map_entry y) \<and>
     profiles_named y \<and> (qos_info y = None \<or> list_all has_algorithm (schedule_entries y))"

section \<open>Interfaces\<close>

definition port_row :: "config_env \<Rightarrow> subsystem \<Rightarrow> yaml_port \<Rightarrow> interface_row" where
  "port_row env s p = interface_fresh\<lparr>if_name := port_name p, if_type := type_system (ce_names env),
     if_admin_state := Some (admin_state_down (ce_names env)),
     if_hw_intf_info := interface_hw_info (ce_names env) (ce_mac_text env) (system_mac_addr s) p (speeds_text (speeds p))\<rparr>"

lemma interface_added:
  "port_complete p \<Longrightarrow> speeds_fit p \<Longrightarrow> sysd_initial_interface_add (ce_names env) (ce_mac_text env) s p db =
     Inr (length (db_interface db), db\<lparr>db_interface := db_interface db @ [port_row env s p]\<rparr>)"
  using speeds_text_result [of "speeds p" 128]
  by (simp add: sysd_initial_interface_add_def speeds_fit_def list_all_iff port_row_def port_complete_def)

lemma interfaces_added:
  "list_all port_complete ps \<Longrightarrow> list_all speeds_fit ps \<Longrightarrow> add_interfaces (ce_names env) (ce_mac_text env) s ps db =
     Inr ([length (db_interface db)..<length (db_interface db) + length ps],
       db\<lparr>db_interface := db_interface db @ map (port_row env s) ps\<rparr>)"
proof (induction ps arbitrary: db)
  case (Cons p ps)
  have "[length (db_interface db)..<length (db_interface db) + length (p # ps)] =
      length (db_interface db) # [Suc (length (db_interface db))..<Suc (length (db_interface db)) + length ps]"
    by (simp add: upt_conv_Cons del: upt_Suc)
  then show ?case using Cons by (simp add: interface_added del: upt_Suc)
qed simp

text \<open>A row but for its links.\<close>

definition unlinked :: "interface_row \<Rightarrow> interface_row" where
  "unlinked row = row\<lparr>if_split_parent := None, if_split_children := []\<rparr>"

lemma unlinked_linked: "unlinked (linked tab p row) = unlinked row"
  by (simp add: unlinked_def linked_def)

lemma links_only:
  "\<exists>ifs. fold (\<lambda>(r, p). set_interface r (linked tab p)) xs db = db\<lparr>db_interface := ifs\<rparr> \<and>
     map unlinked ifs = map unlinked (db_interface db)"
proof (induction xs arbitrary: db)
  case Nil
  show ?case by (rule exI [of _ "db_interface db"]) simp
next
  case (Cons x xs)
  obtain r p where x: "x = (r, p)" by (cases x)
  have "map unlinked (upd_nth r (linked tab p) (db_interface db)) = map unlinked (db_interface db)"
    by (rule map_upd_nth_field) (rule unlinked_linked)
  then show ?case using Cons.IH [of "set_interface r (linked tab p) db"] by (simp add: x set_interface_def)
qed

lemma split_info_frame:
  assumes "sysd_set_splittable_port_info rows s db = Inr db'" and "length rows = length (interfaces s)"
  obtains ifs where "db' = db\<lparr>db_interface := ifs\<rparr>" and "map unlinked ifs = map unlinked (db_interface db)"
proof -
  have "db' = fold (\<lambda>(r, p). set_interface r (linked (split_table rows (interfaces s) db) p)) (zip rows (interfaces s)) db"
    using assms by (auto simp: sysd_set_splittable_port_info_def link_ports_result split: if_splits)
  then show thesis using links_only that by metis
qed

section \<open>The subsystem\<close>

definition subsystem_row_of :: "config_env \<Rightarrow> subsystem \<Rightarrow> nat \<Rightarrow> subsystem_row" where
  "subsystem_row_of env s n = \<lparr>ss_name = subsystem_name s, ss_asset_tag_number = DFLT_ASSET_TAG,
     ss_hw_desc_dir = ce_hw_desc_dir env,
     ss_other_info = (case intf_cmn_info s of None \<Rightarrow> [] | Some info \<Rightarrow> subsystem_other_info (Subsystem.fru_eeprom s) info),
     ss_next_mac_address = ce_mac_text env (nxt_mac_addr s), ss_macs_remaining = num_free_macs s,
     ss_interfaces = [n..<n + length (interfaces s)]\<rparr>"

lemma ports_are_inserted:
  "ports_inserted (length (db_interface db)) ps (db\<lparr>db_interface := db_interface db @ map (port_row env s) ps\<rparr>)"
  by (simp add: ports_inserted_def list_all_iff port_row_def interface_fresh_def)

lemma subsystem_added:
  assumes "subsystem_fits s"
  obtains ifs where "sysd_initial_subsystem_add (ce_names env) (ce_mac_text env) True (ce_hw_desc_dir env) s db =
      Inr (length (db_subsystem db), db\<lparr>db_interface := ifs,
        db_subsystem := db_subsystem db @ [subsystem_row_of env s (length (db_interface db))]\<rparr>)"
    and "map unlinked ifs = map unlinked (db_interface db) @ map (unlinked \<circ> port_row env s) (interfaces s)"
proof -
  let ?n = "length (db_interface db)"
  obtain info where info: "intf_cmn_info s = Some info" and fit: "list_all port_complete (interfaces s)" "list_all speeds_fit (interfaces s)"
    and c: "split_consistent (interfaces s)"
    using assms by (auto simp: subsystem_fits_def)
  let ?row = "subsystem_fresh\<lparr>ss_name := subsystem_name s, ss_asset_tag_number := DFLT_ASSET_TAG,
    ss_hw_desc_dir := ce_hw_desc_dir env, ss_other_info := subsystem_other_info (Subsystem.fru_eeprom s) info\<rparr>"
  let ?db1 = "db\<lparr>db_subsystem := db_subsystem db @ [?row]\<rparr>"
  let ?db2 = "?db1\<lparr>db_interface := db_interface ?db1 @ map (port_row env s) (interfaces s)\<rparr>"
  have add: "add_interfaces (ce_names env) (ce_mac_text env) s (interfaces s) ?db1 =
      Inr ([?n..<?n + length (interfaces s)], ?db2)"
    using interfaces_added [OF fit, of env s ?db1] by simp
  have "ports_inserted ?n (interfaces s) ?db2"
    using ports_are_inserted [of ?db1 "interfaces s" env s] by simp
  then obtain db3 where run: "sysd_set_splittable_port_info [?n..<?n + length (interfaces s)] s ?db2 = Inr db3"
    by (rule linking_run [OF c]) blast
  then obtain ifs where db3: "db3 = ?db2\<lparr>db_interface := ifs\<rparr>"
    and ifs: "map unlinked ifs = map unlinked (db_interface ?db2)"
    by (rule split_info_frame) simp
  have "sysd_initial_subsystem_add (ce_names env) (ce_mac_text env) True (ce_hw_desc_dir env) s db =
      Inr (length (db_subsystem db), db3\<lparr>db_subsystem := upd_nth (length (db_subsystem db))
        (\<lambda>row. row\<lparr>ss_next_mac_address := ce_mac_text env (nxt_mac_addr s), ss_macs_remaining := num_free_macs s,
           ss_interfaces := [?n..<?n + length (interfaces s)]\<rparr>) (db_subsystem db3)\<rparr>)"
    by (simp only: sysd_initial_subsystem_add_def info Let_def option.case add run and_then_Inr prod.case if_True
        not_True_eq_False if_False)
  moreover have "db3\<lparr>db_subsystem := upd_nth (length (db_subsystem db))
        (\<lambda>row. row\<lparr>ss_next_mac_address := ce_mac_text env (nxt_mac_addr s), ss_macs_remaining := num_free_macs s,
           ss_interfaces := [?n..<?n + length (interfaces s)]\<rparr>) (db_subsystem db3)\<rparr> =
      db\<lparr>db_interface := ifs, db_subsystem := db_subsystem db @ [subsystem_row_of env s ?n]\<rparr>"
    by (simp add: db3 upd_nth_def subsystem_row_of_def subsystem_fresh_def info)
  ultimately show ?thesis using ifs by (intro that [of ifs]) simp_all
qed
section \<open>The services\<close>

text \<open>The columns of the system row that the services leave alone.\<close>

definition system_core :: "system_row \<Rightarrow> system_row" where
  "system_core s = s\<lparr>software_info := [], switch_version := [], qos_config := [], sys_dscp_map_entries := [],
     sys_cos_map_entries := [], sys_q_profile := None, sys_qos := None, sys_other_info := []\<rparr>"

definition same_core :: "ovsdb \<Rightarrow> ovsdb \<Rightarrow> bool" where
  "same_core db db' \<longleftrightarrow> map system_core (db_system db') = map system_core (db_system db) \<and>
     db_subsystem db' = db_subsystem db \<and> db_interface db' = db_interface db \<and> db_port db' = db_port db \<and>
     db_bridge db' = db_bridge db \<and> db_vrf db' = db_vrf db \<and> db_daemon db' = db_daemon db \<and>
     db_package_info db' = db_package_info db"

lemma same_core_trans: "same_core a b \<Longrightarrow> same_core b c \<Longrightarrow> same_core a c"
  by (simp add: same_core_def)

lemma same_core_length: "same_core db db' \<Longrightarrow> length (db_system db') = length (db_system db)"
  unfolding same_core_def by (metis length_map)

lemma same_core_maps [simp]:
  "same_core db (db'\<lparr>db_cos_map := c\<rparr>) = same_core db db'" "same_core db (db'\<lparr>db_dscp_map := d\<rparr>) = same_core db db'"
  "same_core db (db'\<lparr>db_q_profile := q\<rparr>) = same_core db db'" "same_core db (db'\<lparr>db_qos := t\<rparr>) = same_core db db'"
  by (simp_all add: same_core_def)

lemma same_core_set_system [simp]:
  "(\<And>s. system_core (f s) = system_core s) \<Longrightarrow> same_core db (set_system sys f db') = same_core db db'"
  by (simp add: same_core_def map_upd_nth_field)

lemma same_core_refl [simp]: "same_core db db"
  by (simp add: same_core_def)

lemma sw_info_core: "same_core db (sysd_update_sw_info f sys db)"
  by (auto simp: sysd_update_sw_info_def Let_def system_core_def split: option.split)

lemma trust_core: "same_core db (qos_init_trust y sys db)"
  by (auto simp: qos_init_trust_def system_core_def split: option.split)

lemma sw_info_qos: "db_qos (sysd_update_sw_info f sys db) = db_qos db"
  by (auto simp: sysd_update_sw_info_def Let_def split: option.split)

lemma trust_qos: "db_qos (qos_init_trust y sys db) = db_qos db"
  by (auto simp: qos_init_trust_def split: option.split)

lemma dscp_core:
  assumes "map_fits 64 (dscp_map_entry_count y) (dscp_map_entry y)"
  obtains db' where "qos_init_dscp_map y sys db = Inr db'" and "same_core db db'" and "db_qos db' = db_qos db"
proof (cases "dscp_map_entry y 0")
  case None
  then show ?thesis by (intro that [of db]) (simp_all add: qos_init_dscp_map_def)
next
  case (Some e)
  with assms have "dscp_rows (unat (dscp_map_entry_count y)) (dscp_map_entry y) (replicate 64 dscp_map_fresh) =
      Inr (map_rows 64 (unat (dscp_map_entry_count y)) (dscp_map_entry y) dscp_map_fresh)"
    by (simp add: dscp_rows_result map_fits_def)
  with Some have run: "qos_init_dscp_map y sys db = Inr (set_system sys
      (\<lambda>s. s\<lparr>sys_dscp_map_entries := [length (db_dscp_map db)..<length (db_dscp_map db) + 64]\<rparr>)
      (db\<lparr>db_dscp_map := db_dscp_map db @ map_rows 64 (unat (dscp_map_entry_count y)) (dscp_map_entry y) dscp_map_fresh\<rparr>))"
    by (simp add: qos_init_dscp_map_def init_default_dscp_rows QOS_DSCP_MAP_ENTRY_COUNT_def Let_def)
  show ?thesis by (rule that [OF run]) (simp_all add: system_core_def)
qed

lemma cos_core:
  assumes "map_fits 8 (cos_map_entry_count y) (cos_map_entry y)"
  obtains db' where "qos_init_cos_map y sys db = Inr db'" and "same_core db db'" and "db_qos db' = db_qos db"
proof (cases "cos_map_entry y 0")
  case None
  then show ?thesis by (intro that [of db]) (simp_all add: qos_init_cos_map_def)
next
  case (Some e)
  with assms have "cos_rows (unat (cos_map_entry_count y)) (cos_map_entry y) (replicate 8 cos_map_fresh) =
      Inr (map_rows 8 (unat (cos_map_entry_count y)) (cos_map_entry y) cos_map_fresh)"
    by (simp add: cos_rows_result map_fits_def)
  with Some have run: "qos_init_cos_map y sys db = Inr (set_system sys
      (\<lambda>s. s\<lparr>sys_cos_map_entries := [length (db_cos_map db)..<length (db_cos_map db) + 8]\<rparr>)
      (db\<lparr>db_cos_map := db_cos_map db @ map_rows 8 (unat (cos_map_entry_count y)) (cos_map_entry y) cos_map_fresh\<rparr>))"
    by (simp add: qos_init_cos_map_def init_default_cos_rows QOS_COS_MAP_ENTRY_COUNT_def Let_def)
  show ?thesis by (rule that [OF run]) (simp_all add: system_core_def)
qed

lemma queue_profile_core:
  assumes "qos_init_queue_profile y sys db = Inr db'"
  shows "same_core db db' \<and> db_qos db' = db_qos db"
  using assms by (auto simp: qos_init_queue_profile_def Let_def system_core_def split: option.splits)

lemma schedule_profile_core:
  assumes "store_wf (db_qos db)" and "profiles_named y" and "qos_info y = None \<or> list_all has_algorithm (schedule_entries y)"
  obtains db' where "qos_init_schedule_profile y sys db = Inr db'" and "same_core db db'"
proof (cases "qos_info y")
  case None
  then show ?thesis by (intro that [of db]) (simp_all add: qos_init_schedule_profile_def)
next
  case (Some info)
  with assms(3) have ok: "list_all has_algorithm (schedule_entries y)" by simp
  obtain dn fdn where names: "default_name info = Some dn" "factory_default_name info = Some fdn"
    using assms(2) Some by (auto simp: profiles_named_def)
  obtain st1 where st1: "qos_schedule_profile_create_factory_default y dn (db_qos db) = Inr st1" "store_wf st1"
    by (rule create_default_schedule_named [OF assms(1) ok])
  obtain st2 where st2: "qos_schedule_profile_create_factory_default y fdn st1 = Inr st2"
    by (rule create_default_schedule_named [OF st1(2) ok])
  have "\<exists>db'. qos_init_schedule_profile y sys db = Inr db'"
    using Some names st1 st2 by (simp add: qos_init_schedule_profile_def Let_def split: option.split)
  then obtain db' where "qos_init_schedule_profile y sys db = Inr db'" ..
  moreover from this have "same_core db db'"
    using Some names st1 st2 by (auto simp: qos_init_schedule_profile_def Let_def system_core_def split: option.splits)
  ultimately show ?thesis by (rule that)
qed
lemma services_complete:
  assumes "store_wf (db_qos db)" and "qos_fits (ce_qos env)" and "ce_acl env = Some a" and "sys < length (db_system db)"
  obtains db' where "configure_services env sys db = Inr db'"
    and "same_core (set_system sys (\<lambda>s. s\<lparr>timezone := DFLT_TIMEZONE\<rparr>) db) db'"
    and "acl_limits (db_system db' ! sys) = (Some (sint (max_acls a)), Some (sint (max_aces a)), Some (sint (max_aces_per_acl a)))"
proof -
  let ?y = "ce_qos env"
  have named: "profiles_named ?y" using assms(2) by (simp add: qos_fits_def)
  define db1 where "db1 = sysd_update_sw_info (ce_os_release env) sys db"
  define db3 where "db3 = qos_init_trust ?y sys (set_system sys (\<lambda>s. s\<lparr>timezone := DFLT_TIMEZONE\<rparr>) db1)"
  have db3: "same_core (set_system sys (\<lambda>s. s\<lparr>timezone := DFLT_TIMEZONE\<rparr>) db) db3" "store_wf (db_qos db3)"
  proof -
    have "same_core (set_system sys f db) (set_system sys f db1)" if "\<And>s. system_core (f s) = f (system_core s)" for f
      using that sw_info_core [of db "ce_os_release env" sys] unfolding same_core_def db1_def
      by (simp add: upd_nth_def map_update) (metis list_update_beyond not_le_imp_less nth_map length_map)
    then show "same_core (set_system sys (\<lambda>s. s\<lparr>timezone := DFLT_TIMEZONE\<rparr>) db) db3"
      unfolding db3_def by (intro same_core_trans [OF _ trust_core]) (simp add: system_core_def)
    show "store_wf (db_qos db3)" using assms(1) by (simp add: db3_def trust_qos db1_def sw_info_qos)
  qed
  from assms(2) have fits: "map_fits 64 (dscp_map_entry_count ?y) (dscp_map_entry ?y)"
    "map_fits 8 (cos_map_entry_count ?y) (cos_map_entry ?y)" "qos_info ?y = None \<or> list_all has_algorithm (schedule_entries ?y)"
    by (simp_all add: qos_fits_def)
  obtain db4 where db4: "qos_init_dscp_map ?y sys db3 = Inr db4" "same_core db3 db4" "db_qos db4 = db_qos db3"
    by (rule dscp_core [OF fits(1)])
  obtain db5 where db5: "qos_init_cos_map ?y sys db4 = Inr db5" "same_core db4 db5" "db_qos db5 = db_qos db4"
    by (rule cos_core [OF fits(2)])
  obtain dbq where q: "qos_init_queue_profile ?y sys db5 = Inr dbq" using queue_profile_runs [OF named] by blast
  note frame = queue_profile_core [OF q]
  have "store_wf (db_qos dbq)" using frame db5(3) db4(3) db3(2) by simp
  then obtain db6 where db6: "qos_init_schedule_profile ?y sys dbq = Inr db6" "same_core dbq db6"
    by (rule schedule_profile_core [OF _ named fits(3)])
  have core: "same_core (set_system sys (\<lambda>s. s\<lparr>timezone := DFLT_TIMEZONE\<rparr>) db) db6"
    using db3(1) db4(2) db5(2) frame db6(2) by (blast intro: same_core_trans)
  then have len: "sys < length (db_system db6)" using assms(4) by (simp add: same_core_length)
  obtain f where f: "acl_init_limits (ce_acl env) sys db6 = Inr (set_system sys f db6)" "\<And>s. system_core (f s) = system_core s"
    "\<And>s. acl_limits (f s) = (Some (sint (max_acls a)), Some (sint (max_aces a)), Some (sint (max_aces_per_acl a)))"
    by (rule that [of "\<lambda>s. s\<lparr>sys_other_info := smap_replace ACL_LIMIT_KEY_MAX_ACES_PER_ACL (show_d (sint (max_aces_per_acl a)))
        (smap_replace ACL_LIMIT_KEY_MAX_ACES (show_d (sint (max_aces a)))
        (smap_replace ACL_LIMIT_KEY_MAX_ACLS (show_d (sint (max_acls a))) (sys_other_info s)))\<rparr>"])
      (simp_all add: acl_init_limits_def assms(3) acl_buffer_fits Let_def system_core_def acl_limits_def smap_get_replace
        acl_key_defs int_value_show_d)
  have "configure_services env sys db = Inr (set_system sys f db6)"
    using db4(1) db5(1) q db6(1) f(1) by (simp add: configure_services_def Let_def db3_def db1_def)
  then show ?thesis by (rule that) (use core f(2,3) len in simp_all)
qed
section \<open>The whole configuration\<close>

definition bridge_interface :: "idl_names \<Rightarrow> interface_row" where
  "bridge_interface names = interface_fresh\<lparr>if_name := default_bridge_name names, if_type := type_internal names,
     if_hw_intf_info := [(key_bridge names, bridge_true names)], if_user_config := [(key_admin names, admin_up names)]\<rparr>"

definition daemon_row_of :: "daemon_info \<Rightarrow> daemon_row" where
  "daemon_row_of d = \<lparr>dr_name = daemon_name d, dr_cur_hw = cur_hw d, dr_is_hw_handler = is_hw_handler d\<rparr>"

text \<open>The system row before the services fill their columns.\<close>

definition basic_row :: "config_env \<Rightarrow> string \<Rightarrow> subsystem \<Rightarrow> ovsdb \<Rightarrow> system_row" where
  "basic_row env nm s db = system_fresh\<lparr>mgmt_intf_map := [(key_mgmt_name (ce_names env), nm)],
     sys_bridges := [length (db_bridge db)], sys_vrfs := [length (db_vrf db)],
     management_mac := ce_mac_text env (mgmt_mac_addr s), system_mac := ce_mac_text env (system_mac_addr s)\<rparr>"

lemma base_complete:
  assumes "mgmt_intf_name (ce_manifest env) = Inr nm" and "ce_set_table_id env [0] 8 = Inr ids" and "ce_subsystems env = [s]"
  obtains base where "configure_base env (length (db_system db)) (db\<lparr>db_system := db_system db @ [system_fresh]\<rparr>) = Inr base"
    and "db_system base = db_system db @ [basic_row env nm s db]"
    and "db_interface base = db_interface db @ [bridge_interface (ce_names env)]"
    and "db_subsystem base = db_subsystem db" and "db_daemon base = db_daemon db" and "db_qos base = db_qos db"
    and "db_package_info base = db_package_info db"
  using assms
  by (simp add: configure_base_def Let_def sysd_configure_default_vrf_def sysd_configure_default_bridge_def upd_nth_last
      smap_add_def basic_row_def bridge_interface_def)

lemma no_daemons: "sys_daemons r = [] \<Longrightarrow> r\<lparr>sys_subsystems := l, sys_daemons := []\<rparr> = r\<lparr>sys_subsystems := l\<rparr>"
  by (cases r) simp

lemma tables_complete:
  assumes "ce_subsystems env = [s]" and "subsystem_fits s" and "qos_fits (ce_qos env)" and "ce_acl env = Some a"
    and "ce_calloc_intf_ok env" and "ce_calloc_subsys_ok env" and "ce_calloc_daemons_ok env"
    and "store_wf (db_qos db)" and "sys < length (db_system db)" and "sys_daemons (db_system db ! sys) = []"
  obtains db' where "configure_tables env sys db = Inr db'"
    and "db_daemon db' = db_daemon db @ map daemon_row_of (daemons (ce_manifest env))"
    and "db_subsystem db' = db_subsystem db @ [subsystem_row_of env s (length (db_interface db))]"
    and "map unlinked (db_interface db') = map unlinked (db_interface db) @ map (unlinked \<circ> port_row env s) (interfaces s)"
    and "system_core (db_system db' ! sys) = system_core ((db_system db ! sys)\<lparr>sys_subsystems := [length (db_subsystem db)],
      sys_daemons := [length (db_daemon db)..<length (db_daemon db')], timezone := DFLT_TIMEZONE\<rparr>)"
    and "acl_limits (db_system db' ! sys) = (Some (sint (max_acls a)), Some (sint (max_aces a)), Some (sint (max_aces_per_acl a)))"
    and "db_package_info db' = db_package_info db"
proof -
  let ?ds = "daemons (ce_manifest env)"
  obtain ifs where sub: "sysd_initial_subsystem_add (ce_names env) (ce_mac_text env) True (ce_hw_desc_dir env) s db =
      Inr (length (db_subsystem db), db\<lparr>db_interface := ifs,
        db_subsystem := db_subsystem db @ [subsystem_row_of env s (length (db_interface db))]\<rparr>)"
    and ifs: "map unlinked ifs = map unlinked (db_interface db) @ map (unlinked \<circ> port_row env s) (interfaces s)"
    by (rule subsystem_added [OF assms(2)])
  let ?db6 = "db\<lparr>db_interface := ifs, db_subsystem := db_subsystem db @ [subsystem_row_of env s (length (db_interface db))]\<rparr>"
  let ?rows = "[length (db_daemon db)..<length (db_daemon db) + length ?ds]"
  let ?row = "(db_system db ! sys)\<lparr>sys_subsystems := [length (db_subsystem db)], sys_daemons := ?rows\<rparr>"
  let ?db9 = "?db6\<lparr>db_daemon := db_daemon db @ map daemon_row_of ?ds, db_system := (db_system db)[sys := ?row]\<rparr>"
  have tables: "configure_tables env sys db = configure_services env sys ?db9"
    using assms(5-7,9,10)
    by (cases "?ds = []") (simp_all add: configure_tables_def assms(1) sub add_daemons_rows daemon_row_of_def [abs_def]
        set_system_def upd_nth_def no_daemons)
  obtain db' where run: "configure_services env sys ?db9 = Inr db'"
    and core: "same_core (set_system sys (\<lambda>s. s\<lparr>timezone := DFLT_TIMEZONE\<rparr>) ?db9) db'"
    and acl: "acl_limits (db_system db' ! sys) = (Some (sint (max_acls a)), Some (sint (max_aces a)), Some (sint (max_aces_per_acl a)))"
    by (rule services_complete [of ?db9 env a sys]) (use assms(3,4,8,9) in auto)
  have "map system_core (db_system db') ! sys = system_core (?row\<lparr>timezone := DFLT_TIMEZONE\<rparr>)"
    using core assms(9) by (simp add: same_core_def upd_nth_def)
  moreover have "sys < length (db_system db')" using same_core_length [OF core] assms(9) by simp
  ultimately show ?thesis
    using core ifs by (intro that [OF _ _ _ _ _ acl]) (simp_all add: tables run same_core_def)
qed

lemma system_core_eq:
  "system_core r = system_core t \<Longrightarrow> sys_daemons r = sys_daemons t \<and> sys_subsystems r = sys_subsystems t \<and>
     sys_bridges r = sys_bridges t \<and> sys_vrfs r = sys_vrfs t \<and> mgmt_intf_map r = mgmt_intf_map t \<and>
     management_mac r = management_mac t \<and> system_mac r = system_mac t \<and> timezone r = timezone t \<and> sys_cur_hw r = sys_cur_hw t"
  by (cases r; cases t; simp add: system_core_def)

lemma unlinked_port_row: "unlinked \<circ> port_row env s = port_row env s"
  by (simp add: fun_eq_iff unlinked_def port_row_def interface_fresh_def)

lemma configuration_run:
  assumes "mgmt_intf_name (ce_manifest env) = Inr nm" and "ce_set_table_id env [0] 8 = Inr ids" and "ce_subsystems env = [s]"
    and "subsystem_fits s" and "qos_fits (ce_qos env)" and "ce_acl env = Some a"
    and "ce_calloc_intf_ok env" and "ce_calloc_subsys_ok env" and "ce_calloc_daemons_ok env" and "refs_ok db"
  shows "\<exists>db' r. sysd_initial_configure env db = Inr db' \<and> refs_ok db' \<and>
    db_daemon db' = db_daemon db @ map daemon_row_of (daemons (ce_manifest env)) \<and>
    db_subsystem db' = db_subsystem db @ [subsystem_row_of env s (Suc (length (db_interface db)))] \<and>
    map unlinked (db_interface db') = map unlinked (db_interface db) @
      unlinked (bridge_interface (ce_names env)) # map (port_row env s) (interfaces s) \<and>
    length (db_system db') = Suc (length (db_system db)) \<and> db_system db' ! length (db_system db) = r \<and>
    sys_daemons r = [length (db_daemon db)..<length (db_daemon db')] \<and> sys_subsystems r = [length (db_subsystem db)] \<and>
    sys_bridges r = [length (db_bridge db)] \<and> sys_vrfs r = [length (db_vrf db)] \<and>
    mgmt_intf_map r = [(key_mgmt_name (ce_names env), nm)] \<and> management_mac r = ce_mac_text env (mgmt_mac_addr s) \<and>
    system_mac r = ce_mac_text env (system_mac_addr s) \<and> timezone r = DFLT_TIMEZONE \<and> sys_cur_hw r = 0 \<and>
    db_package_info db' = db_package_info db \<and>
    acl_limits r = (Some (sint (max_acls a)), Some (sint (max_aces a)), Some (sint (max_aces_per_acl a)))"
proof -
  let ?sys = "length (db_system db)"
  obtain base where base: "configure_base env ?sys (db\<lparr>db_system := db_system db @ [system_fresh]\<rparr>) = Inr base"
    "db_system base = db_system db @ [basic_row env nm s db]"
    "db_interface base = db_interface db @ [bridge_interface (ce_names env)]"
    "db_subsystem base = db_subsystem db" "db_daemon base = db_daemon db" "db_qos base = db_qos db"
    "db_package_info base = db_package_info db"
    by (rule base_complete [OF assms(1-3)])
  have row: "?sys < length (db_system base)" "sys_daemons (db_system base ! ?sys) = []"
    "db_system base ! ?sys = basic_row env nm s db"
    by (simp_all add: base(2) basic_row_def system_fresh_def)
  have "store_wf (db_qos base)" using assms(10) by (simp add: base(6) refs_ok_def)
  then obtain db' where db': "configure_tables env ?sys base = Inr db'"
    "db_daemon db' = db_daemon base @ map daemon_row_of (daemons (ce_manifest env))"
    "db_subsystem db' = db_subsystem base @ [subsystem_row_of env s (length (db_interface base))]"
    "map unlinked (db_interface db') = map unlinked (db_interface base) @ map (unlinked \<circ> port_row env s) (interfaces s)"
    "system_core (db_system db' ! ?sys) = system_core ((db_system base ! ?sys)\<lparr>sys_subsystems := [length (db_subsystem base)],
      sys_daemons := [length (db_daemon base)..<length (db_daemon db')], timezone := DFLT_TIMEZONE\<rparr>)"
    "acl_limits (db_system db' ! ?sys) = (Some (sint (max_acls a)), Some (sint (max_aces a)), Some (sint (max_aces_per_acl a)))"
    "db_package_info db' = db_package_info base"
    by (rule tables_complete [OF assms(3-9) _ row(1,2)])
  have run: "sysd_initial_configure env db = Inr db'"
    using base(1) db'(1) by (simp add: sysd_initial_configure_def Let_def)
  show ?thesis
    using configure_safe [OF assms(10) run] system_core_eq [OF db'(5)] db'(2-4,6,7) run
    by (intro exI [of _ db'] exI [of _ "db_system db' ! ?sys"])
       (simp add: row(3) base(3-5,7) basic_row_def system_fresh_def unlinked_port_row)
qed

lemma interface_names:
  assumes "map unlinked rows = map unlinked rows' @ unlinked (bridge_interface names) # map (port_row env s) ps"
  shows "map if_name rows = map if_name rows' @ default_bridge_name names # map port_name ps"
proof -
  have "if_name \<circ> unlinked = if_name" by (simp add: fun_eq_iff unlinked_def)
  then have "map if_name (map unlinked rs) = map if_name rs" for rs by simp
  with arg_cong [OF assms, of "map if_name"] show ?thesis
    by (simp add: unlinked_def bridge_interface_def port_row_def comp_def)
qed


section \<open>Witness\<close>

text \<open>A switch with a port that is split in two, two daemons, and quality-of-service profiles.\<close>

definition full_subsystem :: subsystem where
  "full_subsystem = subsystem_zero\<lparr>subsystem_name := ''base'', intf_count := 3, intf_cmn_info := Some sample_port_info,
     interfaces := sample_ports, mgmt_mac_addr := 5, system_mac_addr := 6\<rparr>"

definition full_env :: config_env where
  "full_env = sample_env\<lparr>ce_qos := sample_qos, ce_subsystems := [full_subsystem],
     ce_manifest := manifest_init\<lparr>mgmt_intf := Some (''eth0'' @ [CHR 0x00]),
       daemons := [\<lparr>daemon_name = ''ops-sysd'', is_hw_handler = False, cur_hw = 1\<rparr>,
         \<lparr>daemon_name = ''ops-ledd'', is_hw_handler = True, cur_hw = 0\<rparr>]\<rparr>\<rparr>"

lemma full_subsystem_fits: "subsystem_fits full_subsystem"
  by (simp add: subsystem_fits_def full_subsystem_def speeds_fit_def sample_ports_def sample_port_def split_consistent_def
      port_complete_def port_defs
      show_d_def nat_digits.simps)

lemma sample_qos_fits: "qos_fits sample_qos"
  by (simp add: qos_fits_def map_fits_def sample_schedule_entries sample_schedule_def) (simp add: sample_qos_def profiles_named_def)

lemma full_env_simps:
  "mgmt_intf_name (ce_manifest full_env) = Inr ''eth0''" "ce_set_table_id full_env [0] 8 = Inr [0]"
  "ce_subsystems full_env = [full_subsystem]" "ce_qos full_env = sample_qos"
  "ce_acl full_env = Some \<lparr>max_acls = 1, max_aces = 1, max_aces_per_acl = 1\<rparr>"
  "ce_calloc_intf_ok full_env" "ce_calloc_subsys_ok full_env" "ce_calloc_daemons_ok full_env"
  by (simp_all add: full_env_def sample_env_def mgmt_intf_name_def c_string_at_def)

lemma qos_fits_full_env: "qos_fits (ce_qos full_env)"
  by (simp add: full_env_simps sample_qos_fits)


end
