(* ===== verification/Startup.thy ===== *)
theory Startup
  imports Main_Loop Platform Configured
begin

text \<open>
  The start of the daemon, \<open>main\<close> in \<open>src/sysd.c\<close>: the steps that have to succeed before the main
  loop, in their order, the access to the YAML files, the status LED, the commands of the control
  socket, and the decision whether an iteration of the loop may block.
\<close>

section \<open>Status LED\<close>

record yaml_system_led =
  status_led :: "nat option"
  led_on :: "32 word"
  led_flashing :: "32 word"

text \<open>The register write, if there is one: the operation and its value.\<close>

definition sysd_cfg_yaml_set_system_status_led :: "yaml_system_led option \<Rightarrow> int \<Rightarrow> (nat \<times> 32 word) option" where
  "sysd_cfg_yaml_set_system_status_led system_led good =
     (case system_led of
        None \<Rightarrow> None
      | Some l \<Rightarrow>
          (case status_led l of
             None \<Rightarrow> None
           | Some op \<Rightarrow> Some (op, if good \<noteq> 0 then led_on l else led_flashing l)))"

section \<open>Access to the YAML files\<close>

text \<open>
  The calls of the config-yaml and I2C libraries, each with the subsystem it is for. The \<open>k\<close>-th
  \<open>i2c_data_read\<close> gets an offset and a length and returns its code and the bytes.
\<close>

record yaml_library =
  yaml_get_port_count :: "string \<Rightarrow> nat"
  yaml_get_port :: "string \<Rightarrow> int \<Rightarrow> yaml_port option"
  yaml_get_port_info :: "string \<Rightarrow> yaml_port_info option"
  i2c_data_read :: "nat \<Rightarrow> string \<Rightarrow> nat \<Rightarrow> nat \<Rightarrow> int \<times> byte list"

definition BASE_SUBSYSTEM :: string where "BASE_SUBSYSTEM = ''base''"

text \<open>The count is converted to \<open>int\<close>, whatever it is.\<close>

definition sysd_cfg_yaml_get_port_count :: "yaml_library \<Rightarrow> int" where
  "sysd_cfg_yaml_get_port_count l = sint (of_nat (yaml_get_port_count l BASE_SUBSYSTEM) :: c_int)"

definition sysd_cfg_yaml_get_port_info :: "yaml_library \<Rightarrow> int \<Rightarrow> yaml_port option" where
  "sysd_cfg_yaml_get_port_info l index = yaml_get_port l BASE_SUBSYSTEM index"

definition sysd_cfg_yaml_get_port_subsys_info :: "yaml_library \<Rightarrow> yaml_port_info option" where
  "sysd_cfg_yaml_get_port_subsys_info l = yaml_get_port_info l BASE_SUBSYSTEM"

definition sysd_cfg_yaml_fru_read :: "yaml_library \<Rightarrow> nat \<Rightarrow> nat \<Rightarrow> byte list option" where
  "sysd_cfg_yaml_fru_read l k hdr_len =
     (let (rc, fru_hdr) = i2c_data_read l k BASE_SUBSYSTEM 0 hdr_len
      in if 0 \<noteq> rc then None else Some fru_hdr)"

section \<open>Initialisation\<close>

record startup_env =
  appctl_rc :: int
  calloc_daemon_ok :: "nat \<Rightarrow> bool"
  manifest_file :: "json option"
  platform_env :: platform_env
  fru_yaml_not_found :: int
  yaml_results :: yaml_results
  calloc_subsystem_ok :: "nat \<Rightarrow> bool"
  mac_value :: "byte list \<Rightarrow> 64 word"
  crc32 :: "32 word \<Rightarrow> byte list \<Rightarrow> 32 word"
  yaml_fru_info :: "yaml_fru_info option"
  rand :: "nat \<Rightarrow> c_int"
  yaml_library :: yaml_library
  calloc_interfaces_ok :: bool
  system_led :: "yaml_system_led option"

abbreviation port_subsys_info :: "startup_env \<Rightarrow> yaml_port_info option" where
  "port_subsys_info e \<equiv> sysd_cfg_yaml_get_port_subsys_info (yaml_library e)"

abbreviation port_count :: "startup_env \<Rightarrow> int" where
  "port_count e \<equiv> sysd_cfg_yaml_get_port_count (yaml_library e)"

abbreviation port_info :: "startup_env \<Rightarrow> nat \<Rightarrow> yaml_port option" where
  "port_info e idx \<equiv> sysd_cfg_yaml_get_port_info (yaml_library e) (int idx)"

text \<open>What the main loop starts with.\<close>

record daemon_state =
  ds_manifest :: manifest
  ds_platform :: platform
  ds_subsystems :: "subsystem list"
  ds_led_write :: "(nat \<times> 32 word) option"

datatype start_result = Exit int | Started daemon_state

definition startup_fru :: "startup_env \<Rightarrow> bool \<Rightarrow> fru_eeprom \<Rightarrow> (int \<times> fru_eeprom) run" where
  "startup_fru e fru_yaml =
     sysd_read_fru_eeprom (crc32 e) fru_yaml (sysd_cfg_yaml_get_fru_info (yaml_fru_info e) (rand e))
       (sysd_cfg_yaml_fru_read (yaml_library e))"

definition main_hardware :: "startup_env \<Rightarrow> manifest \<Rightarrow> platform \<Rightarrow> start_result run" where
  "main_hardware e m p =
     (let (ok, fru_yaml) = sysd_cfg_yaml_init (fru_yaml_not_found e) (yaml_results e) True
      in if \<not> ok then Inr (Exit (-1))
         else
           and_then (sysd_get_subsystem_info (calloc_subsystem_ok e) (mac_value e) (startup_fru e fru_yaml)) (\<lambda>(rc, s).
             case s of
               None \<Rightarrow> Inr (Exit (-1))
             | Some subsys \<Rightarrow>
                 if rc \<noteq> 0 then Inr (Exit (-1))
                 else
                   (let (rc', subsys') = sysd_get_interface_info (calloc_interfaces_ok e) (port_subsys_info e)
                          (port_count e) (port_info e) subsys
                    in if rc' \<noteq> 0 then Inr (Exit (-1))
                       else Inr (Started \<lparr>ds_manifest = m, ds_platform = p, ds_subsystems = [subsys'],
                              ds_led_write = sysd_cfg_yaml_set_system_status_led (system_led e) 1\<rparr>))))"

definition main_init :: "startup_env \<Rightarrow> platform \<Rightarrow> start_result run option" where
  "main_init e p =
     (if appctl_rc e \<noteq> 0 then Some (Inr (Exit 1))
      else
        and_next (Some (sysd_read_manifest_file (calloc_daemon_ok e) (manifest_file e) manifest_init)) (\<lambda>(rc, m).
          if rc \<noteq> 0 then Some (Inr (Exit (-1)))
          else
            and_next (sysd_find_hw_desc_files (platform_env e) p) (\<lambda>(rc', p').
              if rc' \<noteq> 0 then Some (Inr (Exit (-1)))
              else Some (main_hardware e m p'))))"

text \<open>
  The state as it would be if the object of the management interface had the characters \<open>buf\<close>; the
  code allocates it with none.
\<close>

definition with_intf_array :: "string \<Rightarrow> daemon_state \<Rightarrow> daemon_state" where
  "with_intf_array buf d = d\<lparr>ds_manifest := (ds_manifest d)\<lparr>mgmt_intf := Some buf\<rparr>\<rparr>"

text \<open>The configuration reads what the start has left in the global variables.\<close>

definition started_config :: "daemon_state \<Rightarrow> config_env \<Rightarrow> config_env" where
  "started_config d c = c\<lparr>ce_manifest := ds_manifest d, ce_subsystems := ds_subsystems d,
     ce_hw_desc_dir := g_hw_desc_dir (ds_platform d)\<rparr>"

section \<open>Commands of the control socket and the end of an iteration\<close>

definition BUF_LEN :: nat where "BUF_LEN = 16000"

text \<open>The dump starts at the beginning of the buffer, over the header that is already there.\<close>

definition sysd_unixctl_dump :: "bool \<Rightarrow> manifest \<Rightarrow> string run" where
  "sysd_unixctl_dump calloc_ok m =
     (if calloc_ok then sysd_dump m BUF_LEN
      else Inr (trunc_copy 255 (''sysd daemon failed to allocate '' @ show_d (int BUF_LEN) @ '' bytes'' @ nl)))"

definition sysd_diag_dump_basic_cb :: "bool \<Rightarrow> bool \<Rightarrow> manifest \<Rightarrow> string option run" where
  "sysd_diag_dump_basic_cb buf_given calloc_ok m =
     (if \<not> buf_given then Inr None
      else if calloc_ok then and_then (sysd_dump m BUF_LEN) (\<lambda>s. Inr (Some s))
      else Inr None)"

datatype unixctl_command = Dump_Command | Exit_Command

text \<open>
  What is left after a command. The subsystems are freed by the one that ends the daemon, and the
  pointer is not reset: a second one before the end of the iteration frees them again.
\<close>

record control_state =
  exiting :: bool
  subsystems_freed :: bool
  led_write :: "(nat \<times> 32 word) option"
  replies :: "string option list"

definition sysd_exit :: "yaml_system_led option \<Rightarrow> control_state \<Rightarrow> control_state run" where
  "sysd_exit led c =
     (let c1 = c\<lparr>exiting := True, led_write := sysd_cfg_yaml_set_system_status_led led 0\<rparr>
      in if subsystems_freed c1 then Inl Double_Free
         else Inr (c1\<lparr>subsystems_freed := True, replies := replies c1 @ [None]\<rparr>))"

definition control_init :: control_state where
  "control_init = \<lparr>exiting = False, subsystems_freed = False, led_write = None, replies = []\<rparr>"

text \<open>
  The library answers the commands that have arrived by calling their handlers, each with its own
  outcome of the allocation; which and in which order is a part of the environment of an iteration.
\<close>

type_synonym handler_call = "unixctl_command \<times> bool"

fun handler_calls :: "yaml_system_led option \<Rightarrow> manifest \<Rightarrow> handler_call list \<Rightarrow> control_state \<Rightarrow> control_state run" where
  "handler_calls led m [] c = Inr c"
| "handler_calls led m ((Dump_Command, calloc_ok) # cs) c =
     and_then (sysd_unixctl_dump calloc_ok m) (\<lambda>s. handler_calls led m cs (c\<lparr>replies := replies c @ [Some s]\<rparr>))"
| "handler_calls led m ((Exit_Command, calloc_ok) # cs) c = and_then (sysd_exit led c) (handler_calls led m cs)"

abbreviation asks_exit :: "handler_call list \<Rightarrow> bool" where
  "asks_exit calls \<equiv> Exit_Command \<in> fst ` set calls"

datatype wake = Run_Again | Wake_Immediately | Block

definition main_wait :: "32 word \<Rightarrow> 32 word \<Rightarrow> bool \<Rightarrow> wake" where
  "main_wait processed current stop =
     (if processed \<noteq> current then Run_Again else if stop then Wake_Immediately else Block)"

text \<open>
  The loop over a list of iterations, each with its environment, the calls of the handlers and the
  version the database has at its end. It stops when an iteration has been told to exit.
\<close>

fun main_iterations :: "yaml_system_led option \<Rightarrow> manifest \<Rightarrow> (loop_env \<times> handler_call list \<times> 32 word) list \<Rightarrow>
    loop_state \<times> control_state \<Rightarrow> (loop_state \<times> control_state \<times> wake list) run" where
  "main_iterations led m [] (st, c) = Inr (st, c, [])"
| "main_iterations led m ((e, calls, seqno) # is) (st, c) =
     (if exiting c then Inr (st, c, [])
      else
        and_then (sysd_run e st) (\<lambda>st'.
        and_then (handler_calls led m calls c) (\<lambda>c'.
        and_then (main_iterations led m is (st', c')) (\<lambda>(st'', c'', ws).
          Inr (st'', c'', main_wait (idl_seqno st') seqno (exiting c') # ws)))))"

section \<open>Lemmas\<close>

lemma main_init_started:
  assumes "main_init e p = Some (Inr (Started d))"
  obtains j m p' where "manifest_file e = Some j" "sysd_read_manifest_file (calloc_daemon_ok e) (Some j) manifest_init = Inr (0, m)"
    "sysd_find_hw_desc_files (platform_env e) p = Some (Inr (0, p'))" "main_hardware e m p' = Inr (Started d)"
proof -
  obtain m p' where m: "sysd_read_manifest_file (calloc_daemon_ok e) (manifest_file e) manifest_init = Inr (0, m)"
    and p': "sysd_find_hw_desc_files (platform_env e) p = Some (Inr (0, p'))"
    and hw: "main_hardware e m p' = Inr (Started d)"
    using assms by (auto simp: main_init_def and_next_eq_Inr split: if_splits)
  obtain j where "manifest_file e = Some j"
    using m by (cases "manifest_file e") (auto simp: sysd_read_manifest_file_def)
  with m p' hw that show ?thesis by simp
qed

lemma main_hardware_started:
  assumes "main_hardware e m p = Inr (Started d)"
  shows "ds_manifest d = m \<and> ds_platform d = p \<and>
    (\<exists>s. ds_subsystems d = [s] \<and> intf_cmn_info s = port_subsys_info e \<and> port_subsys_info e \<noteq> None \<and> 0 < port_count e \<and>
       intf_count s = port_count e \<and> int (length (interfaces s)) = port_count e \<and>
       (\<forall>k < length (interfaces s). port_info e k = Some (interfaces s ! k)))"
proof -
  obtain ok fru_yaml where init: "sysd_cfg_yaml_init (fru_yaml_not_found e) (yaml_results e) True = (ok, fru_yaml)" by fastforce
  with assms obtain s0 where
    "sysd_get_subsystem_info (calloc_subsystem_ok e) (mac_value e) (startup_fru e fru_yaml) = Inr (0, Some s0)"
    and hw: "(let (rc', subsys') = sysd_get_interface_info (calloc_interfaces_ok e) (port_subsys_info e)
          (port_count e) (port_info e) s0
        in if rc' \<noteq> 0 then Inr (Exit (-1))
           else Inr (Started \<lparr>ds_manifest = m, ds_platform = p, ds_subsystems = [subsys'],
             ds_led_write = sysd_cfg_yaml_set_system_status_led (system_led e) 1\<rparr>) :: start_result run) = Inr (Started d)"
    by (auto simp: main_hardware_def and_then_eq_Inr split: if_splits option.splits)
  then obtain s where s: "sysd_get_interface_info (calloc_interfaces_ok e) (port_subsys_info e)
          (port_count e) (port_info e) s0 = (0, s)" and d: "d = \<lparr>ds_manifest = m, ds_platform = p, ds_subsystems = [s],
             ds_led_write = sysd_cfg_yaml_set_system_status_led (system_led e) 1\<rparr>"
    by (auto simp: Let_def split: if_splits prod.splits)
  then obtain info ps where "port_subsys_info e = Some info" "0 < port_count e"
    "collect_ports (port_info e) 0 (nat (port_count e)) = Some ps"
    "s = s0\<lparr>intf_count := port_count e, intf_cmn_info := Some info, interfaces := ps\<rparr>"
    by (auto simp: sysd_get_interface_info_def split: option.splits if_splits)
  then show ?thesis by (simp add: d collect_ports_eq)
qed

lemma configure_base_name_fault:
  "mgmt_intf_name (ds_manifest d) = Inl x \<Longrightarrow> configure_base (started_config d c) sys db = Inl x"
  by (simp add: configure_base_def started_config_def)

lemma configure_base_faults:
  assumes "mgmt_intf_name (ds_manifest d) = Inr nm"
  shows "(\<exists>x. configure_base (started_config d c) sys db = Inl x) \<longleftrightarrow>
     (\<exists>x. ce_set_table_id c [0] 8 = Inl x) \<or> ds_subsystems d = []"
proof (cases "ce_set_table_id c [0] 8")
  case (Inl x)
  then show ?thesis
    by (simp add: configure_base_def started_config_def sysd_configure_default_vrf_def Let_def assms)
next
  case (Inr ids)
  then show ?thesis
    by (simp add: configure_base_def started_config_def sysd_configure_default_vrf_def Let_def assms split: list.split)
qed

lemma with_intf_array_simps [simp]:
  "ds_subsystems (with_intf_array buf d) = ds_subsystems d" "ds_platform (with_intf_array buf d) = ds_platform d"
  "mgmt_intf_name (ds_manifest (with_intf_array buf d)) = c_string_at buf"
  "daemons (ds_manifest (with_intf_array buf d)) = daemons (ds_manifest d)"
  by (simp_all add: with_intf_array_def mgmt_intf_name_def)

lemma sysd_unixctl_dump_ok [simp]: "sysd_unixctl_dump True m = sysd_dump m BUF_LEN"
  by (simp add: sysd_unixctl_dump_def)

lemma control_exiting:
  "handler_calls led m cs c = Inr c' \<Longrightarrow> exiting c' \<longleftrightarrow> exiting c \<or> asks_exit cs"
  by (induction led m cs c rule: handler_calls.induct) (auto simp: and_then_eq_Inr sysd_exit_def Let_def split: if_splits)

text \<open>The loader of the package table adds the same rows whatever else the database holds.\<close>

lemma packages_added:
  assumes "sysd_add_package_info p i c v ovsdb_empty = Inr loaded"
  shows "sysd_add_package_info p i c v db = Inr (db\<lparr>db_package_info := db_package_info db @ db_package_info loaded\<rparr>)"
proof (cases "\<not> p \<or> v = None")
  case True
  with assms have "loaded = ovsdb_empty" by (auto simp: sysd_add_package_info_def split: if_splits)
  with True show ?thesis by (auto simp: sysd_add_package_info_def ovsdb_empty_def)
next
  case False
  then obtain es where es: "p" "v = Some es" by auto
  let ?rest = "\<lambda>l. if \<not> returned l \<and> pkg_txn l \<noteq> None then txn_commit c l else Inr l"
  from assms es obtain l l' where l: "package_loop i c es loader_init = Inr l" "?rest l = Inr l'"
    and loaded: "ovsdb_empty\<lparr>db_package_info := db_package_info ovsdb_empty @ stored l'\<rparr> = loaded"
    by (simp add: sysd_add_package_info_def and_then_eq_Inr) blast
  from loaded have "db_package_info loaded = stored l'" by (auto simp: ovsdb_empty_def)
  with l es show ?thesis by (simp add: sysd_add_package_info_def)
qed

text \<open>The iteration that configures the empty database.\<close>

definition first_packages :: "ovsdb \<Rightarrow> ovsdb \<Rightarrow> ovsdb" where
  "first_packages loaded db =
     (if db_package_info db = [] then db\<lparr>db_package_info := db_package_info loaded\<rparr> else db)"

text \<open>The link after it: a link that cannot be removed stays, and a link that is removed may not be made.\<close>

definition utc_link :: "loop_env \<Rightarrow> string option \<Rightarrow> string option" where
  "utc_link le old =
     (if \<not> unlink_ok le \<and> old \<noteq> None then old
      else if symlink_ok le then Some ''/usr/share/zoneinfo/posix/UTC'' else None)"

lemma first_iteration:
  assumes "\<not> lock_contended le" and "has_lock le" and "new_seqno le \<noteq> idl_seqno st" and "configure_commit_ok le"
    and "ovsdb_idl_run (external le) (database st) = db" and "during_commit le = id" and "during_load le = id"
    and "db_system db = []" and "sysd_initial_configure (config le) db = Inr db'" and "db_system db' = [r]" and "timezone r = DFLT_TIMEZONE"
    and "sysd_add_package_info (yaml_parser_ok le) (pkg_insert_ok le) (pkg_commit_ok le) (version_detail le) ovsdb_empty = Inr loaded"
  shows "sysd_run le st = Inr (st\<lparr>database := first_packages loaded db', idl_seqno := new_seqno le,
    localtime := utc_link le (localtime st), startup_notified := True\<rparr>)"
proof -
  let ?st = "st\<lparr>database := db', idl_seqno := new_seqno le\<rparr>"
  have run: "run_system le (st\<lparr>database := db, idl_seqno := new_seqno le\<rparr>) = Inr ?st"
    using assms(4,6,8,9) by (simp add: run_system_def)
  have packages: "run_packages le ?st = Inr (?st\<lparr>database := first_packages loaded db'\<rparr>)"
    using packages_added [OF assms(12), of db'] assms(7) by (simp add: run_packages_def first_packages_def)
  have "db_system (first_packages loaded db') = [r]" using assms(10) by (simp add: first_packages_def)
  then have "run_timezone le (?st\<lparr>database := first_packages loaded db'\<rparr>) =
      Inr (?st\<lparr>database := first_packages loaded db',
        localtime := utc_link le (localtime st)\<rparr>)"
    using assms(11) by (simp add: run_timezone_def sysd_handle_timezone_update_def TIMEZONE_CMD_SIZE_def
        ZONEINFO_BASE_def DFLT_TIMEZONE_def utc_link_def Let_def)
  with assms(1-3,5) run packages show ?thesis by (simp add: sysd_run_def Let_def)
qed

section \<open>Properties\<close>

text \<open>
  What a successful start leaves: one subsystem with port information and as many interfaces as the
  port file counts, the hardware description link in place, and the right counter of hardware
  daemons. The basic configuration faults on it in any database: it reads the name of the
  management interface from the object without a character that the manifest reader has
  allocated, or through the null pointer that it has left. That is all that the start
  leaves undone: with a readable array in this place only the generated setter of table_id can
  fault.
\<close>

lemma startup_ready:
  assumes "main_init e p = Some (Inr (Started d))"
  shows "\<exists>j s. manifest_file e = Some j \<and> ds_subsystems d = [s] \<and> intf_cmn_info s \<noteq> None \<and>
    0 < port_count e \<and> int (length (interfaces s)) = port_count e \<and>
    hwdesc_link (ds_platform d) = Some (g_hw_desc_dir (ds_platform d)) \<and>
    num_hw_daemons (ds_manifest d) = int (length (filter is_hw_handler (daemons (ds_manifest d)))) \<and>
    (\<forall>c sys db. configure_base (started_config d c) sys db =
       Inl (if names_intf (sections j) then Out_Of_Bounds_Read else Null_Dereference)) \<and>
    (\<forall>buf nm c sys db. c_string_at buf = Inr nm \<longrightarrow>
       ((\<exists>x. configure_base (started_config (with_intf_array buf d) c) sys db = Inl x) \<longleftrightarrow>
         (\<exists>x. ce_set_table_id c [0] 8 = Inl x)))"
proof -
  obtain j m p' where j: "manifest_file e = Some j"
    and m: "sysd_read_manifest_file (calloc_daemon_ok e) (Some j) manifest_init = Inr (0, m)"
    and p': "sysd_find_hw_desc_files (platform_env e) p = Some (Inr (0, p'))" and hw: "main_hardware e m p' = Inr (Started d)"
    by (rule main_init_started [OF assms])
  note h = main_hardware_started [OF hw]
  from h obtain s where s: "ds_subsystems d = [s]" "intf_cmn_info s = port_subsys_info e" "port_subsys_info e \<noteq> None"
    "0 < port_count e" "int (length (interfaces s)) = port_count e" by blast
  have "hwdesc_link p' = Some (g_hw_desc_dir p')" using hw_desc_search [OF p'] by simp
  moreover have "m = sysd_set_num_hw_daemons (fold apply_section (sections j) manifest_init)"
    by (rule read_manifest_success [OF m])
  then have "num_hw_daemons m = int (length (filter is_hw_handler (daemons m)))" by (simp add: num_hw_daemons_eq)
  moreover have "configure_base (started_config d c) sys db =
      Inl (if names_intf (sections j) then Out_Of_Bounds_Read else Null_Dereference)" for c sys db
    using mgmt_intf_name_read [OF m] h by (intro configure_base_name_fault) simp
  moreover have "(\<exists>x. configure_base (started_config (with_intf_array buf d) c) sys db = Inl x) \<longleftrightarrow>
      (\<exists>x. ce_set_table_id c [0] 8 = Inl x)" if "c_string_at buf = Inr nm" for buf nm c sys db
    using configure_base_faults [of "with_intf_array buf d" nm] that s(1) by simp
  ultimately show ?thesis
    using h s j by (intro exI [of _ j] exI [of _ s]) simp
qed

text \<open>The declared types of what the start leaves in the global variables.\<close>

definition subsystem_typed :: "subsystem \<Rightarrow> bool" where
  "subsystem_typed s \<longleftrightarrow> fru_typed (Subsystem.fru_eeprom s) \<and> length (subsystem_name s) < MAX_SUBSYSTEM_NAME_LEN \<and>
     0 \<le> num_free_macs s \<and> num_free_macs s \<le> 65535 \<and> 0 < intf_count s \<and> intf_count s < 2 ^ 31 \<and>
     intf_count s = int (length (interfaces s)) \<and> intf_cmn_info s \<noteq> None"

definition daemon_state_typed :: "daemon_state \<Rightarrow> bool" where
  "daemon_state_typed d \<longleftrightarrow> length (ds_subsystems d) = 1 \<and> list_all subsystem_typed (ds_subsystems d) \<and>
     length (g_hw_desc_dir (ds_platform d)) < HW_DESC_DIR_SIZE \<and>
     0 \<le> num_hw_daemons (ds_manifest d) \<and> num_hw_daemons (ds_manifest d) \<le> int (length (daemons (ds_manifest d))) \<and>
     list_all (\<lambda>x. cur_hw x = 0 \<or> cur_hw x = 1) (daemons (ds_manifest d))"

lemma main_hardware_typed:
  assumes "main_hardware e m p = Inr (Started d)" and "case yaml_fru_info e of None \<Rightarrow> True | Some y \<Rightarrow> yaml_fru_typed y"
  shows "list_all subsystem_typed (ds_subsystems d)"
proof -
  obtain ok fru_yaml where init: "sysd_cfg_yaml_init (fru_yaml_not_found e) (yaml_results e) True = (ok, fru_yaml)" by fastforce
  with assms obtain s0 rc s where
    s0: "sysd_get_subsystem_info (calloc_subsystem_ok e) (mac_value e) (startup_fru e fru_yaml) = Inr (0, Some s0)"
    and s: "sysd_get_interface_info (calloc_interfaces_ok e) (port_subsys_info e) (port_count e) (port_info e) s0 = (rc, s)"
    and d: "rc = 0" "ds_subsystems d = [s]"
    by (auto simp: main_hardware_def and_then_eq_Inr Let_def split: if_splits option.splits prod.splits)
  have "fru_typed f" if "startup_fru e fru_yaml fru_zero = Inr (rc, f)" for rc f
    using that unfolding startup_fru_def
    by (rule read_fru_typed [OF _ fru_zero_typed]) (rule yaml_fru_info_typed [OF _ fru_zero_typed assms(2)])
  note s0 = subsystem_info_typed [OF s0 this]
  from s d(1) obtain info ps where "0 < port_count e" "collect_ports (port_info e) 0 (nat (port_count e)) = Some ps"
    "s = s0\<lparr>intf_count := port_count e, intf_cmn_info := Some info, interfaces := ps\<rparr>"
    by (auto simp: sysd_get_interface_info_def split: option.splits if_splits)
  moreover have "port_count e < 2 ^ 31"
    using sint_range_size [of "of_nat (yaml_get_port_count (yaml_library e) BASE_SUBSYSTEM) :: c_int"]
    by (simp add: sysd_cfg_yaml_get_port_count_def word_size)
  ultimately show ?thesis using s0 by (auto simp: d(2) subsystem_typed_def collect_ports_eq MAX_SUBSYSTEM_NAME_LEN_def)
qed

text \<open>
  C12. Types: whatever the platform, the manifest, the port file and the EEPROM contain, what a
  successful start leaves in the global variables respects their declarations: the texts of the FRU
  record have no NUL inside and fit their arrays with a terminator, the MAC address has six bytes,
  the pool of MAC addresses has at most 65535, the number of interfaces is a positive \<open>int\<close> and
  the length of the array of interfaces, the directory fits its buffer, and the counter of hardware
  daemons is within the daemon table. The strings of fru.yaml are assumed to be C strings.
\<close>

theorem started_state_typed:
  assumes "main_init e p = Some (Inr (Started d))" and "length (g_hw_desc_dir p) < HW_DESC_DIR_SIZE"
    and "case yaml_fru_info e of None \<Rightarrow> True | Some y \<Rightarrow> yaml_fru_typed y"
  shows "daemon_state_typed d"
proof -
  obtain j m p' where m: "sysd_read_manifest_file (calloc_daemon_ok e) (Some j) manifest_init = Inr (0, m)"
    and p': "sysd_find_hw_desc_files (platform_env e) p = Some (Inr (0, p'))" and hw: "main_hardware e m p' = Inr (Started d)"
    by (rule main_init_started [OF assms(1)])
  have d: "ds_manifest d = m" "ds_platform d = p'" "length (ds_subsystems d) = 1"
    using main_hardware_started [OF hw] by auto
  have "length (g_hw_desc_dir p') < HW_DESC_DIR_SIZE"
    using hw_desc_search [OF p'] assms(2) by (auto simp: HW_DESC_DIR_SIZE_def)
  moreover have m': "m = sysd_set_num_hw_daemons (fold apply_section (sections j) manifest_init)"
    by (rule read_manifest_success [OF m])
  then have "num_hw_daemons m = int (length (filter is_hw_handler (daemons m)))" by (simp add: num_hw_daemons_eq)
  moreover have "cur_hw x = 0 \<or> cur_hw x = 1" if "x \<in> set (section_daemons sec)" for x sec
    using that by (cases sec) (auto simp: new_daemon_def)
  then have "list_all (\<lambda>x. cur_hw x = 0 \<or> cur_hw x = 1) (daemons m)"
    by (auto simp: m' sysd_set_num_hw_daemons_def manifest_init_def list_all_iff)
  ultimately show ?thesis
    using main_hardware_typed [OF hw assms(3)] by (simp add: daemon_state_typed_def d)
qed

lemma exit_freed: "subsystems_freed c \<Longrightarrow> sysd_exit led c = Inl Double_Free"
  by (simp add: sysd_exit_def Let_def)

definition command_reply :: "(bool \<Rightarrow> string) \<Rightarrow> handler_call \<Rightarrow> string option" where
  "command_reply txt call = (case call of (Dump_Command, ok) \<Rightarrow> Some (txt ok) | (Exit_Command, ok) \<Rightarrow> None)"

text \<open>The calls that dump get the replies \<open>txt\<close>, with memory and without.\<close>

definition dumps_to :: "manifest \<Rightarrow> (bool \<Rightarrow> string) \<Rightarrow> handler_call list \<Rightarrow> bool" where
  "dumps_to m txt calls \<longleftrightarrow> (\<forall>ok. (Dump_Command, ok) \<in> set calls \<longrightarrow> sysd_unixctl_dump ok m = Inr (txt ok))"

lemma calls_after_exit:
  "dumps_to m txt calls \<Longrightarrow> subsystems_freed c \<Longrightarrow>
   handler_calls led m calls c =
     (if asks_exit calls then Inl Double_Free else Inr (c\<lparr>replies := replies c @ map (command_reply txt) calls\<rparr>))"
  by (induction led m calls c rule: handler_calls.induct) (auto simp: exit_freed dumps_to_def command_reply_def)

lemma one_call_asks: "asks_exit calls \<longleftrightarrow> 1 \<le> length (filter (\<lambda>k. fst k = Exit_Command) calls)"
  by (induction calls) auto

lemma handler_calls_result:
  assumes "dumps_to m txt calls" and "\<not> subsystems_freed c"
  shows "handler_calls led m calls c =
    (let c' = c\<lparr>replies := replies c @ map (command_reply txt) calls\<rparr>
     in if \<not> asks_exit calls then Inr c'
        else if 2 \<le> length (filter (\<lambda>k. fst k = Exit_Command) calls) then Inl Double_Free
        else Inr (c'\<lparr>exiting := True, subsystems_freed := True,
               led_write := sysd_cfg_yaml_set_system_status_led led 0\<rparr>))"
  using assms
proof (induction led m calls c rule: handler_calls.induct)
  case (3 led m ok calls c)
  let ?c = "c\<lparr>exiting := True, led_write := sysd_cfg_yaml_set_system_status_led led 0, subsystems_freed := True,
    replies := replies c @ [None]\<rparr>"
  have "sysd_exit led c = Inr ?c" using 3(3) by (simp add: sysd_exit_def Let_def)
  moreover have "dumps_to m txt calls" using 3(2) by (simp add: dumps_to_def)
  ultimately show ?case
    using calls_after_exit [of m "txt" calls ?c led] one_call_asks [of calls] by (auto simp: command_reply_def)
qed (auto simp: command_reply_def dumps_to_def Let_def)

text \<open>
  C26. The control socket in an iteration of the main loop that does not fault before it, for any
  calls of the two handlers in any order, each with its own outcome of the allocation: each dump
  replies its text and each exit an empty reply. Without an exit the loop goes on. With one it ends
  with this iteration, which does not block, with the LED flashing and the subsystems
  released. With two of them in one iteration the array of subsystems is released twice. The dumps
  are assumed not to fault: with memory that needs a readable name of the management interface and
  a daemon table that is as long as the counter says.
\<close>

theorem control_commands:
  assumes "sysd_run e st = Inr st1" and "\<not> exiting c" and "\<not> subsystems_freed c" and "dumps_to m txt calls"
  shows "main_iterations led m ((e, calls, seqno) # is) (st, c) =
    (let c1 = c\<lparr>replies := replies c @ map (command_reply txt) calls\<rparr>
     in if \<not> asks_exit calls then
          and_then (main_iterations led m is (st1, c1)) (\<lambda>(st2, c2, ws).
            Inr (st2, c2, main_wait (idl_seqno st1) seqno False # ws))
        else if 2 \<le> length (filter (\<lambda>k. fst k = Exit_Command) calls) then Inl Double_Free
        else Inr (st1, c1\<lparr>exiting := True, subsystems_freed := True,
            led_write := sysd_cfg_yaml_set_system_status_led led 0\<rparr>,
          [if idl_seqno st1 \<noteq> seqno then Run_Again else Wake_Immediately]))"
proof -
  have "main_iterations led m is (s, d) = Inr (s, d, [])" if "exiting d" for s d
    using that by (cases "is") auto
  then show ?thesis
    using assms by (simp add: handler_calls_result [OF assms(4,3)] Let_def main_wait_def)
qed

text \<open>
  The main loop ends with the iteration in which the first exit command arrives, and runs all
  its iterations when there is none; it blocks after an iteration exactly when no newer version of
  the database is there than the one it has processed and it has not been told to exit, so that no
  change is slept through and the iteration with the exit command does not block.
\<close>

lemma loop_exit_and_wait:
  assumes "main_iterations led m is (st, c) = Inr (st', c', ws)" and "\<not> exiting c"
  shows "length ws = min (length is) (Suc (length (takeWhile (\<lambda>(e, calls, seqno). \<not> asks_exit calls) is))) \<and>
    (exiting c' \<longleftrightarrow> list_ex (\<lambda>(e, calls, seqno). asks_exit calls) is) \<and>
    (exiting c' \<longrightarrow> ws \<noteq> [] \<and> last ws \<noteq> Block)"
  using assms
proof (induction "is" arbitrary: st c ws)
  case (Cons i "is")
  obtain e calls seqno where i: "i = (e, calls, seqno)" by (cases i)
  obtain st1 c1 ws1 where c1: "handler_calls led m calls c = Inr c1"
    and rest: "main_iterations led m is (st1, c1) = Inr (st', c', ws1)"
    and ws: "ws = main_wait (idl_seqno st1) seqno (exiting c1) # ws1"
    using Cons.prems by (auto simp: i and_then_eq_Inr split: if_splits)
  have ex: "exiting c1 \<longleftrightarrow> asks_exit calls" using control_exiting [OF c1] Cons.prems(2) by simp
  show ?case
  proof (cases "exiting c1")
    case True
    then have "ws1 = []" "c' = c1" using rest by (cases "is"; auto)+
    with True ex show ?thesis by (simp add: ws i main_wait_def)
  next
    case False
    with Cons.IH [OF rest False] ex show ?thesis by (auto simp: ws i)
  qed
qed simp

section \<open>Witnesses\<close>

definition sample_port_file :: yaml_port where
  "sample_port_file = sample_port ''1'' [] None"

definition sample_yaml :: yaml_library where
  "sample_yaml = \<lparr>yaml_get_port_count = (\<lambda>_. 1), yaml_get_port = (\<lambda>_ _. Some sample_port_file),
     yaml_get_port_info = (\<lambda>_. Some sample_port_info), i2c_data_read = (\<lambda>_ _ _ _. (-1, []))\<rparr>"

lemma sample_yaml_values:
  "sysd_cfg_yaml_get_port_count sample_yaml = 1" "sysd_cfg_yaml_get_port_subsys_info sample_yaml = Some sample_port_info"
  "sysd_cfg_yaml_get_port_info sample_yaml idx = Some sample_port_file"
  by (simp_all add: sample_yaml_def sysd_cfg_yaml_get_port_count_def sysd_cfg_yaml_get_port_subsys_info_def
      sysd_cfg_yaml_get_port_info_def)

definition sample_startup :: startup_env where
  "sample_startup = \<lparr>appctl_rc = 0, calloc_daemon_ok = (\<lambda>_. True), manifest_file = Some image_manifest,
     platform_env = sample_platform, fru_yaml_not_found = -2,
     yaml_results = \<lparr>add_subsystem_rc = 0, parse_devices_rc = 0, parse_ports_rc = 0, parse_fru_rc = 0, parse_qos_rc = 0,
       parse_acl_rc = 0, init_devices_rc = 0, fru_dev_found = True\<rparr>,
     calloc_subsystem_ok = (\<lambda>_. True), mac_value = (\<lambda>_. 7), crc32 = (\<lambda>c _. c), yaml_fru_info = None, rand = (\<lambda>_. 0),
     yaml_library = sample_yaml, calloc_interfaces_ok = True, system_led = None\<rparr>"

lemma sample_started:
  "\<exists>d. main_init sample_startup \<lparr>g_hw_desc_dir = ''/'', hwdesc_link = None\<rparr> = Some (Inr (Started d))"
  by (simp add: main_init_def sample_startup_def read_image_manifest sample_platform_found main_hardware_def
      sysd_cfg_yaml_init_def sysd_cfg_yaml_open_def sysd_get_subsystem_info_def startup_fru_def sysd_read_fru_eeprom_def
      sysd_cfg_yaml_get_fru_info_def c_bool_def Let_def sysd_get_interface_info_def sample_yaml_values)

lemma sample_started_fits:
  assumes "main_init sample_startup p = Some (Inr (Started d))"
  shows "mgmt_intf (ds_manifest d) = Some []" and "list_all subsystem_fits (ds_subsystems d)"
    and "list_all (\<lambda>x. length (daemon_name x) < MAX_DAEMON_NAME_LEN) (daemons (ds_manifest d))"
proof -
  obtain m p' where m: "sysd_read_manifest_file (calloc_daemon_ok sample_startup) (Some image_manifest) manifest_init = Inr (0, m)"
    and hw: "main_hardware sample_startup m p' = Inr (Started d)"
    by (rule main_init_started [OF assms]) (auto simp: sample_startup_def)
  note h = main_hardware_started [OF hw]
  have "names_intf (sections image_manifest)"
    by (simp add: sections_image_manifest MGMT_INTF_NAME_TAG_def names_intf_def)
  then have "mgmt_intf m = Some []" using read_manifest_success [OF m] by (simp add: num_hw_daemons_eq manifest_init_def)
  then show "mgmt_intf (ds_manifest d) = Some []" using h by simp
  have "daemons m = concat (map section_daemons (sections image_manifest))"
    using read_manifest_success [OF m] by (simp add: manifest_init_def)
  then show "list_all (\<lambda>x. length (daemon_name x) < MAX_DAEMON_NAME_LEN) (daemons (ds_manifest d))"
    using h by (simp add: sections_image_manifest hw_daemon_entry_def new_daemon_def MAX_DAEMON_NAME_LEN_def)
  from h obtain s where s: "ds_subsystems d = [s]" "intf_cmn_info s \<noteq> None" "length (interfaces s) = 1"
    "\<forall>k < length (interfaces s). Some sample_port_file = Some (interfaces s ! k)"
    by (auto simp: sample_startup_def sample_yaml_values)
  then have "interfaces s = [sample_port_file]" by (cases "interfaces s") auto
  with s(1,2) show "list_all subsystem_fits (ds_subsystems d)"
    by (simp add: subsystem_fits_def speeds_fit_def sample_port_file_def sample_port_def split_consistent_def show_d_def
        nat_digits.simps port_defs port_complete_def)
qed

theorem startup_ready_witness:
  "\<exists>d. main_init sample_startup \<lparr>g_hw_desc_dir = ''/'', hwdesc_link = None\<rparr> = Some (Inr (Started d)) \<and>
     length (ds_subsystems d) = 1 \<and> hwdesc_link (ds_platform d) \<noteq> None"
proof -
  obtain d where d: "main_init sample_startup \<lparr>g_hw_desc_dir = ''/'', hwdesc_link = None\<rparr> = Some (Inr (Started d))"
    using sample_started ..
  from startup_ready [OF d] d show ?thesis by fastforce
qed

theorem started_state_typed_witness:
  "\<exists>d. main_init sample_startup \<lparr>g_hw_desc_dir = ''/'', hwdesc_link = None\<rparr> = Some (Inr (Started d)) \<and> daemon_state_typed d"
proof -
  obtain d where d: "main_init sample_startup \<lparr>g_hw_desc_dir = ''/'', hwdesc_link = None\<rparr> = Some (Inr (Started d))"
    using sample_started ..
  with started_state_typed [OF d] show ?thesis by (simp add: HW_DESC_DIR_SIZE_def sample_startup_def)
qed

text \<open>A daemon without the lock and without memory for the dump, that is asked for it, to exit, and to exit again.\<close>

theorem control_commands_witness:
  "\<exists>rply. main_iterations None manifest_init [(sample_loop_env\<lparr>has_lock := False\<rparr>, [(Dump_Command, False)], 1),
       (sample_loop_env\<lparr>has_lock := False\<rparr>, [(Dump_Command, False), (Exit_Command, True)], 1)]
     (sample_loop, control_init) =
     Inr (sample_loop, \<lparr>exiting = True, subsystems_freed = True, led_write = None, replies = [Some rply, Some rply, None]\<rparr>,
       [Run_Again, Run_Again]) \<and>
   main_iterations None manifest_init
     [(sample_loop_env\<lparr>has_lock := False\<rparr>, [(Exit_Command, True), (Exit_Command, True)], 1)] (sample_loop, control_init) =
     Inl Double_Free"
proof -
  let ?e = "sample_loop_env\<lparr>has_lock := False\<rparr>"
  obtain rply where rply: "sysd_unixctl_dump False manifest_init = Inr rply" by (auto simp: sysd_unixctl_dump_def)
  let ?rply = "\<lambda>_ :: bool. rply"
  have run: "sysd_run ?e sample_loop = Inr sample_loop"
    by (simp add: sysd_run_def Let_def sample_loop_env_def sample_loop_def ovsdb_idl_run_def id_def)
  have idl: "idl_seqno sample_loop \<noteq> 1" by (simp add: sample_loop_def)
  have dumps: "dumps_to manifest_init ?rply [(Dump_Command, False)]"
    "dumps_to manifest_init ?rply [(Dump_Command, False), (Exit_Command, True)]"
    "dumps_to manifest_init ?rply [(Exit_Command, True), (Exit_Command, True)]"
    by (simp_all add: dumps_to_def rply)
  note r = control_commands [OF run, where led = None]
  show ?thesis
    using idl by (intro exI [of _ rply] conjI)
      (simp_all add: r [OF _ _ dumps(1)] r [OF _ _ dumps(2)] r [OF _ _ dumps(3)] control_init_def Let_def command_reply_def
        main_wait_def sysd_cfg_yaml_set_system_status_led_def del: main_iterations.simps(2))
qed

theorem loop_exit_and_wait_witness:
  "\<exists>st'. main_iterations None manifest_init [(sample_loop_env\<lparr>has_lock := False\<rparr>, [(Exit_Command, True)], 1), (sample_loop_env, [] :: handler_call list, 1)]
     (sample_loop, \<lparr>exiting = False, subsystems_freed = False, led_write = None, replies = []\<rparr>) =
     Inr (st', \<lparr>exiting = True, subsystems_freed = True, led_write = None, replies = [None]\<rparr>, [Run_Again])"
proof -
  let ?c = "\<lparr>exiting = False, subsystems_freed = False, led_write = None, replies = []\<rparr>"
  let ?is = "[(sample_loop_env\<lparr>has_lock := False\<rparr>, [(Exit_Command, True)], 1), (sample_loop_env, [] :: handler_call list, 1)]"
  have run: "main_iterations None manifest_init ?is (sample_loop, ?c) =
     Inr (sample_loop, ?c\<lparr>exiting := True, subsystems_freed := True, replies := [None]\<rparr>, [Run_Again])"
    by (simp add: sysd_run_def Let_def sample_loop_env_def sample_loop_def ovsdb_idl_run_def id_def sysd_exit_def
        sysd_cfg_yaml_set_system_status_led_def main_wait_def)
  have "length [Run_Again] = min (length ?is) (Suc (length (takeWhile (\<lambda>(e, calls, seqno). \<not> asks_exit calls) ?is)))"
    using loop_exit_and_wait [OF run] by simp
  with run show ?thesis by auto
qed

end
