(* ===== verification/Boot.thy ===== *)
theory Boot
  imports Main_Loop
begin

text \<open>
  The hand-over at boot, for which the daemon table exists: the hardware daemons publish that they
  have read the hardware description, ops-sysd collects this and publishes it in the system row,
  and the configuration daemon waits for that before it writes anything. The daemons, ops-sysd and
  every other client of the database are interleaved in any order; ops-sysd may be killed and
  started again at any point.
\<close>

section \<open>What the steps leave alone\<close>

text \<open>A change that neither touches the daemon table nor \<open>cur_hw\<close> of the system rows.\<close>

definition keeps_boot :: "ovsdb \<Rightarrow> ovsdb \<Rightarrow> bool" where
  "keeps_boot db db' \<longleftrightarrow> db_daemon db' = db_daemon db \<and>
     map sys_cur_hw (db_system db') = map sys_cur_hw (db_system db)"

lemma keeps_boot_refl [simp]: "keeps_boot db db"
  by (simp add: keeps_boot_def)

lemma keeps_boot_trans: "keeps_boot a b \<Longrightarrow> keeps_boot b c \<Longrightarrow> keeps_boot a c"
  by (simp add: keeps_boot_def)

lemma keeps_boot_set_system:
  "(\<And>s. sys_cur_hw (f s) = sys_cur_hw s) \<Longrightarrow> keeps_boot db (set_system i f db)"
  by (simp add: keeps_boot_def map_upd_nth_field)

lemma keeps_boot_set_interface [simp]: "keeps_boot db (set_interface i f db') = keeps_boot db db'"
  by (simp add: keeps_boot_def)

lemma keeps_boot_tables [simp]:
  "keeps_boot db (db'\<lparr>db_interface := a\<rparr>) = keeps_boot db db'"
  "keeps_boot db (db'\<lparr>db_subsystem := b\<rparr>) = keeps_boot db db'"
  "keeps_boot db (db'\<lparr>db_cos_map := c\<rparr>) = keeps_boot db db'"
  "keeps_boot db (db'\<lparr>db_dscp_map := d\<rparr>) = keeps_boot db db'"
  "keeps_boot db (db'\<lparr>db_q_profile := e\<rparr>) = keeps_boot db db'"
  "keeps_boot db (db'\<lparr>db_qos := g\<rparr>) = keeps_boot db db'"
  "keeps_boot db (db'\<lparr>db_vrf := h\<rparr>) = keeps_boot db db'"
  "keeps_boot db (db'\<lparr>db_port := k\<rparr>) = keeps_boot db db'"
  "keeps_boot db (db'\<lparr>db_bridge := l\<rparr>) = keeps_boot db db'"
  "keeps_boot db (db'\<lparr>db_package_info := j\<rparr>) = keeps_boot db db'"
  "keeps_boot (db\<lparr>db_interface := a\<rparr>) db' = keeps_boot db db'"
  "keeps_boot (db\<lparr>db_subsystem := b\<rparr>) db' = keeps_boot db db'"
  by (simp_all add: keeps_boot_def)

lemma keeps_interfaces:
  "add_interfaces names mac_text s ps db = Inr (rs, db') \<Longrightarrow> keeps_boot db db'"
proof (induction ps arbitrary: db rs)
  case (Cons p ps)
  then obtain r db1 rs1 where 1: "sysd_initial_interface_add names mac_text s p db = Inr (r, db1)"
    and 2: "add_interfaces names mac_text s ps db1 = Inr (rs1, db')"
    by (auto simp: and_then_eq_Inr)
  have "keeps_boot db db1" using 1 by (auto simp: sysd_initial_interface_add_def and_then_eq_Inr Let_def split: if_splits)
  with Cons.IH [OF 2] show ?case by (blast intro: keeps_boot_trans)
qed simp

lemma keeps_link_ports: "link_ports tab rs ps db = Inr db' \<Longrightarrow> keeps_boot db db'"
proof (induction tab rs ps db arbitrary: db' rule: link_ports.induct)
  case (1 tab r rs p ps db)
  then obtain db1 where 1: "link_children tab r p (link_parent tab r p db) = Inr db1" and "keeps_boot db1 db'"
    by (auto simp: and_then_eq_Inr)
  moreover have "keeps_boot db (link_parent tab r p db)" by (simp add: link_parent_def split: option.split)
  moreover have "keeps_boot (link_parent tab r p db) db1"
    using 1 by (auto simp: link_children_def and_then_eq_Inr split: if_splits)
  ultimately show ?case by (blast intro: keeps_boot_trans)
qed auto

lemma keeps_subsystem:
  assumes "sysd_initial_subsystem_add names mac_text ok dir s db = Inr (r, db')"
  shows "keeps_boot db db'"
proof -
  have chain: "keeps_boot db db3"
    if "add_interfaces names mac_text s ps (db\<lparr>db_subsystem := x\<rparr>) = Inr (rs, db2)"
      and "sysd_set_splittable_port_info rs s db2 = Inr db3" for ps rs db2 db3 x
  proof (rule keeps_boot_trans)
    show "keeps_boot db db2" using keeps_interfaces [OF that(1)] by simp
    show "keeps_boot db2 db3" using that(2) by (auto simp: sysd_set_splittable_port_info_def intro: keeps_link_ports split: if_splits)
  qed
  show ?thesis
    using assms
    by (auto simp: sysd_initial_subsystem_add_def Let_def and_then_eq_Inr dest: chain split: option.splits if_splits)
qed

lemma keeps_subsystems: "add_subsystems env ss db = Inr (rs, db') \<Longrightarrow> keeps_boot db db'"
  by (induction ss arbitrary: db rs)
     (auto simp: and_then_eq_Inr dest!: keeps_subsystem intro: keeps_boot_trans)

lemma keeps_sw_info: "keeps_boot db (sysd_update_sw_info f i db)"
proof -
  have keep: "keeps_boot db (set_system i (\<lambda>r. r\<lparr>software_info := x\<rparr>) db)"
    "keeps_boot db (set_system i (\<lambda>r. r\<lparr>switch_version := v\<rparr>) db)" for x v db
    by (auto intro: keeps_boot_set_system)
  show ?thesis
    using keep keeps_boot_trans [OF keep(1) keep(2)] unfolding sysd_update_sw_info_def Let_def
    by (cases f) simp_all
qed

lemma keeps_trust: "keeps_boot db (qos_init_trust y sys db)"
  by (auto simp: qos_init_trust_def split: option.split intro!: keeps_boot_set_system)

lemma keeps_cos: "qos_init_cos_map y sys db = Inr db' \<Longrightarrow> keeps_boot db db'"
  by (auto simp: qos_init_cos_map_def and_then_eq_Inr Let_def split: option.splits
      intro: keeps_boot_trans [OF _ keeps_boot_set_system])

lemma keeps_dscp: "qos_init_dscp_map y sys db = Inr db' \<Longrightarrow> keeps_boot db db'"
  by (auto simp: qos_init_dscp_map_def and_then_eq_Inr Let_def split: option.splits
      intro: keeps_boot_trans [OF _ keeps_boot_set_system])

lemma keeps_queue_profile: "qos_init_queue_profile y sys db = Inr db' \<Longrightarrow> keeps_boot db db'"
  by (auto simp: qos_init_queue_profile_def Let_def keeps_boot_def map_upd_nth_field split: option.splits)

lemma keeps_schedule_profile:
  assumes "qos_init_schedule_profile y sys db = Inr db'"
  shows "keeps_boot db db'"
proof (cases "qos_info y")
  case (Some info)
  with assms show ?thesis
    by (cases "default_name info"; cases "factory_default_name info")
       (auto simp: qos_init_schedule_profile_def Let_def and_then_eq_Inr keeps_boot_def map_upd_nth_field split: option.splits)
qed (use assms in \<open>simp add: qos_init_schedule_profile_def\<close>)

lemma keeps_acl: "acl_init_limits a sys db = Inr db' \<Longrightarrow> keeps_boot db db'"
  by (auto simp: acl_init_limits_def Let_def split: option.splits intro: keeps_boot_set_system)

lemma keeps_services:
  assumes "configure_services env sys db = Inr db'"
  shows "keeps_boot db db'"
proof -
  let ?y = "ce_qos env"
  let ?db1 = "sysd_update_sw_info (ce_os_release env) sys db"
  let ?db2 = "set_system sys (\<lambda>s. s\<lparr>timezone := DFLT_TIMEZONE\<rparr>) ?db1"
  obtain db4 db5 dbq db6 where 4: "qos_init_dscp_map ?y sys (qos_init_trust ?y sys ?db2) = Inr db4"
    and 5: "qos_init_cos_map ?y sys db4 = Inr db5"
    and q: "qos_init_queue_profile ?y sys db5 = Inr dbq" and 6: "qos_init_schedule_profile ?y sys dbq = Inr db6"
    and 7: "acl_init_limits (ce_acl env) sys db6 = Inr db'"
    using assms by (auto simp: configure_services_def Let_def and_then_eq_Inr)
  have "keeps_boot ?db1 ?db2" by (rule keeps_boot_set_system) simp
  then have "keeps_boot db ?db2" by (rule keeps_boot_trans [OF keeps_sw_info])
  then have "keeps_boot db (qos_init_trust ?y sys ?db2)" by (rule keeps_boot_trans [OF _ keeps_trust])
  then have "keeps_boot db db5" by (blast intro: keeps_boot_trans keeps_dscp [OF 4] keeps_cos [OF 5])
  then have "keeps_boot db dbq" by (rule keeps_boot_trans [OF _ keeps_queue_profile [OF q]])
  then have "keeps_boot db db6" by (rule keeps_boot_trans [OF _ keeps_schedule_profile [OF 6]])
  then show ?thesis by (rule keeps_boot_trans [OF _ keeps_acl [OF 7]])
qed

lemma keeps_bridge: "keeps_boot db (sysd_configure_default_bridge names sys db)"
  by (simp add: sysd_configure_default_bridge_def Let_def keeps_boot_set_system)

lemma keeps_vrf: "sysd_configure_default_vrf set_id names sys db = Inr db' \<Longrightarrow> keeps_boot db db'"
  by (auto simp: sysd_configure_default_vrf_def Let_def and_then_eq_Inr keeps_boot_set_system)

lemma keeps_base:
  assumes "configure_base env sys db = Inr db'"
  shows "keeps_boot db db'"
proof -
  obtain nm where nm: "mgmt_intf_name (ce_manifest env) = Inr nm"
    using assms by (auto simp: configure_base_def and_then_eq_Inr)
  let ?db2 = "set_system sys (\<lambda>s. s\<lparr>mgmt_intf_map := smap_add (key_mgmt_name (ce_names env)) nm []\<rparr>) db"
  let ?db3 = "sysd_configure_default_bridge (ce_names env) sys ?db2"
  obtain s0 ss where ss: "ce_subsystems env = s0 # ss"
    using assms nm by (cases "ce_subsystems env") (auto simp: configure_base_def Let_def and_then_eq_Inr)
  obtain db4 where 4: "sysd_configure_default_vrf (ce_set_table_id env) (ce_names env) sys ?db3 = Inr db4"
    and db': "db' = set_system sys (\<lambda>s. s\<lparr>management_mac := ce_mac_text env (mgmt_mac_addr s0),
        system_mac := ce_mac_text env (system_mac_addr s0)\<rparr>) db4"
    using assms nm ss by (auto simp: configure_base_def Let_def and_then_eq_Inr)
  have "keeps_boot db ?db2" and "keeps_boot db4 db'"
    unfolding db' by (rule keeps_boot_set_system, simp)+
  then show ?thesis by (blast intro: keeps_boot_trans keeps_bridge keeps_vrf [OF 4])
qed

text \<open>The configuration inserts the daemons of the manifest, unless it returns early.\<close>

abbreviation daemon_table :: "manifest \<Rightarrow> daemon_row list" where
  "daemon_table m \<equiv> daemon_rows (daemons m) (map cur_hw (daemons m))"

lemma daemon_table_eq:
  "daemon_table m = map (\<lambda>d. \<lparr>dr_name = daemon_name d, dr_cur_hw = cur_hw d, dr_is_hw_handler = is_hw_handler d\<rparr>) (daemons m)"
  unfolding daemon_rows_def by (rule nth_equalityI) simp_all

lemma configure_boot:
  assumes "sysd_initial_configure env db = Inr db'"
  shows "map sys_cur_hw (db_system db') = map sys_cur_hw (db_system db) @ [0]
    \<and> (db_daemon db' = db_daemon db \<or> db_daemon db' = db_daemon db @ daemon_table (ce_manifest env))"
proof -
  let ?sys = "length (db_system db)"
  let ?db1 = "db\<lparr>db_system := db_system db @ [system_fresh]\<rparr>"
  obtain db2 where 2: "configure_base env ?sys ?db1 = Inr db2" and 3: "configure_tables env ?sys db2 = Inr db'"
    using assms by (auto simp: sysd_initial_configure_def Let_def and_then_eq_Inr)
  have k2: "keeps_boot ?db1 db2" by (rule keeps_base [OF 2])
  let ?ds = "daemons (ce_manifest env)"
  have "map sys_cur_hw (db_system db') = map sys_cur_hw (db_system db2)
    \<and> (db_daemon db' = db_daemon db2 \<or> db_daemon db' = db_daemon db2 @ daemon_table (ce_manifest env))"
  proof (cases "ce_calloc_subsys_ok env")
    case False
    then show ?thesis using 3 by (simp add: configure_tables_def)
  next
    case True
    obtain rs db6 where 6: "add_subsystems env (ce_subsystems env) db2 = Inr (rs, db6)"
      using True 3 by (auto simp: configure_tables_def and_then_eq_Inr)
    let ?db7 = "set_system ?sys (\<lambda>s. s\<lparr>sys_subsystems := rs\<rparr>) db6"
    have k7: "keeps_boot db2 ?db7"
      by (rule keeps_boot_trans [OF keeps_subsystems [OF 6] keeps_boot_set_system]) simp
    show ?thesis
    proof (cases "ce_calloc_daemons_ok env")
      case False
      then have "db' = ?db7" using True 3 6 by (simp add: configure_tables_def Let_def)
      then show ?thesis using k7 by (simp add: keeps_boot_def)
    next
      case ok: True
      define db8 where "db8 = ?db7\<lparr>db_daemon := db_daemon ?db7 @ daemon_table (ce_manifest env)\<rparr>"
      obtain ls where "add_daemons ?ds ?db7 = (ls, db8)"
        unfolding db8_def daemon_table_eq by (simp add: add_daemons_rows)
      then have "configure_services env ?sys
          (if ?ds \<noteq> [] then set_system ?sys (\<lambda>s. s\<lparr>sys_daemons := ls\<rparr>) db8 else db8) = Inr db'"
        using True ok 3 6 by (simp add: configure_tables_def Let_def)
      then have "keeps_boot (if ?ds \<noteq> [] then set_system ?sys (\<lambda>s. s\<lparr>sys_daemons := ls\<rparr>) db8 else db8) db'"
        by (rule keeps_services)
      moreover have "keeps_boot db8 (if ?ds \<noteq> [] then set_system ?sys (\<lambda>s. s\<lparr>sys_daemons := ls\<rparr>) db8 else db8)"
        by (auto intro: keeps_boot_set_system)
      ultimately have "keeps_boot db8 db'" by (blast intro: keeps_boot_trans)
      then show ?thesis using k7 by (simp add: keeps_boot_def db8_def)
    qed
  qed
  with k2 show ?thesis by (simp add: keeps_boot_def system_fresh_def)
qed

section \<open>The other clients\<close>

text \<open>
  What the clients other than ops-sysd do to the database: a hardware daemon that sets \<open>cur_hw\<close> of a
  row, and any change that leaves the daemon table and \<open>cur_hw\<close> of the system alone.
\<close>

abbreviation report :: "nat \<Rightarrow> int \<Rightarrow> ovsdb \<Rightarrow> ovsdb" where
  "report i h db \<equiv> db\<lparr>db_daemon := upd_nth i (\<lambda>r. r\<lparr>dr_cur_hw := h\<rparr>) (db_daemon db)\<rparr>"

inductive client_step :: "ovsdb \<Rightarrow> ovsdb \<Rightarrow> bool" where
  client_report: "0 < h \<Longrightarrow> client_step db (report i h db)"
| client_change: "keeps_boot db db' \<Longrightarrow> client_step db db'"

inductive_cases client_stepE: "client_step db db'"

abbreviation client_steps :: "ovsdb \<Rightarrow> ovsdb \<Rightarrow> bool" where
  "client_steps \<equiv> client_step\<^sup>*\<^sup>*"

text \<open>
  In the middle of an iteration, while ops-sysd waits for a commit, the others may do any number of
  such steps.
\<close>

definition during_clients :: "loop_env \<Rightarrow> bool" where
  "during_clients e \<longleftrightarrow> (\<forall>db. client_steps db (during_commit e db) \<and> client_steps db (during_load e db))"

lemma client_steps_keeps: "keeps_boot db db' \<Longrightarrow> client_steps db db'"
  by (rule r_into_rtranclp) (rule client_change)

lemma client_steps_idl_run:
  "during_clients e \<Longrightarrow> client_steps db (ovsdb_idl_run (during_commit e) db)"
  "during_clients e \<Longrightarrow> client_steps db (ovsdb_idl_run (during_load e) db)"
  by (simp_all add: during_clients_def ovsdb_idl_run_def)

lemma quiet_clients: "quiet e \<Longrightarrow> external e = id \<and> during_clients e"
  by (simp add: quiet_def during_clients_def)

lemma client_steps_system:
  "client_steps db db' \<Longrightarrow> map sys_cur_hw (db_system db') = map sys_cur_hw (db_system db)"
  by (induction rule: rtranclp_induct) (auto elim!: client_stepE simp: keeps_boot_def)

lemma client_steps_daemons:
  "client_steps db db' \<Longrightarrow> map dr_name (db_daemon db') = map dr_name (db_daemon db) \<and>
     map dr_is_hw_handler (db_daemon db') = map dr_is_hw_handler (db_daemon db)"
  by (induction rule: rtranclp_induct) (auto elim!: client_stepE simp: keeps_boot_def map_upd_nth_field)

section \<open>The interleaving\<close>

text \<open>
  One step of the system: an iteration of ops-sysd with the manifest \<open>m\<close>, with what the other
  clients do in the middle of it; a hardware daemon that sets \<open>cur_hw\<close> of a row; any other client;
  and a restart of ops-sysd, which loses its variables but not the database.
\<close>

inductive boot_step :: "manifest \<Rightarrow> loop_state \<Rightarrow> loop_state \<Rightarrow> bool" for m where
  sysd_iteration: "external e = id \<Longrightarrow> during_clients e \<Longrightarrow> ce_manifest (config e) = m \<Longrightarrow> sysd_run e st = Inr st' \<Longrightarrow>
    boot_step m st st'"
| hw_daemon_done: "0 < h \<Longrightarrow> boot_step m st (st\<lparr>database := report i h (database st)\<rparr>)"
| other_client: "keeps_boot (database st) db \<Longrightarrow> boot_step m st (st\<lparr>database := db\<rparr>)"
| sysd_restart: "boot_step m st (st\<lparr>idl_seqno := 0, hw_init_done_set := False, startup_notified := False\<rparr>)"

abbreviation boot_reachable :: "manifest \<Rightarrow> loop_state \<Rightarrow> loop_state \<Rightarrow> bool" where
  "boot_reachable m \<equiv> (boot_step m)\<^sup>*\<^sup>*"

section \<open>What an iteration does to the boot state\<close>

text \<open>
  The part of an iteration that writes the boot state either leaves it alone, or configures an empty
  database, or finds the hardware daemons done; what follows are steps of the other clients.
\<close>

lemma run_rest_clients:
  assumes "during_clients e" and "run_packages e st = Inr st1" and "run_timezone e st1 = Inr st2"
  shows "client_steps (database st) (database st2) \<and> hw_init_done_set st2 = hw_init_done_set st"
proof -
  have zone: "database st2 = database st1" "hw_init_done_set st2 = hw_init_done_set st1"
    using assms(3) by (auto simp: run_timezone_def and_then_eq_Inr)
  have keep: "keeps_boot (database st) ((database st)\<lparr>db_package_info := x\<rparr>)" for x by simp
  have "client_steps (database st) (ovsdb_idl_run (during_load e) ((database st)\<lparr>db_package_info := x\<rparr>))" for x
    by (rule rtranclp_trans [OF client_steps_keeps [OF keep] client_steps_idl_run(2) [OF assms(1)]])
  then have "client_steps (database st) (database st1) \<and> hw_init_done_set st1 = hw_init_done_set st"
    using assms(2) by (auto simp: run_packages_def and_then_eq_Inr dest!: add_package_info_only split: if_splits)
  then show ?thesis by (simp add: zone)
qed

lemma run_system_cases:
  assumes "run_system e st = Inr st'" and "ce_manifest (config e) = m" and "during_clients e"
  obtains db1 where "keeps_boot (database st) db1" "client_steps db1 (database st')"
  | db1 where "db_system (database st) = []" "map sys_cur_hw (db_system db1) = [0]"
    "db_daemon db1 = db_daemon (database st) \<or> db_daemon db1 = db_daemon (database st) @ daemon_table m"
    "client_steps db1 (database st')"
  | db1 where "hw_daemons_done m (db_daemon (database st))" "db_daemon db1 = db_daemon (database st)"
    "map sys_cur_hw (db_system db1) = map (\<lambda>s. 1) (db_system (database st))" "client_steps db1 (database st')"
proof (cases "db_system (database st) = []")
  case True
  from run_system_no_row [OF this assms(1)] obtain db1 where db1: "sysd_initial_configure (config e) (database st) = Inr db1"
    and st': "st' = meanwhile (during_commit e) (st\<lparr>database := (if configure_commit_ok e then db1 else database st)\<rparr>)" by blast
  have "client_steps (if configure_commit_ok e then db1 else database st) (database st')"
    using client_steps_idl_run(1) [OF assms(3)] by (simp add: st')
  then show ?thesis
    using True configure_boot [OF db1] assms(2) that(1) [of "database st"] that(2) [of db1]
    by (cases "configure_commit_ok e") auto
next
  case False
  from run_system_row [OF this assms(1)] assms(2) obtain db' where db': "update_sw_info_outside e (database st) = Inr db'"
    and st': "st' = (if \<not> hw_init_done_set st \<and> hw_daemons_done m (db_daemon db')
      then meanwhile (during_commit e) (sysd_set_hw_done (hw_commit_ok e) (st\<lparr>database := db'\<rparr>))
      else st\<lparr>database := db'\<rparr>)" by blast
  let ?hw = "sysd_set_hw_done (hw_commit_ok e) (st\<lparr>database := db'\<rparr>)"
  have k: "keeps_boot (database st) db'"
    using db' keeps_sw_info by (auto simp: update_sw_info_outside_def Let_def split: if_splits)
  show ?thesis
  proof (cases "\<not> hw_init_done_set st \<and> hw_daemons_done m (db_daemon db')")
    case True
    then have steps: "client_steps (database ?hw) (database st')"
      using client_steps_idl_run(1) [OF assms(3)] by (simp add: st')
    have "length (db_system db') = length (db_system (database st))"
      using k by (metis keeps_boot_def length_map)
    with True k steps that(1) [of "database ?hw"] that(3) [of "database ?hw"] show ?thesis
      by (cases "hw_commit_ok e") (auto simp: sysd_set_hw_done_def Let_def keeps_boot_def o_def map_replicate_const)
  next
    case False
    then have "database st' = db'" by (auto simp: st')
    with k that(1) [of db'] show ?thesis by simp
  qed
qed

lemma sysd_run_cases:
  assumes "sysd_run e st = Inr st'" and "ce_manifest (config e) = m" and "external e = id" and "during_clients e"
  obtains db1 where "keeps_boot (database st) db1" "client_steps db1 (database st')"
  | db1 where "db_system (database st) = []" "map sys_cur_hw (db_system db1) = [0]"
    "db_daemon db1 = db_daemon (database st) \<or> db_daemon db1 = db_daemon (database st) @ daemon_table m"
    "client_steps db1 (database st')"
  | db1 where "hw_daemons_done m (db_daemon (database st))" "db_daemon db1 = db_daemon (database st)"
    "map sys_cur_hw (db_system db1) = map (\<lambda>s. 1) (db_system (database st))" "client_steps db1 (database st')"
proof -
  let ?st = "st\<lparr>idl_seqno := new_seqno e\<rparr>"
  have idl: "st\<lparr>database := ovsdb_idl_run (external e) (database st)\<rparr> = st"
    by (simp add: assms(3))
  consider "database st' = database st"
    | st1 st2 st3 where "run_system e ?st = Inr st1" "run_packages e st1 = Inr st2" "run_timezone e st2 = Inr st3"
      "st' = st3\<lparr>startup_notified := True\<rparr>"
    using assms(1) unfolding sysd_run_def Let_def idl by (auto simp: and_then_eq_Inr split: if_splits)
  then show ?thesis
  proof cases
    case 1
    then show ?thesis using that(1) [of "database st"] by simp
  next
    case 2
    have k: "client_steps (database st1) (database st')" using run_rest_clients [OF assms(4) 2(2,3)] 2(4) by simp
    from 2(1) assms(2,4) show ?thesis
    proof (cases rule: run_system_cases)
      case (1 db1)
      with k show ?thesis using that(1) [of db1] by (auto intro: rtranclp_trans)
    next
      case (2 db1)
      have "client_steps db1 (database st')" by (rule rtranclp_trans [OF 2(4) k])
      with 2(1-3) that(2) [of db1] show ?thesis by simp
    next
      case (3 db1)
      have "client_steps db1 (database st')" by (rule rtranclp_trans [OF 3(4) k])
      with 3(1-3) that(3) [of db1] show ?thesis by simp
    qed
  qed
qed

section \<open>The invariant\<close>

definition all_hw_done :: "daemon_row list \<Rightarrow> bool" where
  "all_hw_done rows \<longleftrightarrow> list_all (\<lambda>r. dr_is_hw_handler r \<longrightarrow> dr_cur_hw r > 0) rows"

definition boot_published :: "ovsdb \<Rightarrow> bool" where
  "boot_published db \<longleftrightarrow> list_ex (\<lambda>s. sys_cur_hw s > 0) (db_system db)"

text \<open>
  The daemon table is empty or the one of the manifest with some progress; it is empty before the
  configuration; and when a system row says that the hardware is initialised, it is.
\<close>

definition boot_inv :: "manifest \<Rightarrow> loop_state \<Rightarrow> bool" where
  "boot_inv m st \<longleftrightarrow>
     (db_daemon (database st) = [] \<or>
       (\<exists>hs. length hs = length (daemons m) \<and> db_daemon (database st) = daemon_rows (daemons m) hs)) \<and>
     (db_system (database st) = [] \<longrightarrow> db_daemon (database st) = []) \<and>
     (boot_published (database st) \<longrightarrow> all_hw_done (db_daemon (database st)))"

definition consistent_manifest :: "manifest \<Rightarrow> bool" where
  "consistent_manifest m \<longleftrightarrow> prefix_free (daemons m) \<and>
     num_hw_daemons m = int (length (filter is_hw_handler (daemons m)))"

lemma published_map: "boot_published db = list_ex (\<lambda>c. c > 0) (map sys_cur_hw (db_system db))"
  by (simp add: boot_published_def list_ex_iff)

lemma boot_inv_keeps:
  assumes "boot_inv m st" and "keeps_boot (database st) (database st')"
  shows "boot_inv m st'"
proof -
  have "db_system (database st') = [] \<longleftrightarrow> db_system (database st) = []"
    using assms(2) by (metis keeps_boot_def map_is_Nil_conv)
  with assms show ?thesis by (simp add: boot_inv_def published_map keeps_boot_def)
qed

lemma daemon_rows_upd:
  assumes "length hs = length ds"
  shows "upd_nth i (\<lambda>r. r\<lparr>dr_cur_hw := h\<rparr>) (daemon_rows ds hs) = daemon_rows ds (hs[i := h])"
proof (cases "i < length ds")
  case True
  have len: "length (daemon_rows ds hs) = length ds" by (simp add: daemon_rows_def assms)
  show ?thesis
  proof (rule nth_equalityI)
    fix j assume "j < length (upd_nth i (\<lambda>r. r\<lparr>dr_cur_hw := h\<rparr>) (daemon_rows ds hs))"
    then have j: "j < length ds" by (simp add: len)
    with True assms show "upd_nth i (\<lambda>r. r\<lparr>dr_cur_hw := h\<rparr>) (daemon_rows ds hs) ! j = daemon_rows ds (hs[i := h]) ! j"
      by (cases "j = i") (simp_all add: nth_daemon_rows len)
  qed (simp add: daemon_rows_def assms)
next
  case False
  with assms show ?thesis by (simp add: upd_nth_def daemon_rows_def list_update_beyond)
qed

lemma all_hw_done_upd: "all_hw_done rows \<Longrightarrow> 0 < h \<Longrightarrow> all_hw_done (upd_nth i (\<lambda>r. r\<lparr>dr_cur_hw := h\<rparr>) rows)"
  by (auto simp: all_hw_done_def list_all_iff dest!: set_upd_nth)

lemma done_iff_all:
  assumes "consistent_manifest m" and "length hs = length (daemons m)"
  shows "hw_daemons_done m (daemon_rows (daemons m) hs) = all_hw_done (daemon_rows (daemons m) hs)"
  using hw_check_complete [of m hs] assms unfolding all_hw_done_def consistent_manifest_def by blast

lemma boot_inv_report:
  assumes inv: "boot_inv m st" and "0 < h" and "database st' = report i h (database st)"
  shows "boot_inv m st'"
proof -
  have "\<exists>hs'. length hs' = length (daemons m) \<and>
      upd_nth i (\<lambda>r. r\<lparr>dr_cur_hw := h\<rparr>) (daemon_rows (daemons m) hs) = daemon_rows (daemons m) hs'"
    if "length hs = length (daemons m)" for hs
    using that daemon_rows_upd [OF that] by (metis length_list_update)
  moreover have "boot_published (database st') = boot_published (database st)"
    by (simp add: assms(3) boot_published_def)
  ultimately show ?thesis
    using inv all_hw_done_upd [OF _ assms(2)] by (auto simp: boot_inv_def assms(3) upd_nth_def)
qed

text \<open>The invariant is about the database, and the other clients keep it.\<close>

lemma boot_inv_clients:
  assumes "boot_inv m st" and "client_steps (database st) (database st')"
  shows "boot_inv m st'"
proof -
  have "boot_inv m (st\<lparr>database := db\<rparr>)" if "client_steps (database st) db" for db
    using that
  proof (induction rule: rtranclp_induct)
    case base
    show ?case using assms(1) by simp
  next
    case (step db db')
    from step(2) show ?case
    proof (cases rule: client_step.cases)
      case (client_report h i)
      then show ?thesis using boot_inv_report [OF step(3)] by simp
    next
      case client_change
      then show ?thesis by (intro boot_inv_keeps [OF step(3)]) simp
    qed
  qed
  from this [OF assms(2)] show ?thesis by (simp add: boot_inv_def)
qed

lemma boot_inv_step:
  assumes m: "consistent_manifest m" and inv: "boot_inv m st" and step: "boot_step m st st'"
  shows "boot_inv m st'"
  using step
proof (cases rule: boot_step.cases)
  case (sysd_iteration e)
  have rest: "boot_inv m st'" if "boot_inv m (st\<lparr>database := db1\<rparr>)" "client_steps db1 (database st')" for db1
    using boot_inv_clients [OF that(1)] that(2) by simp
  from sysd_iteration(4,3,1,2) show ?thesis
  proof (cases rule: sysd_run_cases)
    case (1 db1)
    from 1(1) show ?thesis by (intro rest [OF _ 1(2)] boot_inv_keeps [OF inv]) simp
  next
    case (2 db1)
    then have "db_system db1 \<noteq> []" and "\<not> boot_published db1"
      by (auto simp: published_map)
    moreover have "db_daemon (database st) = []" using inv 2(1) by (simp add: boot_inv_def)
    moreover have "\<exists>hs. length hs = length (daemons m) \<and> daemon_table m = daemon_rows (daemons m) hs"
      by (rule exI [of _ "map cur_hw (daemons m)"]) simp
    ultimately have "boot_inv m (st\<lparr>database := db1\<rparr>)" using 2(3) by (auto simp: boot_inv_def)
    then show ?thesis using 2(4) by (rule rest)
  next
    case (3 db1)
    have "all_hw_done (db_daemon (database st))"
      using inv 3(1) done_iff_all [OF m] by (auto simp: boot_inv_def all_hw_done_def)
    moreover have "db_system db1 = [] \<longleftrightarrow> db_system (database st) = []"
      using 3(3) by (metis map_is_Nil_conv)
    ultimately have "boot_inv m (st\<lparr>database := db1\<rparr>)" using inv 3(2) by (simp add: boot_inv_def)
    then show ?thesis using 3(4) by (rule rest)
  qed
next
  case (hw_daemon_done h i)
  then show ?thesis by (intro boot_inv_report [OF inv]) simp_all
next
  case (other_client db)
  then show ?thesis by (intro boot_inv_keeps [OF inv]) simp
next
  case sysd_restart
  then show ?thesis using inv by (simp add: boot_inv_def)
qed

lemma boot_inv_reachable:
  assumes "consistent_manifest m" and "boot_inv m st" and "boot_reachable m st st'"
  shows "boot_inv m st'"
  using assms(3,2) by (induction rule: rtranclp_induct) (auto intro: boot_inv_step [OF assms(1)])

lemma boot_inv_empty:
  "db_system (database st) = [] \<Longrightarrow> db_daemon (database st) = [] \<Longrightarrow> boot_inv m st"
  by (simp add: boot_inv_def boot_published_def)

section \<open>Properties\<close>

text \<open>
  C1. Configuration waits for the hardware: with a manifest whose counter is right and in which no
  name of a hardware daemon begins another one, from an empty database and through any
  interleaving of ops-sysd, the hardware daemons, other clients and restarts of ops-sysd, whenever
  a system row has \<open>cur_hw\<close> above 0, every hardware daemon of the daemon table has finished its
  hardware description.
\<close>

theorem boot_order:
  assumes "consistent_manifest m" and "db_system (database st) = []" and "db_daemon (database st) = []"
    and "boot_reachable m st st'" and "boot_published (database st')"
  shows "all_hw_done (db_daemon (database st'))"
proof -
  from boot_inv_reachable [OF assms(1) boot_inv_empty [OF assms(2,3)] assms(4)] assms(5) show ?thesis by (simp add: boot_inv_def)
qed

lemma packages_loaded:
  assumes "quiet e" and "db_package_info (database st) = [] \<Longrightarrow> loads_packages e"
  shows "\<exists>x. run_packages e st = Inr (st\<lparr>database := (database st)\<lparr>db_package_info := x\<rparr>\<rparr>)"
proof (cases "db_package_info (database st) = []")
  case True
  with assms(2) obtain db' where run: "sysd_add_package_info (yaml_parser_ok e) (pkg_insert_ok e) (pkg_commit_ok e) (version_detail e)
      (database st) = Inr db'"
    unfolding loads_packages_def using package_load_any by blast
  with add_package_info_only [OF run] True assms(1) show ?thesis by (auto simp: run_packages_def quiet_def)
next
  case False
  then show ?thesis by (intro exI [of _ "db_package_info (database st)"]) (simp add: run_packages_def)
qed

lemma boot_completes_from:
  assumes "consistent_manifest m" and "boot_inv m st" and "\<not> hw_init_done_set st"
    and "db_system (database st) \<noteq> []" and "length (db_daemon (database st)) = length (daemons m)"
    and "all_hw_done (db_daemon (database st))"
    and "quiet e" and "ce_manifest (config e) = m" and "\<not> lock_contended e" and "has_lock e"
    and "new_seqno e \<noteq> idl_seqno st" and "hw_commit_ok e" and "write_outside_txn e"
    and "db_package_info (database st) = [] \<Longrightarrow> loads_packages e"
    and "length (ZONEINFO_BASE @ timezone (hd (db_system (database st)))) < TIMEZONE_CMD_SIZE"
  shows "\<exists>st'. sysd_run e st = Inr st' \<and> hw_init_done_set st' \<and> db_system (database st') \<noteq> [] \<and>
    list_all (\<lambda>s. sys_cur_hw s = 1) (db_system (database st'))"
proof -
  let ?st = "st\<lparr>idl_seqno := new_seqno e\<rparr>"
  define db1 where "db1 = sysd_update_sw_info (ce_os_release (config e)) 0 (database st)"
  obtain hs where hs: "length hs = length (daemons m)" "db_daemon (database st) = daemon_rows (daemons m) hs"
    using assms(2,5) by (auto simp: boot_inv_def daemon_rows_def)
  have k: "keeps_boot (database st) db1" unfolding db1_def by (rule keeps_sw_info)
  have "hw_daemons_done m (db_daemon db1)"
    using assms(6) hs done_iff_all [OF assms(1) hs(1)] k by (simp add: keeps_boot_def)
  then have system: "run_system e ?st = Inr (sysd_set_hw_done True (?st\<lparr>database := db1\<rparr>))"
    using assms(3,4,7,8,12,13)
    by (simp add: run_system_def update_sw_info_outside_def db1_def [symmetric] Let_def chk_if_done quiet_def)
  let ?st1 = "sysd_set_hw_done True (?st\<lparr>database := db1\<rparr>)"
  have "db_package_info (database ?st1) = db_package_info (database st)"
    by (simp add: sysd_set_hw_done_def db1_def sysd_update_sw_info_def Let_def split: option.split)
  then obtain x where packages: "run_packages e ?st1 = Inr (?st1\<lparr>database := (database ?st1)\<lparr>db_package_info := x\<rparr>\<rparr>)"
    using packages_loaded [of e ?st1] assms(7,14) by auto
  have tz: "map timezone (db_system db1) = map timezone (db_system (database st))"
    by (simp add: db1_def sysd_update_sw_info_def Let_def map_upd_nth_field split: option.split)
  then have ne: "db_system db1 \<noteq> []" and "timezone (hd (db_system db1)) = timezone (hd (db_system (database st)))"
    using assms(4) by (metis list.map_disc_iff, metis list.map_disc_iff list.map_sel(1))
  let ?st2 = "?st1\<lparr>database := (database ?st1)\<lparr>db_package_info := x\<rparr>\<rparr>"
  have "\<exists>l. sysd_handle_timezone_update (database ?st2) (unlink_ok e) (symlink_ok e) (localtime ?st2) = Inr l"
    using assms(15) ne \<open>timezone (hd (db_system db1)) = timezone (hd (db_system (database st)))\<close>
    by (cases "db_system db1") (auto simp: sysd_handle_timezone_update_def sysd_set_hw_done_def Let_def)
  then obtain l where "run_timezone e ?st2 = Inr (?st2\<lparr>localtime := l\<rparr>)" by (auto simp: run_timezone_def)
  then have "sysd_run e st = Inr (?st2\<lparr>localtime := l, startup_notified := True\<rparr>)"
    using assms(7,9,10,11) system packages by (simp add: sysd_run_def Let_def quiet_def)
  moreover have "list_all (\<lambda>s. sys_cur_hw s = 1) (db_system (database ?st2))" "db_system (database ?st2) \<noteq> []"
    using ne by (simp_all add: sysd_set_hw_done_def Let_def list_all_iff)
  ultimately show ?thesis by (intro exI conjI) (assumption, simp_all)
qed

text \<open>
  C14. The boot ends: with a manifest whose counter is right and in which no name of a hardware daemon
  begins another one, in every state that is reachable from an empty database, has a system row and
  a complete daemon table in which all hardware daemons are done, and in which the initialisation is
  not yet recorded as done: an iteration of ops-sysd that holds the lock, sees a new version and is
  not disturbed by other clients ends without a fault and sets \<open>cur_hw\<close> of the system row to 1,
  provided that its commit succeeds, that the library takes the software information that is written
  without a transaction, that the loader takes the file of packages when the package table is empty,
  and that the path of the time zone fits its buffer.
\<close>

theorem boot_completes:
  assumes "consistent_manifest m" and "db_system (database st0) = [] \<and> db_daemon (database st0) = [] \<and> boot_reachable m st0 st" and "\<not> hw_init_done_set st"
    and "db_system (database st) \<noteq> []" and "length (db_daemon (database st)) = length (daemons m)"
    and "all_hw_done (db_daemon (database st))"
    and "quiet e" and "ce_manifest (config e) = m" and "\<not> lock_contended e" and "has_lock e"
    and "new_seqno e \<noteq> idl_seqno st" and "hw_commit_ok e" and "write_outside_txn e"
    and "db_package_info (database st) = [] \<Longrightarrow> loads_packages e"
    and "length (ZONEINFO_BASE @ timezone (hd (db_system (database st)))) < TIMEZONE_CMD_SIZE"
  shows "\<exists>st'. sysd_run e st = Inr st' \<and> hw_init_done_set st' \<and> db_system (database st') \<noteq> [] \<and>
    list_all (\<lambda>s. sys_cur_hw s = 1) (db_system (database st'))"
proof (rule boot_completes_from [OF assms(1) _ assms(3-)])
  show "boot_inv m st" using assms(2) boot_inv_reachable [OF assms(1) boot_inv_empty] by blast
qed

section \<open>Witnesses\<close>

text \<open>Two hardware daemons; one finishes, then the other, and then ops-sysd sees both.\<close>

definition boot_manifest :: manifest where
  "boot_manifest = manifest_init\<lparr>daemons := [sample_daemon ''ops-fand'', sample_daemon ''ops-ledd''], num_hw_daemons := 2,
     mgmt_intf := Some (''eth0'' @ [CHR 0x00])\<rparr>"

lemma boot_manifest_consistent: "consistent_manifest boot_manifest"
  by (simp add: consistent_manifest_def boot_manifest_def prefix_free_def sample_daemon_def less_Suc_eq upt_rec)

definition boot_env :: loop_env where
  "boot_env = sample_loop_env\<lparr>config := sample_env\<lparr>ce_manifest := boot_manifest\<rparr>, write_outside_txn := True\<rparr>"

definition boot_start :: loop_state where
  "boot_start = sample_loop\<lparr>database := ovsdb_empty\<rparr>"

lemma id_record: "ovsdb_idl_run (\<lambda>db. db) db = db" "meanwhile (\<lambda>db. db) st = st"
  using ovsdb_idl_run_id [of db] meanwhile_simps(6) [of st] by (simp_all add: id_def)

lemma boot_first:
  "\<exists>st. sysd_run boot_env boot_start = Inr st \<and> map timezone (db_system (database st)) = [DFLT_TIMEZONE] \<and>
     db_daemon (database st) = daemon_table boot_manifest \<and> idl_seqno st = 1 \<and> \<not> hw_init_done_set st"
  by (simp add: sysd_run_def Let_def boot_env_def boot_start_def sample_loop_env_def sample_loop_def ovsdb_idl_run_def
      run_system_def sysd_initial_configure_def configure_base_def configure_tables_def configure_services_def
      sample_env_def boot_manifest_def manifest_init_def sysd_configure_default_vrf_def sysd_configure_default_bridge_def
      sysd_initial_subsystem_add_def subsystem_zero_def sysd_set_splittable_port_info_def split_table_def
      qos_init_dscp_map_def qos_init_cos_map_def qos_init_queue_profile_def qos_init_schedule_profile_def
      acl_init_limits_def sample_qos_def qos_init_trust_def sysd_update_sw_info_def set_system_def upd_nth_def
      run_packages_def sysd_add_package_info_def run_timezone_def sysd_handle_timezone_update_def ovsdb_empty_def
      system_fresh_def TIMEZONE_CMD_SIZE_def ZONEINFO_BASE_def sample_daemon_def sysd_initial_daemon_add_def
      DFLT_TIMEZONE_def daemon_rows_def mgmt_intf_name_def c_string_at_def id_record)

lemma boot_start_empty: "db_system (database boot_start) = []" "db_daemon (database boot_start) = []"
  by (simp_all add: boot_start_def sample_loop_def ovsdb_empty_def)

text \<open>The state after the first iteration and the reports of both daemons.\<close>

lemma boot_reported:
  "\<exists>st. boot_reachable boot_manifest boot_start st \<and> boot_inv boot_manifest st \<and> \<not> hw_init_done_set st \<and>
     map timezone (db_system (database st)) = [DFLT_TIMEZONE] \<and> idl_seqno st = 1 \<and>
     db_daemon (database st) = daemon_rows (daemons boot_manifest) [1, 1]"
proof -
  obtain st where c: "sysd_run boot_env boot_start = Inr st \<and> map timezone (db_system (database st)) = [DFLT_TIMEZONE] \<and>
     db_daemon (database st) = daemon_table boot_manifest \<and> idl_seqno st = 1 \<and> \<not> hw_init_done_set st"
    using boot_first ..
  note st = c [THEN conjunct1] c [THEN conjunct2, THEN conjunct1] c [THEN conjunct2, THEN conjunct2, THEN conjunct1]
    c [THEN conjunct2, THEN conjunct2, THEN conjunct2, THEN conjunct1] c [THEN conjunct2, THEN conjunct2, THEN conjunct2, THEN conjunct2]
  define st1 where "st1 = st\<lparr>database := (database st)\<lparr>db_daemon := upd_nth 0 (\<lambda>r. r\<lparr>dr_cur_hw := 1\<rparr>) (db_daemon (database st))\<rparr>\<rparr>"
  define st2 where "st2 = st1\<lparr>database := (database st1)\<lparr>db_daemon := upd_nth 1 (\<lambda>r. r\<lparr>dr_cur_hw := 1\<rparr>) (db_daemon (database st1))\<rparr>\<rparr>"
  have "quiet boot_env" and "ce_manifest (config boot_env) = boot_manifest"
    by (simp_all add: boot_env_def sample_loop_env_def quiet_def)
  then have "boot_step boot_manifest boot_start st" using quiet_clients [of boot_env] st(1) by (intro sysd_iteration) auto
  moreover have "boot_step boot_manifest st st1" "boot_step boot_manifest st1 st2"
    unfolding st1_def st2_def by (rule hw_daemon_done, simp)+
  ultimately have r: "boot_reachable boot_manifest boot_start st2" by (meson converse_rtranclp_into_rtranclp rtranclp.rtrancl_refl)
  moreover have "db_daemon (database st2) = daemon_rows (daemons boot_manifest) [1, 1]"
    using st(3) by (simp add: st1_def st2_def upd_nth_def boot_manifest_def daemon_rows_def)
  ultimately show ?thesis
    using boot_inv_reachable [OF boot_manifest_consistent boot_inv_empty [OF boot_start_empty] r] st
    by (intro exI [of _ st2]) (simp add: st1_def st2_def)
qed

lemma boot_reportedE:
  assumes "\<And>st. boot_reachable boot_manifest boot_start st \<Longrightarrow> boot_inv boot_manifest st \<Longrightarrow> \<not> hw_init_done_set st \<Longrightarrow>
     map timezone (db_system (database st)) = [DFLT_TIMEZONE] \<Longrightarrow> idl_seqno st = 1 \<Longrightarrow>
     db_daemon (database st) = daemon_rows (daemons boot_manifest) [1, 1] \<Longrightarrow> thesis"
  shows thesis
  using boot_reported by (elim exE conjE) (rule assms)

text \<open>The later iteration loads a file with one package.\<close>

definition boot_env_later :: loop_env where
  "boot_env_later = boot_env\<lparr>new_seqno := 2, yaml_parser_ok := True,
     version_detail := Some (package_events sample_package @ [Stream_End])\<rparr>"

lemma boot_env_later_loads: "loads_packages boot_env_later"
  by (simp add: loads_packages_def package_load_ok_def boot_env_later_def boot_env_def sample_loop_env_def
      sysd_add_package_info_def package_events_def sample_package_def package_event_def keys value_event_def
      package_insert_def txn_create_def set_column_def txn_commit_def loader_init_def package_info_mapping_check_key_def
      enum_pkg_key_def PKG_INFO_ENTRIES_PER_COMMIT_def INT_MAX_def upd_nth_def)

lemma boot_env_later_simps:
  "quiet boot_env_later" "ce_manifest (config boot_env_later) = boot_manifest" "\<not> lock_contended boot_env_later"
  "has_lock boot_env_later" "new_seqno boot_env_later = 2" "hw_commit_ok boot_env_later"
  "write_outside_txn boot_env_later" "loads_packages boot_env_later"
  using boot_env_later_loads by (simp_all add: boot_env_later_def boot_env_def sample_loop_env_def quiet_def)

lemma boot_later_step: "sysd_run boot_env_later st = Inr st' \<Longrightarrow> boot_step boot_manifest st st'"
  using quiet_clients [OF boot_env_later_simps(1)] boot_env_later_simps(2) by (intro sysd_iteration) auto

lemma default_zone_fits: "map timezone rows = [DFLT_TIMEZONE] \<Longrightarrow> length (ZONEINFO_BASE @ timezone (hd rows)) < TIMEZONE_CMD_SIZE"
  by (auto simp: ZONEINFO_BASE_def TIMEZONE_CMD_SIZE_def DFLT_TIMEZONE_def)

lemma boot_rows_done: "all_hw_done (daemon_rows (daemons boot_manifest) [1, 1])" "length (daemon_rows (daemons boot_manifest) [1, 1]) = length (daemons boot_manifest)"
  by (simp_all add: all_hw_done_def daemon_rows_def boot_manifest_def)

theorem boot_completes_witness:
  "\<exists>st st'. boot_reachable boot_manifest boot_start st \<and> sysd_run boot_env_later st = Inr st' \<and>
     list_all (\<lambda>s. sys_cur_hw s = 1) (db_system (database st')) \<and> db_system (database st') \<noteq> []"
proof -
  obtain st where st: "boot_reachable boot_manifest boot_start st" "boot_inv boot_manifest st" "\<not> hw_init_done_set st"
    "map timezone (db_system (database st)) = [DFLT_TIMEZONE]" "idl_seqno st = 1"
    "db_daemon (database st) = daemon_rows (daemons boot_manifest) [1, 1]"
    by (rule boot_reportedE)
  have "db_system (database st) \<noteq> []" using st(4) by auto
  from boot_completes [OF boot_manifest_consistent _ st(3) this, of boot_start boot_env_later] st(1) boot_start_empty
  show ?thesis
    using boot_rows_done default_zone_fits [OF st(4)] by (auto simp: st(5,6) boot_env_later_simps)
qed

theorem boot_order_witness:
  "\<exists>st. boot_reachable boot_manifest boot_start st \<and> boot_published (database st) \<and> db_daemon (database st) \<noteq> [] \<and>
     all_hw_done (db_daemon (database st))"
proof -
  obtain st where st: "boot_reachable boot_manifest boot_start st" "boot_inv boot_manifest st" "\<not> hw_init_done_set st"
    "map timezone (db_system (database st)) = [DFLT_TIMEZONE]" "idl_seqno st = 1"
    "db_daemon (database st) = daemon_rows (daemons boot_manifest) [1, 1]"
    by (rule boot_reportedE)
  have "db_system (database st) \<noteq> []" using st(4) by auto
  from boot_completes_from [OF boot_manifest_consistent st(2,3) this, of boot_env_later]
  obtain st' where st': "sysd_run boot_env_later st = Inr st'" "db_system (database st') \<noteq> []"
    "list_all (\<lambda>s. sys_cur_hw s = 1) (db_system (database st'))"
    using boot_rows_done default_zone_fits [OF st(4)] by (auto simp: st(5,6) boot_env_later_simps)
  have pub: "boot_published (database st')"
    using st'(2,3) by (cases "db_system (database st')") (simp_all add: boot_published_def)
  have "boot_step boot_manifest st st'" by (rule boot_later_step [OF st'(1)])
  with st(1) have r: "boot_reachable boot_manifest boot_start st'" by (rule rtranclp.rtrancl_into_rtrancl)
  have "db_daemon (database st') \<noteq> []"
    using quiet_clients [OF boot_env_later_simps(1)] boot_env_later_simps(2) st'(1) st(4,6)
    by (elim sysd_run_cases) (auto simp: keeps_boot_def daemon_rows_def boot_manifest_def dest!: client_steps_daemons)
  then show ?thesis
    using boot_order [OF boot_manifest_consistent boot_start_empty r pub] r pub by blast
qed

end
