(* ===== verification/Zone_Cli.thy ===== *)
theory Zone_Cli
  imports Ovsdb
begin

text \<open>
  The time zone commands of the shell, \<open>src/cli/system_vty.c\<close> and
  \<open>src/cli/vtysh_ovsdb_system_context.c\<close>: the list of zones that is read from the directory of the
  zone files, the commands that are built from it, \<open>timezone set\<close> and its \<open>no\<close> form, and the line
  of the running configuration. The file system, the transactions and the shell are parameters.
\<close>

section \<open>The zone list\<close>

definition MAX_TIMEZONES :: nat where "MAX_TIMEZONES = 900"
definition MAX_TIMEZONE_NAME_SIZE :: nat where "MAX_TIMEZONE_NAME_SIZE = 100"
definition MAX_TIMEZONE_CMD_SIZE :: nat where "MAX_TIMEZONE_CMD_SIZE = MAX_TIMEZONES * MAX_TIMEZONE_NAME_SIZE"
definition MAX_TIMEZONES_HELP_SIZE :: nat where "MAX_TIMEZONES_HELP_SIZE = MAX_TIMEZONES * 100"
definition DEFAULT_TIMEZONE :: string where "DEFAULT_TIMEZONE = ''utc''"
definition ZONE_DIR :: string where "ZONE_DIR = ''/usr/share/zoneinfo/posix''"
definition base_path :: string where "base_path = ''/usr/share/zoneinfo/posix/''"

text \<open>The two arrays of names, up to \<open>zone_count\<close>, and the two buffers that are filled with them.\<close>

record zone_db =
  list_of_zones :: "string list"
  list_of_zones_caps :: "string list"
  zone_cmd :: string
  zone_help :: string

definition strcat :: "nat \<Rightarrow> string \<Rightarrow> string \<Rightarrow> string run" where
  "strcat cap buf s = (if length buf + length s < cap then Inr (buf @ s) else Inl Out_Of_Bounds_Write)"

definition populate_zone_db :: "string \<Rightarrow> string \<Rightarrow> zone_db \<Rightarrow> zone_db run" where
  "populate_zone_db zone zone_caps z =
     (if MAX_TIMEZONES \<le> length (list_of_zones z) \<or> MAX_TIMEZONE_NAME_SIZE \<le> length zone \<or>
         MAX_TIMEZONE_NAME_SIZE \<le> length zone_caps
      then Inl Out_Of_Bounds_Write
      else Inr (z\<lparr>list_of_zones := list_of_zones z @ [zone], list_of_zones_caps := list_of_zones_caps z @ [zone_caps]\<rparr>))"

definition add_info_to_cmd_options :: "string \<Rightarrow> zone_db \<Rightarrow> zone_db run" where
  "add_info_to_cmd_options zone z =
     and_then (strcat MAX_TIMEZONES_HELP_SIZE (zone_help z) zone) (\<lambda>help1.
     and_then (strcat MAX_TIMEZONES_HELP_SIZE help1 ('' Zone '' @ [CHR 0x0A])) (\<lambda>help2.
       if MAX_TIMEZONE_NAME_SIZE \<le> length zone then Inl Out_Of_Bounds_Write
       else
         (let zone_caps = zone;
              lower = map tolower zone
          in and_then (strcat MAX_TIMEZONE_CMD_SIZE (zone_cmd z) lower) (\<lambda>cmd1.
             and_then (strcat MAX_TIMEZONE_CMD_SIZE cmd1 '' | '') (\<lambda>cmd2.
               populate_zone_db lower zone_caps (z\<lparr>zone_help := help2, zone_cmd := cmd2\<rparr>))))))"

section \<open>Removing the base path\<close>

fun strstr :: "string \<Rightarrow> string \<Rightarrow> nat option" where
  "strstr [] needle = (if needle = [] then Some 0 else None)"
| "strstr (c # s) needle = (if prefix needle (c # s) then Some 0 else map_option Suc (strstr s needle))"

lemma strstr_Some: "strstr s needle = Some i \<Longrightarrow> i + length needle \<le> length s"
proof (induction s arbitrary: i)
  case (Cons c s)
  then show ?case by (auto split: if_splits dest: prefix_length_le)
qed (simp split: if_splits)

text \<open>
  Every round looks for the next occurrence from the place of the last one on and closes the gap.
\<close>

function remove_base_path :: "string \<Rightarrow> string" where
  "remove_base_path full_path =
     (case strstr full_path base_path of
        None \<Rightarrow> full_path
      | Some i \<Rightarrow> take i full_path @ remove_base_path (drop (i + length base_path) full_path))"
  by pat_completeness auto
termination
proof (relation "measure length")
  fix full_path i assume "strstr full_path base_path = Some i"
  then have "i + length base_path \<le> length full_path" by (rule strstr_Some)
  moreover have "0 < length base_path" by (simp add: base_path_def)
  ultimately show "(drop (i + length base_path) full_path, full_path) \<in> measure length"
    by (simp only: in_measure length_drop)
qed simp

declare remove_base_path.simps [simp del]

section \<open>Walking through the directories\<close>

text \<open>
  \<open>fs path\<close> are the entries of a directory in the order in which they are read, each with its kind
  (true for a directory) and its name; \<open>None\<close> when it cannot be opened. A path that does not fit
  is cut to the buffer, but the terminator is written where it would have ended. The walk follows
  the entries as they are found, so that it need not end: this is the outer \<open>None\<close>.
\<close>

type_synonym file_system = "string \<Rightarrow> (bool \<times> string) list option"

definition LOCAL_DIR_SIZE :: nat where "LOCAL_DIR_SIZE = 100"
definition PATH_SIZE :: nat where "PATH_SIZE = 1024"

definition add_zone_file :: "string \<Rightarrow> zone_db \<Rightarrow> zone_db run" where
  "add_zone_file full z =
     (if LOCAL_DIR_SIZE \<le> length full then Inl Out_Of_Bounds_Write
      else add_info_to_cmd_options (remove_base_path (trunc_copy (LOCAL_DIR_SIZE - 1) full)) z)"

partial_function (option) read_entries ::
    "file_system \<Rightarrow> string \<Rightarrow> (bool \<times> string) list \<Rightarrow> zone_db \<Rightarrow> zone_db run option" where
  "read_entries fs nm es z =
     (case es of
        [] \<Rightarrow> Some (Inr z)
      | e # rest \<Rightarrow>
          if fst e then
            (if PATH_SIZE \<le> length (nm @ ''/'' @ snd e) then Some (Inl Out_Of_Bounds_Write)
             else if strcmp (snd e) ''.'' = 0 \<or> strcmp (snd e) ''..'' = 0 then read_entries fs nm rest z
             else (case fs (trunc_copy (PATH_SIZE - 1) (nm @ ''/'' @ snd e)) of
                     None \<Rightarrow> read_entries fs nm rest z
                   | Some sub \<Rightarrow>
                       Option.bind (read_entries fs (trunc_copy (PATH_SIZE - 1) (nm @ ''/'' @ snd e)) sub z) (\<lambda>r.
                         case r of Inl f \<Rightarrow> Some (Inl f) | Inr z' \<Rightarrow> read_entries fs nm rest z')))
          else (case add_zone_file (nm @ ''/'' @ snd e) z of
                  Inl f \<Rightarrow> Some (Inl f)
                | Inr z' \<Rightarrow> read_entries fs nm rest z'))"

definition find_posix_timezones_and_add_to_list :: "file_system \<Rightarrow> string \<Rightarrow> zone_db \<Rightarrow> zone_db run option" where
  "find_posix_timezones_and_add_to_list fs nm z =
     (case fs nm of None \<Rightarrow> Some (Inr z) | Some es \<Rightarrow> read_entries fs nm es z)"

section \<open>Installing the commands\<close>

record installed_commands =
  set_string :: string
  set_doc :: string
  no_string :: string
  no_doc :: string

text \<open>
  \<open>callocs\<close> are the outcomes of the four allocations. The function gives up only when all of them
  fail; the copies that follow write through every one of the pointers.
\<close>

definition system_install_timezone_set_command :: "bool \<times> bool \<times> bool \<times> bool \<Rightarrow> file_system \<Rightarrow> string \<Rightarrow> string \<Rightarrow>
    (int \<times> (zone_db \<times> installed_commands) option) run option" where
  "system_install_timezone_set_command callocs fs doc doc_no_form =
     (case callocs of (cmd_ok, help_ok, cmd_no_ok, help_no_ok) \<Rightarrow>
        if \<not> cmd_ok \<and> \<not> help_ok \<and> \<not> cmd_no_ok \<and> \<not> help_no_ok then Some (Inr (-1, None))
        else if \<not> (cmd_ok \<and> help_ok \<and> cmd_no_ok \<and> help_no_ok) then Some (Inl Null_Dereference)
        else
          (let z0 = \<lparr>list_of_zones = [], list_of_zones_caps = [],
                 zone_cmd = take (MAX_TIMEZONE_CMD_SIZE - 1) ''timezone set ('',
                 zone_help = take (MAX_TIMEZONES_HELP_SIZE - 1) doc\<rparr>;
               cmd_no_form = take (MAX_TIMEZONE_CMD_SIZE - 1) ''no '';
               help_no_form = take (MAX_TIMEZONES_HELP_SIZE - 1) doc_no_form
           in Option.bind (find_posix_timezones_and_add_to_list fs ZONE_DIR z0) (\<lambda>r.
                Some (and_then r (\<lambda>z.
                  and_then (strcat MAX_TIMEZONE_CMD_SIZE (zone_cmd z) '')'') (\<lambda>cmd.
                  and_then (strcat MAX_TIMEZONE_CMD_SIZE cmd_no_form cmd) (\<lambda>cmd_no.
                    Inr (0, Some (z, \<lparr>set_string = cmd, set_doc = zone_help z, no_string = cmd_no,
                      no_doc = zone_help z @ drop (length (zone_help z)) help_no_form\<rparr>)))))))))"

section \<open>Setting the time zone\<close>

datatype cmd_result = CMD_SUCCESS | CMD_ERR_NO_MATCH

fun find_zone :: "string list \<Rightarrow> string \<Rightarrow> nat \<Rightarrow> nat option" where
  "find_zone [] timezone_cmd i = None"
| "find_zone (zn # zns) timezone_cmd i =
     (if strcmp zn timezone_cmd = 0 then Some i else find_zone zns timezone_cmd (Suc i))"

definition translate_cmd_to_filepath :: "zone_db \<Rightarrow> string \<Rightarrow> nat option" where
  "translate_cmd_to_filepath z timezone_cmd = find_zone (list_of_zones z) timezone_cmd 0"

text \<open>
  The result, the messages (without the newline of the terminal) and the database. Setting the
  column and the commit are one step; the result does not depend on whether the commit succeeds.
\<close>

definition set_zone :: "zone_db \<Rightarrow> bool \<Rightarrow> string \<Rightarrow> ovsdb \<Rightarrow> (cmd_result \<times> string list \<times> ovsdb) run" where
  "set_zone z commit_ok timezone_cmd db =
     (case translate_cmd_to_filepath z timezone_cmd of
        None \<Rightarrow> Inr (CMD_ERR_NO_MATCH, [''Invalid timezone specified, please use a valid timezone''], db)
      | Some i \<Rightarrow>
          if length (list_of_zones_caps z) \<le> i then Inl Out_Of_Bounds_Read
          else
            and_then (strcat 500 ZONE_DIR (list_of_zones_caps z ! i)) (\<lambda>_.
              Inr (CMD_SUCCESS, [],
                if commit_ok then set_system 0 (\<lambda>s. s\<lparr>timezone := list_of_zones_caps z ! i\<rparr>) db else db)))"

definition cli_set_timezone :: "zone_db \<Rightarrow> bool \<Rightarrow> bool \<Rightarrow> string \<Rightarrow> bool \<Rightarrow> ovsdb \<Rightarrow>
    (cmd_result \<times> string list \<times> ovsdb) run" where
  "cli_set_timezone z txn_ok commit_ok timezone_info no_flags db =
     (case db_system db of
        [] \<Rightarrow> Inr (CMD_SUCCESS, [], db)
      | ovs # _ \<Rightarrow>
          if \<not> txn_ok then Inr (CMD_SUCCESS, [], db)
          else if MAX_TIMEZONE_NAME_SIZE \<le> length (timezone ovs) then Inl Out_Of_Bounds_Write
          else
            (let timezone_from_ovsdb = map tolower (timezone ovs)
             in if no_flags \<and> strcmp timezone_from_ovsdb timezone_info = 0 then set_zone z commit_ok DEFAULT_TIMEZONE db
                else if \<not> no_flags then
                  (if 500 \<le> length timezone_info then Inl Out_Of_Bounds_Write else set_zone z commit_ok timezone_info db)
                else Inr (CMD_ERR_NO_MATCH, [''Timezone configured is '' @ timezone_from_ovsdb], db)))"

definition cli_platform_timezone_set :: "zone_db \<Rightarrow> bool \<Rightarrow> bool \<Rightarrow> string \<Rightarrow> ovsdb \<Rightarrow> (cmd_result \<times> string list \<times> ovsdb) run" where
  "cli_platform_timezone_set z txn_ok commit_ok arg db = cli_set_timezone z txn_ok commit_ok arg False db"

definition cli_platform_timezone_set_no_form :: "zone_db \<Rightarrow> bool \<Rightarrow> bool \<Rightarrow> string \<Rightarrow> ovsdb \<Rightarrow> (cmd_result \<times> string list \<times> ovsdb) run" where
  "cli_platform_timezone_set_no_form z txn_ok commit_ok arg db = cli_set_timezone z txn_ok commit_ok arg True db"

section \<open>The running configuration and the display\<close>

definition vtysh_config_context_system_callback :: "ovsdb \<Rightarrow> string list run" where
  "vtysh_config_context_system_callback db =
     (case db_system db of
        [] \<Rightarrow> Inr []
      | vswrow # _ \<Rightarrow>
          if 200 \<le> length (timezone vswrow) then Inl Out_Of_Bounds_Write
          else Inr [''timezone set '' @ map tolower (timezone vswrow)])"

text \<open>The second copy of the function.\<close>

definition vtysh_config_context_timezone_callback :: "ovsdb \<Rightarrow> string list run" where
  "vtysh_config_context_timezone_callback db =
     (case db_system db of
        [] \<Rightarrow> Inr []
      | vswrow # _ \<Rightarrow>
          if 200 \<le> length (timezone vswrow) then Inl Out_Of_Bounds_Write
          else Inr [''timezone set '' @ map tolower (timezone vswrow)])"

text \<open>
  \<open>chunks\<close> is what the calls of \<open>fgets\<close> deliver from the output of timedatectl, \<open>None\<close> when the file
  cannot be opened. The first loop reads once more before it looks at its counter.
\<close>

fun skip_lines :: "nat \<Rightarrow> string list \<Rightarrow> string list" where
  "skip_lines line_count [] = []"
| "skip_lines line_count (output # rest) =
     (if line_count < 6 then skip_lines (Suc line_count) rest else rest)"

definition vtysh_show_system_timezone :: "bool \<Rightarrow> string list option \<Rightarrow> ovsdb \<Rightarrow> cmd_result \<times> string list" where
  "vtysh_show_system_timezone txn_ok chunks db =
     (let out1 = (case db_system db of
            [] \<Rightarrow> []
          | ovs # _ \<Rightarrow> if txn_ok then [''System is configured for timezone : '' @ timezone ovs @ [CHR 0x0A]] else [])
      in case chunks of
           None \<Rightarrow> (CMD_ERR_NO_MATCH, out1)
         | Some cs \<Rightarrow> (CMD_SUCCESS, out1 @ skip_lines 0 cs))"

section \<open>Specification: the files below a directory\<close>

datatype zone_node = Zone_File string | Zone_Dir string "zone_node list" | Dot_Entry string

fun entry_of :: "zone_node \<Rightarrow> bool \<times> string" where
  "entry_of (Zone_File n) = (False, n)"
| "entry_of (Zone_Dir n ns) = (True, n)"
| "entry_of (Dot_Entry n) = (True, n)"

text \<open>The names of the files, each with the path from the top, in the order of a depth-first walk.\<close>

fun files_below :: "string \<Rightarrow> zone_node \<Rightarrow> string list" where
  "files_below q (Zone_File n) = [q @ n]"
| "files_below q (Zone_Dir n ns) = concat (map (files_below (q @ n @ ''/'')) ns)"
| "files_below q (Dot_Entry n) = []"

text \<open>The tree is what the file system has, with paths that fit the buffer.\<close>

fun on_disk :: "file_system \<Rightarrow> string \<Rightarrow> zone_node \<Rightarrow> bool" where
  "on_disk fs p (Zone_File n) = True"
| "on_disk fs p (Zone_Dir n ns) =
     (n \<noteq> ''.'' \<and> n \<noteq> ''..'' \<and> length (p @ ''/'' @ n) < PATH_SIZE - 1 \<and>
      fs (p @ ''/'' @ n) = Some (map entry_of ns) \<and> list_all (on_disk fs (p @ ''/'' @ n)) ns)"
| "on_disk fs p (Dot_Entry n) = ((n = ''.'' \<or> n = ''..'') \<and> length (p @ ''/'' @ n) < PATH_SIZE)"

definition cmd_option :: "string \<Rightarrow> string" where
  "cmd_option r = map tolower r @ '' | ''"

definition help_line :: "string \<Rightarrow> string" where
  "help_line r = r @ '' Zone '' @ [CHR 0x0A]"

definition add_zone :: "string \<Rightarrow> zone_db \<Rightarrow> zone_db" where
  "add_zone r z = \<lparr>list_of_zones = list_of_zones z @ [map tolower r], list_of_zones_caps = list_of_zones_caps z @ [r],
     zone_cmd = zone_cmd z @ cmd_option r, zone_help = zone_help z @ help_line r\<rparr>"

text \<open>A zone name that survives the buffer for its path and the removal of the top directory.\<close>

definition zone_name_ok :: "string \<Rightarrow> bool" where
  "zone_name_ok r \<longleftrightarrow> length (base_path @ r) < LOCAL_DIR_SIZE - 1 \<and> strstr r base_path = None"

text \<open>The arrays and the two buffers have room for more zones.\<close>

definition has_room :: "zone_db \<Rightarrow> string list \<Rightarrow> bool" where
  "has_room z rs \<longleftrightarrow> length (list_of_zones z) + length rs \<le> MAX_TIMEZONES \<and>
     length (zone_cmd z @ concat (map cmd_option rs)) < MAX_TIMEZONE_CMD_SIZE \<and>
     length (zone_help z @ concat (map help_line rs)) < MAX_TIMEZONES_HELP_SIZE"

lemma has_room_first: "has_room z (a # rs) \<Longrightarrow> has_room z [a]"
  unfolding has_room_def by simp

lemma has_room_rest: "has_room z (a # rs) \<Longrightarrow> has_room (add_zone a z) rs"
  unfolding has_room_def add_zone_def by simp

lemma has_room_append:
  "has_room z (as @ bs) \<Longrightarrow> has_room z as \<and> has_room (fold add_zone as z) bs"
proof (induction as arbitrary: z)
  case Nil
  then show ?case by (simp add: has_room_def)
next
  case (Cons a as)
  from Cons.prems have "has_room z (a # (as @ bs))" by simp
  from Cons.IH [OF has_room_rest [OF this]] Cons.prems show ?case by (simp add: has_room_def)
qed

lemma remove_base:
  assumes "strstr r base_path = None"
  shows "remove_base_path (base_path @ r) = r"
proof -
  have "strstr (base_path @ r) base_path = Some 0" by (simp add: base_path_def)
  then have "remove_base_path (base_path @ r) = remove_base_path r"
    by (subst remove_base_path.simps) simp
  also have "\<dots> = r" by (subst remove_base_path.simps) (simp add: assms)
  finally show ?thesis .
qed

lemma zone_name_length: "zone_name_ok r \<Longrightarrow> length r < MAX_TIMEZONE_NAME_SIZE"
  by (simp add: zone_name_ok_def LOCAL_DIR_SIZE_def MAX_TIMEZONE_NAME_SIZE_def)

lemma add_zone_file_ok:
  assumes "zone_name_ok r" and "has_room z [r]"
  shows "add_zone_file (base_path @ r) z = Inr (add_zone r z)"
proof -
  have len: "length (base_path @ r) < 99" "length r < MAX_TIMEZONE_NAME_SIZE" and "strstr r base_path = None"
    using assms(1) by (simp_all add: zone_name_ok_def LOCAL_DIR_SIZE_def MAX_TIMEZONE_NAME_SIZE_def)
  have "add_info_to_cmd_options r z = Inr (add_zone r z)"
    using assms(2) len(2)
    by (simp add: add_info_to_cmd_options_def strcat_def populate_zone_db_def add_zone_def has_room_def cmd_option_def
        help_line_def Let_def)
  then show ?thesis
    using len(1) by (simp add: add_zone_file_def LOCAL_DIR_SIZE_def trunc_copy_fits remove_base [OF \<open>strstr r base_path = None\<close>])
qed

text \<open>One entry, with everything below it, and then the rest of the directory.\<close>

definition reads_as :: "file_system \<Rightarrow> zone_node \<Rightarrow> bool" where
  "reads_as fs node \<longleftrightarrow> (\<forall>p q rest z. p @ ''/'' = base_path @ q \<longrightarrow> on_disk fs p node \<longrightarrow>
     list_all zone_name_ok (files_below q node) \<longrightarrow> has_room z (files_below q node) \<longrightarrow>
     read_entries fs p (entry_of node # rest) z = read_entries fs p rest (fold add_zone (files_below q node) z))"

lemma reads_asD:
  "reads_as fs node \<Longrightarrow> p @ ''/'' = base_path @ q \<Longrightarrow> on_disk fs p node \<Longrightarrow>
   list_all zone_name_ok (files_below q node) \<Longrightarrow> has_room z (files_below q node) \<Longrightarrow>
   read_entries fs p (entry_of node # rest) z = read_entries fs p rest (fold add_zone (files_below q node) z)"
  by (simp add: reads_as_def)

lemma reads_list:
  assumes "\<And>n. n \<in> set ns \<Longrightarrow> reads_as fs n" and "p @ ''/'' = base_path @ q" and "list_all (on_disk fs p) ns"
    and "list_all zone_name_ok (concat (map (files_below q) ns))" and "has_room z (concat (map (files_below q) ns))"
  shows "read_entries fs p (map entry_of ns) z = Some (Inr (fold add_zone (concat (map (files_below q) ns)) z))"
  using assms
proof (induction ns arbitrary: z)
  case Nil
  then show ?case by (simp add: read_entries.simps)
next
  case (Cons n ns)
  have "read_entries fs p (entry_of n # map entry_of ns) z =
      read_entries fs p (map entry_of ns) (fold add_zone (files_below q n) z)"
    using Cons.prems by (intro reads_asD) (auto dest: has_room_append)
  also have "\<dots> = Some (Inr (fold add_zone (concat (map (files_below q) ns)) (fold add_zone (files_below q n) z)))"
    using Cons.prems by (intro Cons.IH) (auto dest: has_room_append)
  finally show ?case by simp
qed

lemma reads_node: "reads_as fs node"
proof (induction node)
  case (Zone_File n)
  have "read_entries fs p ((False, n) # rest) z = read_entries fs p rest (add_zone (q @ n) z)"
    if "p @ ''/'' = base_path @ q" "zone_name_ok (q @ n)" "has_room z [q @ n]" for p q rest z
  proof -
    have "p @ ''/'' @ n = base_path @ q @ n" using that(1) by (metis append_assoc)
    then have "add_zone_file (p @ ''/'' @ n) z = Inr (add_zone (q @ n) z)"
      using add_zone_file_ok [OF that(2,3)] by metis
    then show ?thesis by (simp add: read_entries.simps [of fs p "_ # _"])
  qed
  then show ?case by (simp add: reads_as_def)
next
  case (Zone_Dir n ns)
  have "read_entries fs p ((True, n) # rest) z =
      read_entries fs p rest (fold add_zone (concat (map (files_below (q @ n @ ''/'')) ns)) z)"
    if q: "p @ ''/'' = base_path @ q" and "on_disk fs p (Zone_Dir n ns)"
      and "list_all zone_name_ok (concat (map (files_below (q @ n @ ''/'')) ns))"
      and "has_room z (concat (map (files_below (q @ n @ ''/'')) ns))" for p q rest z
  proof -
    have "(p @ ''/'' @ n) @ ''/'' = base_path @ (q @ n @ ''/'')" using q by (metis append_assoc)
    then have sub: "read_entries fs (p @ ''/'' @ n) (map entry_of ns) z =
        Some (Inr (fold add_zone (concat (map (files_below (q @ n @ ''/'')) ns)) z))"
      using that(2-4) Zone_Dir.IH by (intro reads_list) auto
    have "trunc_copy (PATH_SIZE - 1) (p @ ''/'' @ n) = p @ ''/'' @ n"
      using that(2) by (intro trunc_copy_fits) simp
    then show ?thesis
      using that(2) sub by (simp add: read_entries.simps [of fs p "_ # _"] strcmp_eq PATH_SIZE_def)
  qed
  then show ?case by (simp add: reads_as_def)
next
  case (Dot_Entry n)
  have "read_entries fs p ((True, n) # rest) z = read_entries fs p rest z"
    if "on_disk fs p (Dot_Entry n)" for p rest z
    using that by (auto simp: read_entries.simps [of fs p "_ # _"] strcmp_eq)
  then show ?case by (simp add: reads_as_def)
qed

lemma fold_add_zone:
  "fold add_zone rs z = \<lparr>list_of_zones = list_of_zones z @ map (map tolower) rs,
     list_of_zones_caps = list_of_zones_caps z @ rs,
     zone_cmd = zone_cmd z @ concat (map cmd_option rs), zone_help = zone_help z @ concat (map help_line rs)\<rparr>"
  by (induction rs arbitrary: z) (simp_all add: add_zone_def)

section \<open>Specification: the zone list and its commands\<close>

text \<open>The names are stored twice, once in lower case, and fit their arrays.\<close>

definition zone_db_wf :: "zone_db \<Rightarrow> bool" where
  "zone_db_wf z \<longleftrightarrow> list_of_zones z = map (map tolower) (list_of_zones_caps z) \<and>
     list_all (\<lambda>r. length r < MAX_TIMEZONE_NAME_SIZE) (list_of_zones_caps z)"

definition first_zone :: "zone_db \<Rightarrow> string \<Rightarrow> string option" where
  "first_zone z arg = List.find (\<lambda>r. map tolower r = arg) (list_of_zones_caps z)"

lemma find_zone_result:
  "find_zone zs c i = (if c \<in> set zs then Some (i + length (takeWhile (\<lambda>x. x \<noteq> c) zs)) else None)"
  by (induction zs arbitrary: i) (auto simp: strcmp_eq)

lemma find_takeWhile:
  "List.find P xs = (if list_ex P xs then Some (xs ! length (takeWhile (\<lambda>x. \<not> P x) xs)) else None)"
  by (induction xs) auto

lemma takeWhile_shorter: "x \<in> set xs \<Longrightarrow> \<not> P x \<Longrightarrow> length (takeWhile P xs) < length xs"
  by (induction xs) auto

lemma set_zone_result:
  assumes "zone_db_wf z"
  shows "set_zone z ok arg db = (case first_zone z arg of
       None \<Rightarrow> Inr (CMD_ERR_NO_MATCH, [''Invalid timezone specified, please use a valid timezone''], db)
     | Some r \<Rightarrow> Inr (CMD_SUCCESS, [], if ok then set_system 0 (\<lambda>s. s\<lparr>timezone := r\<rparr>) db else db))"
proof -
  let ?caps = "list_of_zones_caps z"
  let ?k = "length (takeWhile (\<lambda>x. map tolower x \<noteq> arg) ?caps)"
  have zs: "list_of_zones z = map (map tolower) ?caps" using assms by (simp add: zone_db_wf_def)
  have tr: "translate_cmd_to_filepath z arg = (if list_ex (\<lambda>r. map tolower r = arg) ?caps then Some ?k else None)"
    by (auto simp: translate_cmd_to_filepath_def find_zone_result zs takeWhile_map o_def list_ex_iff)
  show ?thesis
  proof (cases "list_ex (\<lambda>r. map tolower r = arg) ?caps")
    case True
    then obtain r where "r \<in> set ?caps" "map tolower r = arg" by (auto simp: list_ex_iff)
    then have k: "?k < length ?caps" by (intro takeWhile_shorter) auto
    then have "length (?caps ! ?k) < 100"
      using assms by (auto simp: zone_db_wf_def MAX_TIMEZONE_NAME_SIZE_def list_all_length)
    moreover have "length ZONE_DIR = 25" by (simp add: ZONE_DIR_def)
    ultimately show ?thesis
      using True k by (simp add: set_zone_def tr first_zone_def find_takeWhile strcat_def)
  next
    case False
    then show ?thesis by (simp add: set_zone_def tr first_zone_def find_takeWhile)
  qed
qed

lemma first_zone_distinct:
  assumes "distinct (map (map tolower) (list_of_zones_caps z))" and "r \<in> set (list_of_zones_caps z)"
  shows "first_zone z (map tolower r) = Some r"
proof -
  have "list_ex (\<lambda>x. map tolower x = map tolower r) (list_of_zones_caps z)" using assms(2) by (auto simp: list_ex_iff)
  then obtain x where x: "first_zone z (map tolower r) = Some x" by (simp add: first_zone_def find_takeWhile)
  then have "x \<in> set (list_of_zones_caps z)" "map tolower x = map tolower r"
    by (auto simp: first_zone_def find_Some_iff)
  with assms show ?thesis using x by (metis distinct_map inj_onD)
qed

lemma first_zone_known: "first_zone z arg = Some r \<Longrightarrow> r \<in> set (list_of_zones_caps z) \<and> map tolower r = arg"
  by (auto simp: first_zone_def find_Some_iff)

section \<open>Properties\<close>

text \<open>What the installation needs of the zone directory, with the help text \<open>doc\<close> of the command.\<close>

definition zone_tree_ok :: "file_system \<Rightarrow> string \<Rightarrow> zone_node list \<Rightarrow> bool" where
  "zone_tree_ok fs doc ns \<longleftrightarrow>
     fs ZONE_DIR = Some (map entry_of ns) \<and> list_all (on_disk fs ZONE_DIR) ns \<and>
     (let rs = concat (map (files_below []) ns)
      in list_all zone_name_ok rs \<and> length rs \<le> MAX_TIMEZONES \<and>
         length (''no timezone set ('' @ concat (map cmd_option rs) @ '')'') < MAX_TIMEZONE_CMD_SIZE \<and>
         length (doc @ concat (map help_line rs)) < MAX_TIMEZONES_HELP_SIZE)"

lemma zone_commands_result:
  assumes "zone_tree_ok fs doc ns" and "length doc < MAX_TIMEZONES_HELP_SIZE"
    and "length doc_no \<le> length (doc @ concat (map help_line (concat (map (files_below []) ns))))"
  shows "\<exists>z c. system_install_timezone_set_command (True, True, True, True) fs doc doc_no = Some (Inr (0, Some (z, c)))
    \<and> list_of_zones_caps z = concat (map (files_below []) ns) \<and> zone_db_wf z
    \<and> set_string c = ''timezone set ('' @ concat (map cmd_option (list_of_zones_caps z)) @ '')''
    \<and> no_string c = ''no '' @ set_string c
    \<and> set_doc c = doc @ concat (map help_line (list_of_zones_caps z)) \<and> no_doc c = set_doc c"
proof -
  let ?rs = "concat (map (files_below []) ns)"
  let ?z0 = "\<lparr>list_of_zones = [], list_of_zones_caps = [], zone_cmd = ''timezone set ('', zone_help = doc\<rparr>"
  have ok: "list_all zone_name_ok ?rs" and fs: "fs ZONE_DIR = Some (map entry_of ns)" and disk: "list_all (on_disk fs ZONE_DIR) ns"
    and len: "length ?rs \<le> MAX_TIMEZONES"
      "length (''no timezone set ('' @ concat (map cmd_option ?rs) @ '')'') < MAX_TIMEZONE_CMD_SIZE"
      "length (doc @ concat (map help_line ?rs)) < MAX_TIMEZONES_HELP_SIZE"
    using assms(1) by (simp_all add: zone_tree_ok_def Let_def)
  have room: "has_room ?z0 ?rs" using len by (simp add: has_room_def)
  have "ZONE_DIR @ ''/'' = base_path @ []" by (simp add: ZONE_DIR_def base_path_def)
  then have "find_posix_timezones_and_add_to_list fs ZONE_DIR ?z0 = Some (Inr (fold add_zone ?rs ?z0))"
    unfolding find_posix_timezones_and_add_to_list_def fs option.case
    by (intro reads_list reads_node disk ok room)
  moreover have "take (MAX_TIMEZONE_CMD_SIZE - 1) ''timezone set ('' = ''timezone set (''"
    "take (MAX_TIMEZONE_CMD_SIZE - 1) ''no '' = ''no ''" "take (MAX_TIMEZONES_HELP_SIZE - 1) doc = doc"
    using assms(2) by (simp_all add: MAX_TIMEZONE_CMD_SIZE_def MAX_TIMEZONES_def MAX_TIMEZONE_NAME_SIZE_def)
  moreover have "list_all (\<lambda>r. length r < MAX_TIMEZONE_NAME_SIZE) ?rs"
    using ok zone_name_length unfolding list_all_iff by blast
  ultimately show ?thesis
    using len(2) assms(3)
    by (simp add: system_install_timezone_set_command_def fold_add_zone strcat_def zone_db_wf_def Let_def)
qed

text \<open>
  The zone list and the commands: for every tree of zone files whose names fit the buffers and
  the arrays, the installation ends without a fault, the list has exactly the files of the tree in
  the order of the walk, by their path below the top directory and again in lower case, and the
  two commands offer just these names. The help text of the \<open>no\<close> command is overwritten by that of
  the other one, so that the line that explains \<open>no\<close> is lost.
\<close>

lemma zone_commands_installed:
  assumes "zone_tree_ok fs doc ns" and "length doc < MAX_TIMEZONES_HELP_SIZE"
    and "length doc_no \<le> length (doc @ concat (map help_line (concat (map (files_below []) ns))))"
  shows "\<exists>z c. system_install_timezone_set_command (True, True, True, True) fs doc doc_no = Some (Inr (0, Some (z, c)))
    \<and> list_of_zones_caps z = concat (map (files_below []) ns) \<and> zone_db_wf z
    \<and> set_string c = ''timezone set ('' @ concat (map cmd_option (list_of_zones_caps z)) @ '')''
    \<and> no_string c = ''no '' @ set_string c
    \<and> set_doc c = doc @ concat (map help_line (list_of_zones_caps z)) \<and> no_doc c = set_doc c"
  by (rule zone_commands_result [OF assms])

text \<open>
  Setting the zone: with an intact zone list and names that fit the buffers, \<open>timezone set\<close>
  stores the spelling of the first zone of that name, whatever was stored, and refuses every other
  name; the \<open>no\<close> form stores the zone called utc, when its argument is the name of the zone that is
  set, and otherwise reports the zone that is set; a refusal changes nothing. The result does not
  depend on whether the commit succeeds.
\<close>

lemma timezone_commands:
  assumes "zone_db_wf z" and "db_system db = ovs # rest" and "length (timezone ovs) < 100" and "length arg < 500"
  shows "cli_platform_timezone_set z True ok arg db =
      (case first_zone z arg of
         None \<Rightarrow> Inr (CMD_ERR_NO_MATCH, [''Invalid timezone specified, please use a valid timezone''], db)
       | Some r \<Rightarrow> Inr (CMD_SUCCESS, [], if ok then set_system 0 (\<lambda>s. s\<lparr>timezone := r\<rparr>) db else db)) \<and>
    cli_platform_timezone_set_no_form z True ok arg db =
      (if map tolower (timezone ovs) \<noteq> arg
       then Inr (CMD_ERR_NO_MATCH, [''Timezone configured is '' @ map tolower (timezone ovs)], db)
       else case first_zone z ''utc'' of
         None \<Rightarrow> Inr (CMD_ERR_NO_MATCH, [''Invalid timezone specified, please use a valid timezone''], db)
       | Some r \<Rightarrow> Inr (CMD_SUCCESS, [], if ok then set_system 0 (\<lambda>s. s\<lparr>timezone := r\<rparr>) db else db))"
  using assms(2-4)
  by (simp add: cli_platform_timezone_set_def cli_platform_timezone_set_no_form_def cli_set_timezone_def
      set_zone_result [OF assms(1)] strcmp_eq MAX_TIMEZONE_NAME_SIZE_def DEFAULT_TIMEZONE_def Let_def)

text \<open>
  A zone of the list is accepted whatever becomes of the transaction, and stored when it starts and
  commits; a stored zone that is too long for its copy overruns it before the name is looked at.
\<close>

lemma timezone_set_known:
  assumes "zone_db_wf z" and "db_system db = ovs # rest" and "first_zone z arg = Some r"
  shows "cli_platform_timezone_set z txn_ok ok arg db =
    (if txn_ok \<and> 100 \<le> length (timezone ovs) then Inl Out_Of_Bounds_Write
     else Inr (CMD_SUCCESS, [], if txn_ok \<and> ok then set_system 0 (\<lambda>s. s\<lparr>timezone := r\<rparr>) db else db))"
proof -
  have "length r < 100" using assms(1) first_zone_known [OF assms(3)]
    by (auto simp: zone_db_wf_def MAX_TIMEZONE_NAME_SIZE_def list_all_iff)
  then have arg: "length arg < 500" using first_zone_known [OF assms(3)] by auto
  show ?thesis
  proof (cases "txn_ok \<and> length (timezone ovs) < 100")
    case True
    with timezone_commands [OF assms(1,2) _ arg, of ok] show ?thesis by (simp add: assms(3))
  next
    case False
    then show ?thesis
      by (auto simp: cli_platform_timezone_set_def cli_set_timezone_def assms(2) MAX_TIMEZONE_NAME_SIZE_def)
  qed
qed

text \<open>
  C20. The running configuration restores the zone: when no two zones differ in case only and the
  zone that is set is one of the list, the running configuration is one line. Executed on any other
  database with a system row whose stored zone has fewer than 100 characters, this line reports
  success, and when its transaction starts and commits it sets the same zone again, spelling
  included; otherwise, although it reports success, it changes nothing. A longer stored zone overruns
  the buffer it is copied to, once the transaction is started.
\<close>

theorem running_config_restores:
  assumes "zone_db_wf z" and "distinct (list_of_zones z)" and "db_system db = s # rest"
    and "timezone s \<in> set (list_of_zones_caps z)" and "db_system db2 = s2 # rest2"
  shows "\<exists>arg. vtysh_config_context_system_callback db = Inr [''timezone set '' @ arg] \<and>
    cli_platform_timezone_set z txn_ok commit_ok arg db2 =
      (if txn_ok \<and> 100 \<le> length (timezone s2) then Inl Out_Of_Bounds_Write
       else Inr (CMD_SUCCESS, [],
         if txn_ok \<and> commit_ok then set_system 0 (\<lambda>t. t\<lparr>timezone := timezone s\<rparr>) db2 else db2))"
proof -
  have len: "length (timezone s) < 100"
    using assms(1,4) by (auto simp: zone_db_wf_def MAX_TIMEZONE_NAME_SIZE_def list_all_iff)
  have "first_zone z (map tolower (timezone s)) = Some (timezone s)"
    using assms(1,2) by (intro first_zone_distinct [OF _ assms(4)]) (simp add: zone_db_wf_def)
  from timezone_set_known [OF assms(1,5) this] len assms(3) show ?thesis
    by (intro exI [of _ "map tolower (timezone s)"]) (simp add: vtysh_config_context_system_callback_def)
qed

text \<open>
  The display drops the first seven pieces that \<open>fgets\<close> reads, not six: the one that ends the first
  loop is lost, too.
\<close>

lemma skip_lines_drop: "skip_lines 0 chunks = drop 7 chunks"
proof -
  have "skip_lines k xs = drop (7 - k) xs" if "k \<le> 6" for k xs
    using that
  proof (induction xs arbitrary: k)
    case (Cons x xs)
    then show ?case by (cases "k < 6") (auto simp: drop_Cons' Suc_diff_le)
  qed simp
  from this [of 0 chunks] show ?thesis by simp
qed

section \<open>Witnesses\<close>

definition sample_zone_tree :: "zone_node list" where
  "sample_zone_tree = [Dot_Entry ''.'', Dot_Entry ''..'', Zone_Dir ''Europe'' [Zone_File ''Berlin''], Zone_File ''UTC'']"

definition sample_fs :: file_system where
  "sample_fs p = (if p = ZONE_DIR then Some (map entry_of sample_zone_tree)
     else if p = ZONE_DIR @ ''/Europe'' then Some [(False, ''Berlin'')] else None)"

lemma sample_tree_ok: "zone_tree_ok sample_fs ''Time zone'' sample_zone_tree"
  by (simp add: zone_tree_ok_def sample_fs_def sample_zone_tree_def ZONE_DIR_def PATH_SIZE_def zone_name_ok_def
      base_path_def LOCAL_DIR_SIZE_def MAX_TIMEZONES_def MAX_TIMEZONE_CMD_SIZE_def MAX_TIMEZONES_HELP_SIZE_def
      MAX_TIMEZONE_NAME_SIZE_def cmd_option_def help_line_def Let_def)

theorem zone_commands_installed_witness:
  "\<exists>z c. system_install_timezone_set_command (True, True, True, True) sample_fs ''Time zone'' ''No'' = Some (Inr (0, Some (z, c)))
     \<and> list_of_zones_caps z = [''Europe/Berlin'', ''UTC'']"
proof -
  have files: "concat (map (files_below []) sample_zone_tree) = [''Europe/Berlin'', ''UTC'']"
    by (simp add: sample_zone_tree_def)
  have "length ''Time zone'' < MAX_TIMEZONES_HELP_SIZE"
    "length ''No'' \<le> length (''Time zone'' @ concat (map help_line (concat (map (files_below []) sample_zone_tree))))"
    by (simp_all add: MAX_TIMEZONES_HELP_SIZE_def MAX_TIMEZONES_def)
  from zone_commands_installed [OF sample_tree_ok this] show ?thesis unfolding files by blast
qed

definition sample_zones :: zone_db where
  "sample_zones = \<lparr>list_of_zones = [''europe/berlin'', ''utc''], list_of_zones_caps = [''Europe/Berlin'', ''UTC''],
     zone_cmd = [], zone_help = []\<rparr>"

lemma tolower_sample [simp]:
  "tolower (CHR ''E'') = CHR ''e''" "tolower (CHR ''B'') = CHR ''b''" "tolower (CHR ''U'') = CHR ''u''"
  "tolower (CHR ''T'') = CHR ''t''" "tolower (CHR ''C'') = CHR ''c''" "tolower (CHR ''u'') = CHR ''u''"
  "tolower (CHR ''r'') = CHR ''r''" "tolower (CHR ''o'') = CHR ''o''" "tolower (CHR ''p'') = CHR ''p''"
  "tolower (CHR ''e'') = CHR ''e''" "tolower (CHR ''l'') = CHR ''l''" "tolower (CHR ''i'') = CHR ''i''"
  "tolower (CHR ''n'') = CHR ''n''" "tolower (CHR ''/'') = CHR ''/''"
  by code_simp+

lemma sample_zones_wf: "zone_db_wf sample_zones"
  by (simp add: zone_db_wf_def sample_zones_def MAX_TIMEZONE_NAME_SIZE_def)

definition sample_zone_ovsdb :: "string \<Rightarrow> ovsdb" where
  "sample_zone_ovsdb tz = ovsdb_empty\<lparr>db_system := [system_fresh\<lparr>timezone := tz\<rparr>]\<rparr>"

theorem timezone_commands_witness:
  "cli_platform_timezone_set sample_zones True True ''europe/berlin'' (sample_zone_ovsdb ''UTC'') =
     Inr (CMD_SUCCESS, [], sample_zone_ovsdb ''Europe/Berlin'')"
  using timezone_commands [OF sample_zones_wf, of "sample_zone_ovsdb ''UTC''" "system_fresh\<lparr>timezone := ''UTC''\<rparr>" "[]"
      "''europe/berlin''" True]
  by (simp add: sample_zone_ovsdb_def first_zone_def sample_zones_def set_system_def upd_nth_def)

theorem running_config_restores_witness:
  "\<exists>arg. vtysh_config_context_system_callback (sample_zone_ovsdb ''Europe/Berlin'') = Inr [''timezone set '' @ arg] \<and>
     cli_platform_timezone_set sample_zones True True arg (sample_zone_ovsdb ''UTC'') =
       Inr (CMD_SUCCESS, [], sample_zone_ovsdb ''Europe/Berlin'')"
  using running_config_restores [OF sample_zones_wf, of "sample_zone_ovsdb ''Europe/Berlin''"
      "system_fresh\<lparr>timezone := ''Europe/Berlin''\<rparr>" "[]" "sample_zone_ovsdb ''UTC''" "system_fresh\<lparr>timezone := ''UTC''\<rparr>" "[]"
      True True]
  by (simp add: sample_zone_ovsdb_def sample_zones_def set_system_def upd_nth_def)

end
