(* ===== verification/Monitor.thy ===== *)
theory Monitor
  imports Boot Zone_Cli
begin

text \<open>
  Which changes of the database wake the daemon: the registration of tables and columns in
  \<open>sysd_ovsdb_conn_init\<close> (\<open>src/sysd.c\<close>) and in \<open>system_ovsdb_init\<close> of the shell plugin
  (\<open>src/cli/system_vty.c\<close>). A registered column is replicated, and a change of it makes a new
  version of the replica, unless the alert is omitted; inserting or deleting a row of a registered
  table makes one in any case. This is what the client library documents.
\<close>

section \<open>Registration\<close>

datatype idl_call = Add_Table string | Add_Column string string | Omit_Alert string string

record idl_modes =
  idl_tables :: "string list"
  monitored :: "(string \<times> string) list"
  alerting :: "(string \<times> string) list"

fun idl_register :: "idl_call \<Rightarrow> idl_modes \<Rightarrow> idl_modes" where
  "idl_register (Add_Table t) m = m\<lparr>idl_tables := idl_tables m @ [t]\<rparr>"
| "idl_register (Add_Column t c) m = m\<lparr>monitored := monitored m @ [(t, c)], alerting := alerting m @ [(t, c)]\<rparr>"
| "idl_register (Omit_Alert t c) m = m\<lparr>alerting := removeAll (t, c) (alerting m)\<rparr>"

text \<open>The replica is created without columns: \<open>monitor_everything_by_default\<close> is false.\<close>

definition idl_none :: idl_modes where
  "idl_none = \<lparr>idl_tables = [], monitored = [], alerting = []\<rparr>"

definition add_quiet :: "string \<Rightarrow> string \<Rightarrow> idl_call list" where
  "add_quiet t c = [Add_Column t c, Omit_Alert t c]"

definition sysd_ovsdb_conn_init :: "idl_call list" where
  "sysd_ovsdb_conn_init =
     Add_Table ''system'' #
     concat (map (add_quiet ''system'') [''subsystems'', ''cur_hw'', ''next_hw'', ''other_info'', ''software_info'', ''switch_version'']) @
     [Add_Column ''system'' ''timezone'', Add_Table ''subsystem''] @
     concat (map (add_quiet ''subsystem'') [''name'', ''asset_tag_number'', ''hw_desc_dir'', ''other_config'', ''interfaces'']) @
     [Add_Table ''interface''] @
     concat (map (add_quiet ''interface'') [''name'', ''hw_intf_info'', ''type'', ''user_config'']) @
     [Add_Table ''daemon'', Add_Column ''daemon'' ''name'', Add_Column ''daemon'' ''cur_hw''] @
     add_quiet ''daemon'' ''is_hw_handler'' @
     [Add_Column ''system'' ''mgmt_intf'', Add_Column ''system'' ''mgmt_intf_status'', Add_Table ''package_info''] @
     concat (map (add_quiet ''package_info'') [''name'', ''src_type'', ''src_url'', ''version''])"

definition system_ovsdb_init :: "idl_call list" where
  "system_ovsdb_init =
     map Add_Table [''fan'', ''led'', ''system'', ''subsystem''] @ [Add_Column ''system'' ''timezone''] @
     map (Add_Column ''led'') [''id'', ''state'', ''status'', ''other_config'', ''external_ids''] @
     map (Add_Column ''subsystem'') [''interfaces'', ''leds'', ''fans'', ''asset_tag_number'', ''name'', ''type'',
       ''hw_desc_dir'', ''other_info'', ''other_config'', ''external_ids''] @
     map (Add_Column ''fan'') [''status'', ''direction'', ''name'', ''rpm'', ''other_config'', ''hw_config'',
       ''external_ids'', ''speed'']"

definition sysd_modes :: idl_modes where
  "sysd_modes = fold idl_register sysd_ovsdb_conn_init idl_none"

section \<open>Changes that make a new version\<close>

definition column_changes :: "ovsdb \<Rightarrow> ovsdb \<Rightarrow> ((string \<times> string) \<times> bool) list" where
  "column_changes db db' =
     [((''system'', ''subsystems''), map sys_subsystems (db_system db) \<noteq> map sys_subsystems (db_system db')),
      ((''system'', ''cur_hw''), map sys_cur_hw (db_system db) \<noteq> map sys_cur_hw (db_system db')),
      ((''system'', ''next_hw''), map sys_next_hw (db_system db) \<noteq> map sys_next_hw (db_system db')),
      ((''system'', ''other_info''), map sys_other_info (db_system db) \<noteq> map sys_other_info (db_system db')),
      ((''system'', ''software_info''), map software_info (db_system db) \<noteq> map software_info (db_system db')),
      ((''system'', ''switch_version''), map switch_version (db_system db) \<noteq> map switch_version (db_system db')),
      ((''system'', ''timezone''), map timezone (db_system db) \<noteq> map timezone (db_system db')),
      ((''system'', ''mgmt_intf''), map mgmt_intf_map (db_system db) \<noteq> map mgmt_intf_map (db_system db')),
      ((''subsystem'', ''name''), map ss_name (db_subsystem db) \<noteq> map ss_name (db_subsystem db')),
      ((''subsystem'', ''asset_tag_number''),
        map ss_asset_tag_number (db_subsystem db) \<noteq> map ss_asset_tag_number (db_subsystem db')),
      ((''subsystem'', ''hw_desc_dir''), map ss_hw_desc_dir (db_subsystem db) \<noteq> map ss_hw_desc_dir (db_subsystem db')),
      ((''subsystem'', ''interfaces''), map ss_interfaces (db_subsystem db) \<noteq> map ss_interfaces (db_subsystem db')),
      ((''interface'', ''name''), map if_name (db_interface db) \<noteq> map if_name (db_interface db')),
      ((''interface'', ''hw_intf_info''), map if_hw_intf_info (db_interface db) \<noteq> map if_hw_intf_info (db_interface db')),
      ((''interface'', ''type''), map if_type (db_interface db) \<noteq> map if_type (db_interface db')),
      ((''interface'', ''user_config''), map if_user_config (db_interface db) \<noteq> map if_user_config (db_interface db')),
      ((''daemon'', ''name''), map dr_name (db_daemon db) \<noteq> map dr_name (db_daemon db')),
      ((''daemon'', ''cur_hw''), map dr_cur_hw (db_daemon db) \<noteq> map dr_cur_hw (db_daemon db')),
      ((''daemon'', ''is_hw_handler''), map dr_is_hw_handler (db_daemon db) \<noteq> map dr_is_hw_handler (db_daemon db')),
      ((''package_info'', ''name''), map pkg_name (db_package_info db) \<noteq> map pkg_name (db_package_info db')),
      ((''package_info'', ''src_type''), map pkg_src_type (db_package_info db) \<noteq> map pkg_src_type (db_package_info db')),
      ((''package_info'', ''src_url''), map pkg_src_url (db_package_info db) \<noteq> map pkg_src_url (db_package_info db')),
      ((''package_info'', ''version''), map pkg_version (db_package_info db) \<noteq> map pkg_version (db_package_info db'))]"

definition row_changes :: "ovsdb \<Rightarrow> ovsdb \<Rightarrow> (string \<times> bool) list" where
  "row_changes db db' =
     [(''system'', length (db_system db) \<noteq> length (db_system db')),
      (''subsystem'', length (db_subsystem db) \<noteq> length (db_subsystem db')),
      (''interface'', length (db_interface db) \<noteq> length (db_interface db')),
      (''daemon'', length (db_daemon db) \<noteq> length (db_daemon db')),
      (''package_info'', length (db_package_info db) \<noteq> length (db_package_info db'))]"

definition new_version :: "idl_modes \<Rightarrow> ovsdb \<Rightarrow> ovsdb \<Rightarrow> bool" where
  "new_version m db db' \<longleftrightarrow>
     list_ex (\<lambda>(c, changed). changed \<and> c \<in> set (alerting m)) (column_changes db db') \<or>
     list_ex (\<lambda>(t, changed). changed \<and> t \<in> set (idl_tables m)) (row_changes db db')"

section \<open>The columns of the daemon\<close>

lemma sysd_modes_tables: "idl_tables sysd_modes = [''system'', ''subsystem'', ''interface'', ''daemon'', ''package_info'']"
  and sysd_modes_alerting: "alerting sysd_modes = [(''system'', ''timezone''), (''daemon'', ''name''), (''daemon'', ''cur_hw''),
    (''system'', ''mgmt_intf''), (''system'', ''mgmt_intf_status'')]"
  by (simp_all add: sysd_modes_def sysd_ovsdb_conn_init_def add_quiet_def idl_none_def)

lemma new_version_sysd:
  "new_version sysd_modes db db' \<longleftrightarrow>
     map timezone (db_system db) \<noteq> map timezone (db_system db') \<or> map mgmt_intf_map (db_system db) \<noteq> map mgmt_intf_map (db_system db') \<or>
     map dr_name (db_daemon db) \<noteq> map dr_name (db_daemon db') \<or> map dr_cur_hw (db_daemon db) \<noteq> map dr_cur_hw (db_daemon db') \<or>
     length (db_subsystem db) \<noteq> length (db_subsystem db') \<or> length (db_interface db) \<noteq> length (db_interface db') \<or>
     length (db_package_info db) \<noteq> length (db_package_info db')"
  unfolding new_version_def column_changes_def row_changes_def sysd_modes_tables sysd_modes_alerting
  by simp (metis length_map)

lemma daemon_rows_eq:
  assumes "map dr_name rows = map dr_name rows'" and "map dr_cur_hw rows = map dr_cur_hw rows'"
    and "map dr_is_hw_handler rows = map dr_is_hw_handler rows'"
  shows "rows = (rows' :: daemon_row list)"
  using assms map_eq_imp_length_eq [OF assms(1)]
  by (induction rows rows' rule: list_induct2') (auto intro: daemon_row.equality)

lemma new_version_hw: "i < length (db_daemon db) \<Longrightarrow> dr_cur_hw (db_daemon db ! i) \<noteq> h \<Longrightarrow>
    new_version sysd_modes db (db\<lparr>db_daemon := upd_nth i (\<lambda>r. r\<lparr>dr_cur_hw := h\<rparr>) (db_daemon db)\<rparr>)"
  by (auto simp: new_version_sysd upd_nth_def map_update list_update_same_conv [symmetric] dest: arg_cong [of _ _ "\<lambda>xs. xs ! i"])

section \<open>Properties\<close>

text \<open>
  C15. No wake-up is lost, and the daemon does not wake itself: as long as the changes of other
  clients make no new version of the replica, and nobody rewrites which daemons handle hardware,
  everything that an iteration would react to is unchanged, the test for an empty system table,
  the check on the hardware daemons, the test for an empty package table, and the target of the
  time zone link. The two reports that the daemon waits for, a hardware daemon that changes its
  \<open>cur_hw\<close> and a \<open>timezone set\<close> with another zone, do make a new version; the publication of
  the daemon's own \<open>cur_hw\<close> does not.
\<close>

theorem no_wakeup_lost:
  assumes "\<not> new_version sysd_modes db db'" and "map dr_is_hw_handler (db_daemon db) = map dr_is_hw_handler (db_daemon db')"
    and "i < length (db_daemon db)" and "dr_cur_hw (db_daemon db ! i) \<noteq> h"
    and "db_system db = ovs # rest" and "timezone ovs \<noteq> tz"
  shows "(db_system db' = [] \<longleftrightarrow> db_system db = []) \<and> count_done (db_daemon db') ds n = count_done (db_daemon db) ds n \<and>
    (db_package_info db' = [] \<longleftrightarrow> db_package_info db = []) \<and>
    sysd_handle_timezone_update db' uok ok l = sysd_handle_timezone_update db uok ok l \<and>
    new_version sysd_modes db (db\<lparr>db_daemon := upd_nth i (\<lambda>r. r\<lparr>dr_cur_hw := h\<rparr>) (db_daemon db)\<rparr>) \<and>
    new_version sysd_modes db (set_system 0 (\<lambda>s. s\<lparr>timezone := tz\<rparr>) db) \<and>
    \<not> new_version sysd_modes (database st) (database (sysd_set_hw_done commit_ok st))"
proof (intro conjI)
  have d: "db_daemon db' = db_daemon db"
    using assms(1,2) daemon_rows_eq [of "db_daemon db'" "db_daemon db"] by (simp add: new_version_sysd)
  then show "count_done (db_daemon db') ds n = count_done (db_daemon db) ds n" by simp
  have z: "map timezone (db_system db) = map timezone (db_system db')" using assms(1) by (simp add: new_version_sysd)
  then show "db_system db' = [] \<longleftrightarrow> db_system db = []" by (metis map_is_Nil_conv)
  from z show "sysd_handle_timezone_update db' uok ok l = sysd_handle_timezone_update db uok ok l"
    by (cases "db_system db"; cases "db_system db'"; simp add: sysd_handle_timezone_update_def)
  have "length (db_package_info db) = length (db_package_info db')" using assms(1) by (simp add: new_version_sysd)
  then show "db_package_info db' = [] \<longleftrightarrow> db_package_info db = []" by (metis length_0_conv)
  show "new_version sysd_modes db (set_system 0 (\<lambda>s. s\<lparr>timezone := tz\<rparr>) db)"
    using assms(5,6) by (simp add: new_version_sysd upd_nth_def)
  show "\<not> new_version sysd_modes (database st) (database (sysd_set_hw_done commit_ok st))"
    by (simp add: new_version_sysd sysd_set_hw_done_def Let_def o_def)
qed (rule new_version_hw [OF assms(3,4)])

definition sample_replica :: ovsdb where
  "sample_replica = ovsdb_empty\<lparr>db_system := [system_fresh],
     db_daemon := [\<lparr>dr_name = ''ops-ledd'', dr_cur_hw = 0, dr_is_hw_handler = True\<rparr>]\<rparr>"

theorem no_wakeup_lost_witness:
  "new_version sysd_modes sample_replica
     (sample_replica\<lparr>db_daemon := [\<lparr>dr_name = ''ops-ledd'', dr_cur_hw = 1, dr_is_hw_handler = True\<rparr>]\<rparr>) \<and>
   \<not> new_version sysd_modes sample_replica (sample_replica\<lparr>db_system := [system_fresh\<lparr>sys_cur_hw := 1, sys_next_hw := 1\<rparr>]\<rparr>)"
proof -
  let ?st = "sample_loop\<lparr>database := sample_replica\<rparr>"
  have "\<not> new_version sysd_modes sample_replica sample_replica" "0 < length (db_daemon sample_replica)"
    "dr_cur_hw (db_daemon sample_replica ! 0) \<noteq> 1" "db_system sample_replica = system_fresh # []" "timezone system_fresh \<noteq> ''UTC''"
    by (simp_all add: new_version_sysd sample_replica_def system_fresh_def)
  from no_wakeup_lost [where st = ?st and commit_ok = True, OF this(1) refl this(2-5)]
  show ?thesis by (simp add: upd_nth_def sysd_set_hw_done_def Let_def) (simp add: sample_replica_def)
qed

end
