(* ===== verification/Daemon.thy ===== *)
theory Daemon
  imports Options Startup Monitor
begin

text \<open>
  \<open>main\<close> of \<open>src/sysd.c\<close> from its arguments to the loop: the command line, the control socket with
  its commands, the connection to the database, and then the steps of \<open>Startup\<close>. Forking, the event
  log and the logging options belong to the library and have no effect here.
\<close>

section \<open>The process\<close>

record idl_connection =
  idl_remote :: string
  idl_lock :: string
  idl_modes :: idl_modes

definition main_connection :: "string \<Rightarrow> idl_connection" where
  "main_connection remote = \<lparr>idl_remote = remote, idl_lock = ''ops_sysd'',
     idl_modes = fold idl_register sysd_ovsdb_conn_init idl_none\<rparr>"

record daemon_process =
  dp_connection :: idl_connection
  dp_control_path :: "string option"
  dp_commands :: "(string \<times> unixctl_command) list"
  dp_library_options :: "(int \<times> string option) list"
  dp_state :: daemon_state

definition main_process :: "string \<Rightarrow> string option \<Rightarrow> (int \<times> string option) list \<Rightarrow> daemon_state \<Rightarrow> daemon_process" where
  "main_process remote path handled d = \<lparr>dp_connection = main_connection remote, dp_control_path = path,
     dp_commands = [(''ops-sysd/dump'', Dump_Command), (''exit'', Exit_Command)],
     dp_library_options = handled, dp_state = d\<rparr>"

datatype main_result = Main_Exits int string | Main_Runs daemon_process

text \<open>\<open>create\<close> is the return code of \<open>unixctl_server_create\<close> for a path.\<close>

definition sysd_main :: "option_library \<Rightarrow> (string option \<Rightarrow> int) \<Rightarrow> startup_env \<Rightarrow> string list \<Rightarrow> platform \<Rightarrow>
    main_result run option" where
  "sysd_main lib create e args p =
     and_next (Some (parse_options lib args)) (\<lambda>r.
       case r of
         Exits code out \<Rightarrow> Some (Inr (Main_Exits code out))
       | Parsed ovsdb_sock appctl_path handled \<Rightarrow>
           and_next (main_init (e\<lparr>appctl_rc := create appctl_path\<rparr>) p) (\<lambda>s.
             case s of
               Exit code \<Rightarrow> Some (Inr (Main_Exits code []))
             | Started d \<Rightarrow>
                 Some (Inr (Main_Runs (main_process ovsdb_sock appctl_path handled d)))))"

section \<open>When the loop is entered\<close>

lemma main_runs_iff:
  "sysd_main lib create e args p = Some (Inr (Main_Runs dp)) \<longleftrightarrow>
     (\<exists>remote path handled d. parse_options lib args = Inr (Parsed remote path handled) \<and> create path = 0 \<and>
        main_init (e\<lparr>appctl_rc := 0\<rparr>) p = Some (Inr (Started d)) \<and>
        dp = main_process remote path handled d)"
    (is "?l \<longleftrightarrow> ?r")
proof
  assume ?l
  then obtain r where r: "parse_options lib args = Inr r"
    and rest: "(case r of Exits code out \<Rightarrow> Some (Inr (Main_Exits code out))
       | Parsed ovsdb_sock appctl_path handled \<Rightarrow>
           and_next (main_init (e\<lparr>appctl_rc := create appctl_path\<rparr>) p) (\<lambda>s. case s of
               Exit code \<Rightarrow> Some (Inr (Main_Exits code []))
             | Started d \<Rightarrow>
                 Some (Inr (Main_Runs (main_process ovsdb_sock appctl_path handled d))))) = Some (Inr (Main_Runs dp))"
    by (auto simp: sysd_main_def and_next_eq_Inr)
  then obtain remote path handled where parsed: "r = Parsed remote path handled" by (cases r) auto
  with rest obtain s where "main_init (e\<lparr>appctl_rc := create path\<rparr>) p = Some (Inr s)"
    and "(case s of Exit code \<Rightarrow> Some (Inr (Main_Exits code [])) | Started d \<Rightarrow>
         Some (Inr (Main_Runs (main_process remote path handled d)))) = (Some (Inr (Main_Runs dp)) :: main_result run option)"
    by (auto simp: and_next_eq_Inr)
  moreover from this obtain d where "s = Started d" by (cases s) auto
  ultimately have init: "main_init (e\<lparr>appctl_rc := create path\<rparr>) p = Some (Inr (Started d))"
    and dp: "dp = main_process remote path handled d"
    by auto
  then have "create path = 0" by (cases "create path = 0") (simp_all add: main_init_def)
  with r parsed init dp show ?r by auto
qed (auto simp: sysd_main_def)

section \<open>From the command line to the loop\<close>

text \<open>
  C11. From the command line to the loop: when \<open>main\<close>, called with words in any accepted spelling,
  reaches its loop, there was at most one operand, and the process is connected to it, or to the
  default socket, under the lock of the daemon, with the control socket of the last \<open>--unixctl\<close>
  and its two commands; its registration makes every change of \<open>cur_hw\<close> in the daemon table a new
  version; there is one subsystem with port information and an interface for each port of the port
  file, the hardware description link is in place, the counter of hardware daemons is right. But the
  basic configuration, in any database, faults on what the start has left: it reads the name of the
  management interface past the object without a character that the manifest reader has allocated
  for it, or, for a manifest that names none, through the null pointer. This is the only fault of
  the start: with any readable array in place of that object, the basic configuration faults
  exactly when the generated setter of table_id does. The words are accepted spellings (\<open>word_ok\<close>)
  for a table of options with distinct names without an equals sign (\<open>option_table_ok\<close>), and
  POSIXLY_CORRECT is unset.
\<close>

theorem main_ready:
  assumes "option_table_ok lib" and "\<not> posixly_correct lib" and "list_all (word_ok lib) ws"
    and "sysd_main lib create e (concat (map spell ws)) p = Some (Inr (Main_Runs dp))"
  shows "length (operands ws) \<le> 1 \<and>
    dp_connection dp = main_connection (case operands ws of [] \<Rightarrow> ''unix:'' @ ovs_rundir lib @ ''/db.sock'' | db # _ \<Rightarrow> db) \<and>
    idl_lock (dp_connection dp) = ''ops_sysd'' \<and>
    dp_control_path dp = last_unixctl None ws \<and> create (dp_control_path dp) = 0 \<and>
    dp_commands dp = [(''ops-sysd/dump'', Dump_Command), (''exit'', Exit_Command)] \<and>
    (\<forall>db i h. i < length (db_daemon db) \<and> dr_cur_hw (db_daemon db ! i) \<noteq> h \<longrightarrow>
       new_version (idl_connection.idl_modes (dp_connection dp)) db
         (db\<lparr>db_daemon := upd_nth i (\<lambda>r. r\<lparr>dr_cur_hw := h\<rparr>) (db_daemon db)\<rparr>)) \<and>
    (\<exists>j s. manifest_file e = Some j \<and> ds_subsystems (dp_state dp) = [s] \<and> intf_cmn_info s \<noteq> None \<and>
       0 < port_count e \<and> int (length (interfaces s)) = port_count e \<and>
       hwdesc_link (ds_platform (dp_state dp)) = Some (g_hw_desc_dir (ds_platform (dp_state dp))) \<and>
       num_hw_daemons (ds_manifest (dp_state dp)) = int (length (filter is_hw_handler (daemons (ds_manifest (dp_state dp))))) \<and>
       (\<forall>c sys db. configure_base (started_config (dp_state dp) c) sys db =
          Inl (if names_intf (sections j) then Out_Of_Bounds_Read else Null_Dereference)) \<and>
       (\<forall>buf nm c sys db. c_string_at buf = Inr nm \<longrightarrow>
          ((\<exists>x. configure_base (started_config (with_intf_array buf (dp_state dp)) c) sys db = Inl x) \<longleftrightarrow>
            (\<exists>x. ce_set_table_id c [0] 8 = Inl x))))"
proof -
  obtain remote path handled d where parsed: "parse_options lib (concat (map spell ws)) = Inr (Parsed remote path handled)"
    and create: "create path = 0" and init: "main_init (e\<lparr>appctl_rc := 0\<rparr>) p = Some (Inr (Started d))"
    and dp: "dp = main_process remote path handled d"
    using assms(4) unfolding main_runs_iff by blast
  from parsed parse_spelled [OF assms(1-3), of "[]" "[]"]
  have words: "length (operands ws) \<le> 1" "path = last_unixctl None ws"
    "remote = (case operands ws of [] \<Rightarrow> ''unix:'' @ ovs_rundir lib @ ''/db.sock'' | db # _ \<Rightarrow> db)"
    by (auto split: list.splits)
  have "idl_connection.idl_modes (dp_connection dp) = sysd_modes" by (simp add: dp main_process_def main_connection_def sysd_modes_def)
  then have versions: "new_version (idl_connection.idl_modes (dp_connection dp)) db
      (db\<lparr>db_daemon := upd_nth i (\<lambda>r. r\<lparr>dr_cur_hw := h\<rparr>) (db_daemon db)\<rparr>)"
    if "i < length (db_daemon db)" "dr_cur_hw (db_daemon db ! i) \<noteq> h" for db i h
    using new_version_hw that by simp
  from startup_ready [OF init] words create versions show ?thesis
    by (simp add: dp main_process_def main_connection_def)
qed

theorem main_ready_witness:
  "\<exists>dp. sysd_main sample_library (\<lambda>_. 0) sample_startup [''--detach'', ''db'', ''--unixctl=s''] \<lparr>g_hw_desc_dir = ''/'', hwdesc_link = None\<rparr> =
     Some (Inr (Main_Runs dp)) \<and> idl_remote (dp_connection dp) = ''db'' \<and> dp_control_path dp = Some ''s''"
proof -
  let ?det = "\<lparr>opt_name = ''detach'', opt_kind = No_Argument, opt_val = 300\<rparr>"
  let ?ws = "[Library_Option ?det None, Operand ''db'', Unixctl_Word ''s'']"
  have ok: "option_table_ok sample_library" "\<not> posixly_correct sample_library"
    by (simp_all add: option_table_ok_def long_options_def sample_library_def)
  have words: "list_all (word_ok sample_library) ?ws"
    by (simp add: library_option_ok_def is_option_word_def sample_library_def HELP_CHAR_def OPT_UNIXCTL_def
        OPT_PEER_CA_CERT_def UCHAR_MAX_def)
  obtain d where d: "main_init sample_startup \<lparr>g_hw_desc_dir = ''/'', hwdesc_link = None\<rparr> = Some (Inr (Started d))"
    using sample_started ..
  have "sample_startup\<lparr>appctl_rc := 0\<rparr> = sample_startup" by (simp add: sample_startup_def)
  with d parse_spelled [OF ok words, of "[]" "[]"]
  have "sysd_main sample_library (\<lambda>_. 0) sample_startup (concat (map spell ?ws)) \<lparr>g_hw_desc_dir = ''/'', hwdesc_link = None\<rparr> =
      Some (Inr (Main_Runs (main_process ''db'' (Some ''s'') [(300, None)] d)))"
    unfolding main_runs_iff by simp
  from main_ready [OF ok words this] this show ?thesis by (auto simp: main_connection_def main_process_def)
qed

end
