(* ===== verification/Handover.thy ===== *)
theory Handover
  imports Boot
begin

text \<open>
  The hand-over at boot as an abstract protocol of three phases, and the simulation that shows that
  every interleaving of \<open>Boot\<close> follows it: the database is empty; it is configured, and a set of
  hardware daemons is still to report; it is released for configuration.
\<close>

section \<open>The protocol\<close>

datatype phase = Unconfigured | Waiting "nat set" | Released

text \<open>
  The set only shrinks, the release needs the empty set, and nothing leads back. A step in between
  may leave the phase as it is.
\<close>

inductive handover :: "phase \<Rightarrow> phase \<Rightarrow> bool" where
  stutter: "handover p p"
| configured: "handover Unconfigured (Waiting w)"
| reported: "w' \<subseteq> w \<Longrightarrow> handover (Waiting w) (Waiting w')"
| released: "handover (Waiting {}) Released"

inductive_simps handover_from_released [simp]: "handover Released p"
inductive_simps handover_to_unconfigured [simp]: "handover p Unconfigured"
inductive_simps handover_from_waiting: "handover (Waiting w) p"
inductive_cases handover_releasedE: "handover p Released"

abbreviation handover_run :: "phase \<Rightarrow> phase \<Rightarrow> bool" where
  "handover_run \<equiv> handover\<^sup>*\<^sup>*"

lemma handover_released_final: "handover_run Released p \<Longrightarrow> p = Released"
  by (induction rule: rtranclp_induct) simp_all

lemma handover_waiting_run: "handover_run (Waiting w) p \<Longrightarrow> p = Released \<or> (\<exists>w' \<subseteq> w. p = Waiting w')"
proof (induction rule: rtranclp_induct)
  case (step p q)
  from step(3,2) show ?case by (auto simp: handover_from_waiting) blast
qed simp

lemma handover_run_released: "handover_run p q \<Longrightarrow> q = Released \<Longrightarrow> p \<noteq> Released \<Longrightarrow> handover_run p (Waiting {})"
proof (induction rule: rtranclp_induct)
  case (step q r)
  then show ?case by (cases "q = Released") (auto elim: handover_releasedE)
qed simp

section \<open>The phase of a database\<close>

definition pending :: "daemon_row list \<Rightarrow> nat set" where
  "pending rows = {i. i < length rows \<and> dr_is_hw_handler (rows ! i) \<and> dr_cur_hw (rows ! i) \<le> 0}"

definition phase_of :: "ovsdb \<Rightarrow> phase" where
  "phase_of db =
     (if db_system db = [] then Unconfigured
      else if boot_published db then Released else Waiting (pending (db_daemon db)))"

lemma pending_empty: "pending rows = {} \<longleftrightarrow> all_hw_done rows"
  by (auto simp: pending_def all_hw_done_def list_all_length not_le)

lemma pending_report:
  assumes "0 < h"
  shows "pending (upd_nth i (\<lambda>r. r\<lparr>dr_cur_hw := h\<rparr>) rows) \<subseteq> pending rows"
proof
  fix k assume "k \<in> pending (upd_nth i (\<lambda>r. r\<lparr>dr_cur_hw := h\<rparr>) rows)"
  with assms show "k \<in> pending rows" by (cases "k = i") (auto simp: pending_def upd_nth_def)
qed

lemma phase_keeps:
  assumes "keeps_boot db db'"
  shows "phase_of db' = phase_of db"
proof -
  have "db_system db' = [] \<longleftrightarrow> db_system db = []" using assms by (metis keeps_boot_def map_is_Nil_conv)
  then show ?thesis using assms by (simp add: phase_of_def published_map keeps_boot_def)
qed

text \<open>The other clients can only move within a phase or shrink the set.\<close>

lemma phase_clients:
  "client_steps db db' \<Longrightarrow> phase_of db' = phase_of db \<or> (\<exists>w w'. phase_of db = Waiting w \<and> phase_of db' = Waiting w' \<and> w' \<subseteq> w)"
proof (induction rule: rtranclp_induct)
  case (step d d')
  from step(2) have "phase_of d' = phase_of d \<or> (\<exists>w w'. phase_of d = Waiting w \<and> phase_of d' = Waiting w' \<and> w' \<subseteq> w)"
  proof (cases rule: client_step.cases)
    case (client_report h i)
    then show ?thesis using pending_report by (auto simp: phase_of_def boot_published_def)
  next
    case client_change
    then show ?thesis using phase_keeps by simp
  qed
  with step(3) show ?case by auto
qed simp

lemma handover_then_clients:
  assumes "handover p (phase_of db1)" and "client_steps db1 db'"
  shows "handover p (phase_of db')"
  using phase_clients [OF assms(2)]
proof (elim disjE exE conjE)
  fix w w' assume w: "phase_of db1 = Waiting w" "phase_of db' = Waiting w'" "w' \<subseteq> w"
  from assms(1) show ?thesis
    by (cases rule: handover.cases) (use w in \<open>auto intro: handover.intros\<close>)
qed (use assms(1) in simp)

lemma boot_step_simulates:
  assumes m: "consistent_manifest m" and inv: "boot_inv m st" and step: "boot_step m st st'"
  shows "handover (phase_of (database st)) (phase_of (database st'))"
  using step
proof (cases rule: boot_step.cases)
  case (sysd_iteration e)
  from sysd_iteration(4,3,1,2) show ?thesis
  proof (cases rule: sysd_run_cases)
    case (1 db1)
    then show ?thesis using phase_keeps stutter by (intro handover_then_clients [OF _ 1(2)]) simp
  next
    case (2 db1)
    then have "phase_of (database st) = Unconfigured" "\<exists>w. phase_of db1 = Waiting w"
      by (auto simp: phase_of_def published_map)
    then show ?thesis using configured by (intro handover_then_clients [OF _ 2(4)]) auto
  next
    case (3 db1)
    have "pending (db_daemon (database st)) = {}"
      using inv 3(1) done_iff_all [OF m] unfolding pending_empty by (auto simp: boot_inv_def all_hw_done_def)
    moreover have "db_system db1 = [] \<longleftrightarrow> db_system (database st) = []"
      using 3(3) by (metis map_is_Nil_conv)
    moreover have "boot_published db1" if "db_system (database st) \<noteq> []"
      using 3(3) that by (cases "db_system (database st)") (simp_all add: published_map)
    ultimately show ?thesis
      by (intro handover_then_clients [OF _ 3(4)]) (auto simp: phase_of_def intro: stutter released)
  qed
next
  case (hw_daemon_done h i)
  then show ?thesis
    using pending_report [OF hw_daemon_done(2)]
    by (auto simp: phase_of_def boot_published_def intro: stutter reported)
next
  case (other_client db)
  then show ?thesis using phase_keeps stutter by simp
next
  case sysd_restart
  then show ?thesis by (simp add: stutter)
qed

section \<open>Property\<close>

text \<open>
  C2. The boot refines the protocol, for a manifest whose counter of hardware daemons is right and in
  which no name of a hardware daemon begins another one (without this the check can pass early, as
  \<open>hw_check_passes_early\<close> shows): from an empty database, every step that any interleaving of the
  daemon, its restarts, the hardware daemons and the other clients can take is a step of the
  protocol, so that the database is configured before it is released, the set of hardware
  daemons that are still to report only shrinks, it is released with the set empty, and it
  stays released; and a database that is released has been configured with nobody left to report.
\<close>

theorem boot_refines_handover:
  assumes "consistent_manifest m" and "db_system (database st0) = []" and "db_daemon (database st0) = []"
    and "boot_reachable m st0 st" and "boot_step m st st'"
  shows "handover (phase_of (database st)) (phase_of (database st')) \<and>
    handover_run Unconfigured (phase_of (database st)) \<and>
    (phase_of (database st) = Released \<longrightarrow>
       phase_of (database st') = Released \<and> handover_run Unconfigured (Waiting {}) \<and> pending (db_daemon (database st)) = {})"
proof -
  have reach: "boot_inv m t \<and> handover_run Unconfigured (phase_of (database t))" if "boot_reachable m st0 t" for t
    using that
  proof (induction rule: rtranclp_induct)
    case base
    show ?case using boot_inv_empty assms(2,3) by (simp add: phase_of_def)
  next
    case (step t u)
    then have "handover (phase_of (database t)) (phase_of (database u))"
      using boot_step_simulates [OF assms(1)] by simp
    with step boot_inv_step [OF assms(1)] show ?case by (meson rtranclp.rtrancl_into_rtrancl)
  qed
  note st = reach [OF assms(4)]
  then have "handover (phase_of (database st)) (phase_of (database st'))"
    using boot_step_simulates [OF assms(1) _ assms(5)] by simp
  moreover have "pending (db_daemon (database st)) = {}" if "phase_of (database st) = Released"
    using st that unfolding pending_empty by (simp add: boot_inv_def phase_of_def split: if_splits)
  ultimately show ?thesis using st handover_run_released [of Unconfigured] by auto
qed

text \<open>Both daemons have reported, and the daemon publishes.\<close>

theorem boot_refines_handover_witness:
  "\<exists>st st'. boot_step boot_manifest st st' \<and> handover_run Unconfigured (phase_of (database st)) \<and>
     handover (phase_of (database st)) Released \<and> phase_of (database st') = Released"
proof -
  obtain st where st: "boot_reachable boot_manifest boot_start st" "boot_inv boot_manifest st" "\<not> hw_init_done_set st"
    "map timezone (db_system (database st)) = [DFLT_TIMEZONE]" "idl_seqno st = 1"
    "db_daemon (database st) = daemon_rows (daemons boot_manifest) [1, 1]"
    by (rule boot_reportedE)
  have "db_system (database st) \<noteq> []" using st(4) by auto
  from boot_completes_from [OF boot_manifest_consistent st(2,3) this, of boot_env_later]
  obtain st' where st': "sysd_run boot_env_later st = Inr st'" "db_system (database st') \<noteq> []"
    "list_all (\<lambda>s. sys_cur_hw s = 1) (db_system (database st'))"
    using boot_rows_done default_zone_fits [OF st(4)] by (auto simp: st(5,6) boot_env_later_simps)
  then have "phase_of (database st') = Released"
    by (cases "db_system (database st')") (simp_all add: phase_of_def boot_published_def)
  moreover have "boot_step boot_manifest st st'" by (rule boot_later_step [OF st'(1)])
  ultimately show ?thesis
    using boot_refines_handover [OF boot_manifest_consistent boot_start_empty st(1)] by metis
qed

end
