(* ===== verification/Show_System.thy ===== *)
theory Show_System
  imports Configure
begin

text \<open>
  The command \<open>show system\<close> of the shell, \<open>src/cli/system_vty.c\<close>: the overview that is printed from
  the subsystem row, and the tables of fans, LEDs, power supplies and temperature sensors. The
  newline of the terminal and the texts for the states of a power supply, which are defined in
  headers outside the repository, are parameters.
\<close>

section \<open>Rows and formatting\<close>

text \<open>The columns the command reads; an optional column is \<open>None\<close> when it is empty.\<close>

record fan_row =
  fan_name :: string
  fan_speed :: "string option"
  fan_status :: "string option"

record led_row =
  led_id :: string
  led_state :: "string option"
  led_row_status :: "string option"

record psu_row =
  psu_name :: string
  psu_status :: "string option"

record temp_sensor_row =
  sensor_location :: "string option"
  sensor_name :: string
  sensor_temperature :: int

record show_subsystem =
  show_other_info :: smap
  n_fans :: nat
  n_leds :: nat
  n_power_supplies :: nat
  n_temp_sensors :: nat

record show_db =
  show_system_row :: "string option option"
  show_subsystem_row :: "show_subsystem option"
  fan_rows :: "fan_row list"
  led_rows :: "led_row list"
  psu_rows :: "psu_row list"
  temp_sensor_rows :: "temp_sensor_row list"

record show_texts =
  vty_newline :: string
  psu_texts :: "(string \<times> string) list"

text \<open>\<open>%-ns\<close>; a null pointer for \<open>%s\<close> is undefined.\<close>

definition pad :: "nat \<Rightarrow> string \<Rightarrow> string" where
  "pad n s = s @ replicate (n - length s) (CHR '' '')"

definition pad_option :: "nat \<Rightarrow> string option \<Rightarrow> string run" where
  "pad_option n s = (case s of None \<Rightarrow> Inl Null_Dereference | Some t \<Rightarrow> Inr (pad n t))"

section \<open>The overview\<close>

definition or_blank :: "string option \<Rightarrow> string" where
  "or_blank s = (case s of None \<Rightarrow> '' '' | Some t \<Rightarrow> t)"

definition show_field :: "nat \<Rightarrow> string \<Rightarrow> string option \<Rightarrow> string" where
  "show_field n label s = pad 20 label @ '': '' @ pad n (or_blank s)"

definition format_sys_output :: "string \<Rightarrow> smap \<Rightarrow> string option \<Rightarrow> string" where
  "format_sys_output nl info version =
     show_field 30 ''OpenSwitch Version'' version @ nl @
     show_field 30 ''Product Name'' (smap_get info ''Product Name'') @ nl @ nl @
     show_field 30 ''Vendor'' (smap_get info ''vendor'') @ nl @
     show_field 30 ''Platform'' (smap_get info ''platform_name'') @ nl @
     show_field 20 ''Manufacturer'' (smap_get info ''manufacturer'') @ nl @
     show_field 20 ''Manufacturer Date'' (smap_get info ''manufacture_date'') @ nl @ nl @
     show_field 20 ''Serial Number'' (smap_get info ''serial_number'') @
     show_field 10 ''Label Revision'' (smap_get info ''label_revision'') @ nl @ nl @
     show_field 20 ''ONIE Version'' (smap_get info ''onie_version'') @
     show_field 10 ''DIAG Version'' (smap_get info ''diag_version'') @ nl @
     show_field 20 ''Base MAC Address'' (smap_get info ''base_mac_address'') @
     show_field 5 ''Number of MACs'' (smap_get info ''number_of_macs'') @ nl @
     show_field 20 ''Interface Count'' (smap_get info ''interface_count'') @
     show_field 6 ''Max Interface Speed'' (smap_get info ''max_interface_speed'') @ ''Mbps'' @ nl"

section \<open>Sorted tables\<close>

definition compare_fan :: "fan_row \<Rightarrow> fan_row \<Rightarrow> int" where
  "compare_fan s1 s2 = strcmp (fan_name s1) (fan_name s2)"

definition compare_psu :: "psu_row \<Rightarrow> psu_row \<Rightarrow> int" where
  "compare_psu s1 s2 = strcmp (psu_name s1) (psu_name s2)"

text \<open>\<open>qsort\<close> with a comparison function; the order of equal elements, which C leaves open, is kept.\<close>

fun insert_by :: "('a \<Rightarrow> 'a \<Rightarrow> int) \<Rightarrow> 'a \<Rightarrow> 'a list \<Rightarrow> 'a list" where
  "insert_by cmp x [] = [x]"
| "insert_by cmp x (y # ys) = (if cmp x y \<le> 0 then x # y # ys else y # insert_by cmp x ys)"

definition qsort :: "('a \<Rightarrow> 'a \<Rightarrow> int) \<Rightarrow> 'a list \<Rightarrow> 'a list" where
  "qsort cmp xs = foldr (insert_by cmp) xs []"

text \<open>
  The result of \<open>calloc\<close> is not tested. The copies go into an array of \<open>n\<close> elements, the number
  that the subsystem row gives, but come from all rows of the table. An element that is not filled
  has a null pointer for its name.
\<close>

definition copy_rows :: "bool \<Rightarrow> nat \<Rightarrow> 'a list \<Rightarrow> 'a list run" where
  "copy_rows calloc_ok n rows =
     (if \<not> calloc_ok then Inl Null_Dereference
      else if n < length rows then Inl Out_Of_Bounds_Write
      else if length rows < n then Inl Null_Dereference
      else Inr rows)"

fun print_rows :: "('a \<Rightarrow> string run) \<Rightarrow> 'a list \<Rightarrow> string run" where
  "print_rows line [] = Inr []"
| "print_rows line (r # rs) = and_then (line r) (\<lambda>s. and_then (print_rows line rs) (\<lambda>t. Inr (s @ t)))"

definition fan_line :: "string \<Rightarrow> fan_row \<Rightarrow> string run" where
  "fan_line nl f = and_then (pad_option 10 (fan_speed f)) (\<lambda>sp. and_then (pad_option 10 (fan_status f)) (\<lambda>st.
     Inr (pad 15 (fan_name f) @ sp @ st @ nl)))"

definition fan_details :: "bool \<Rightarrow> string \<Rightarrow> nat \<Rightarrow> fan_row list \<Rightarrow> string run" where
  "fan_details calloc_ok nl n rows =
     (if n \<noteq> 0 then and_then (copy_rows calloc_ok n rows) (\<lambda>fans. print_rows (fan_line nl) (qsort compare_fan fans)) else Inr [])"

definition led_line :: "string \<Rightarrow> led_row \<Rightarrow> string run" where
  "led_line nl l = and_then (pad_option 10 (led_state l)) (\<lambda>st. and_then (pad_option 8 (led_row_status l)) (\<lambda>s.
     Inr (pad 10 (led_id l) @ st @ s @ nl)))"

definition led_details :: "string \<Rightarrow> nat \<Rightarrow> led_row list \<Rightarrow> string run" where
  "led_details nl n rows = (if n \<noteq> 0 then print_rows (led_line nl) rows else Inr [])"

definition format_psu_string :: "(string \<times> string) list \<Rightarrow> string option \<Rightarrow> string option" where
  "format_psu_string texts status =
     (case status of
        None \<Rightarrow> None
      | Some s \<Rightarrow> (case map_of texts s of None \<Rightarrow> Some s | Some t \<Rightarrow> Some t))"

definition psu_line :: "show_texts \<Rightarrow> psu_row \<Rightarrow> string run" where
  "psu_line texts p = and_then (pad_option 10 (format_psu_string (psu_texts texts) (psu_status p))) (\<lambda>st.
     Inr (pad 15 (psu_name p) @ st @ vty_newline texts))"

definition psu_details :: "bool \<Rightarrow> show_texts \<Rightarrow> nat \<Rightarrow> psu_row list \<Rightarrow> string run" where
  "psu_details calloc_ok texts n rows =
     (if n > 0 then and_then (copy_rows calloc_ok n rows) (\<lambda>ps. print_rows (psu_line texts) (qsort compare_psu ps)) else Inr [])"

text \<open>
  The reading is divided by 1000 as an integer, towards zero, before it is converted to a floating
  point number, so that \<open>%3.2f\<close> always prints two zeros (exactly, for readings below \<open>2 ^ 53\<close>).
\<close>

definition show_reading :: "int \<Rightarrow> string" where
  "show_reading t = show_d (if t < 0 then - ((- t) div 1000) else t div 1000) @ ''.00''"

definition temp_sensor_line :: "string \<Rightarrow> temp_sensor_row \<Rightarrow> string run" where
  "temp_sensor_line nl t = and_then (pad_option 50 (sensor_location t)) (\<lambda>loc.
     Inr (loc @ pad 10 (sensor_name t) @ show_reading (sensor_temperature t) @ nl))"

definition temp_sensor_details :: "string \<Rightarrow> nat \<Rightarrow> temp_sensor_row list \<Rightarrow> string run" where
  "temp_sensor_details nl n rows =
     (if n \<noteq> 0 then
        and_then (print_rows (temp_sensor_line nl) rows) (\<lambda>ls.
          Inr (pad 50 ''Location'' @ pad 10 ''Name'' @ pad 18 ''Reading(celsius)'' @ nl @ replicate 75 (CHR ''-'') @ nl @ ls))
      else Inr (pad 10 ''Location'' @ pad 10 ''Name'' @ pad 18 ''Reading(celsius)'' @ nl @ replicate 36 (CHR ''-'') @ nl))"

section \<open>The command\<close>

text \<open>Without a subsystem row the error is logged and the row then used all the same.\<close>

definition cli_system_get_all :: "bool \<times> bool \<Rightarrow> show_texts \<Rightarrow> show_db \<Rightarrow> string run" where
  "cli_system_get_all callocs texts db =
     (let nl = vty_newline texts;
          overview = (case (show_subsystem_row db, show_system_row db) of
             (Some s, Some version) \<Rightarrow> format_sys_output nl (show_other_info s) version
           | _ \<Rightarrow> [])
      in case show_subsystem_row db of
           None \<Rightarrow> Inl Null_Dereference
         | Some s \<Rightarrow>
             and_then (fan_details (fst callocs) nl (n_fans s) (fan_rows db)) (\<lambda>fans.
             and_then (led_details nl (n_leds s) (led_rows db)) (\<lambda>leds.
             and_then (psu_details (snd callocs) texts (n_power_supplies s) (psu_rows db)) (\<lambda>psus.
             and_then (temp_sensor_details nl (n_temp_sensors s) (temp_sensor_rows db)) (\<lambda>sensors.
               Inr (overview @
                 nl @ ''Fan details:'' @ nl @ nl @ pad 15 ''Name'' @ pad 10 ''Speed'' @ pad 10 ''Status'' @ nl @
                 replicate 32 (CHR ''-'') @ nl @ fans @
                 nl @ ''LED details:'' @ nl @ nl @ pad 10 ''Name'' @ pad 10 ''State'' @ pad 8 ''Status'' @ nl @
                 replicate 25 (CHR ''-'') @ nl @ leds @
                 nl @ ''Power supply details:'' @ nl @ nl @ pad 10 ''Name'' @ pad 10 ''Status'' @ nl @
                 replicate 23 (CHR ''-'') @ nl @ psus @
                 nl @ ''Temperature Sensors:'' @ nl @ nl @ sensors))))))"

section \<open>The sort\<close>

lemma strcmp_neg: "strcmp t s = - strcmp s t"
  by (induction s t rule: strcmp.induct) (auto dest: of_char_eq_iff [THEN iffD1])

lemma strcmp_trans: "strcmp s t \<le> 0 \<Longrightarrow> strcmp t u \<le> 0 \<Longrightarrow> strcmp s u \<le> 0"
proof (induction s t arbitrary: u rule: strcmp.induct)
  case (4 c s d t)
  then show ?case by (cases u) (auto split: if_splits)
qed (auto, metis strcmp.simps(1,2) list.exhaust order.refl zero_le_one neg_le_0_iff_le)

lemma mset_insert_by: "mset (insert_by cmp x xs) = {#x#} + mset xs"
  by (induction xs) auto

lemma mset_qsort: "mset (qsort cmp xs) = mset xs"
  unfolding qsort_def by (induction xs) (simp_all add: mset_insert_by)

lemma print_rows_complete:
  "(\<And>r. r \<in> set rs \<Longrightarrow> line r = Inr (txt r)) \<Longrightarrow> print_rows line rs = Inr (concat (map txt rs))"
  by (induction rs) simp_all

text \<open>
  The contract of \<open>qsort\<close>: what it asks of a comparison function. Under it the result is sorted, and
  a table of rows that can all be printed comes out complete and in order.
\<close>

locale comparison =
  fixes cmp :: "'a \<Rightarrow> 'a \<Rightarrow> int"
  assumes cmp_neg: "cmp b a = - cmp a b"
    and cmp_trans: "cmp a b \<le> 0 \<Longrightarrow> cmp b c \<le> 0 \<Longrightarrow> cmp a c \<le> 0"
begin

lemma sorted_insert_by:
  assumes "sorted_wrt (\<lambda>a b. cmp a b \<le> 0) xs"
  shows "sorted_wrt (\<lambda>a b. cmp a b \<le> 0) (insert_by cmp x xs)"
  using assms
proof (induction xs)
  case (Cons y ys)
  have set: "set (insert_by cmp x ys) = insert x (set ys)"
    using mset_insert_by [of cmp x ys] by (metis set_mset_mset set_mset_union set_mset_single insert_is_Un)
  show ?case
  proof (cases "cmp x y \<le> 0")
    case True
    then show ?thesis using Cons.prems cmp_trans by auto
  next
    case False
    then have "cmp y x \<le> 0" using cmp_neg [of x y] by simp
    then show ?thesis using Cons False by (simp add: set)
  qed
qed simp

lemma sorted_qsort: "sorted_wrt (\<lambda>a b. cmp a b \<le> 0) (qsort cmp xs)"
  unfolding qsort_def by (induction xs) (simp_all add: sorted_insert_by)

lemma table:
  assumes "\<And>r. r \<in> set rows \<Longrightarrow> line r = Inr (txt r)"
  shows "\<exists>rs. and_then (copy_rows True n rows) (\<lambda>xs. print_rows line (qsort cmp xs)) =
      (if n < length rows then Inl Out_Of_Bounds_Write
       else if length rows < n then Inl Null_Dereference
       else Inr (concat (map txt rs))) \<and>
    mset rs = mset rows \<and> sorted_wrt (\<lambda>a b. cmp a b \<le> 0) rs"
proof -
  have "set (qsort cmp rows) = set rows" by (metis mset_qsort set_mset_mset)
  then have "print_rows line (qsort cmp rows) = Inr (concat (map txt (qsort cmp rows)))"
    using assms by (intro print_rows_complete) simp
  then show ?thesis
    by (intro exI [of _ "qsort cmp rows"]) (simp add: copy_rows_def mset_qsort sorted_qsort)
qed

lemma comparison_on: "comparison (\<lambda>a b. cmp (f a) (f b))"
  using cmp_neg cmp_trans by unfold_locales

end

interpretation by_text: comparison strcmp
  by unfold_locales (rule strcmp_neg, rule strcmp_trans)

interpretation by_fan: comparison compare_fan
  unfolding compare_fan_def by (rule by_text.comparison_on)

interpretation by_psu: comparison compare_psu
  unfolding compare_psu_def by (rule by_text.comparison_on)

section \<open>Properties\<close>

definition fan_text :: "string \<Rightarrow> fan_row \<Rightarrow> string" where
  "fan_text nl f = pad 15 (fan_name f) @ pad 10 (the (fan_speed f)) @ pad 10 (the (fan_status f)) @ nl"

text \<open>
  C34. The fan table: for a subsystem with fans, all of whose columns are filled in, the table is
  printed without a fault exactly when the table of fans has as many rows as the subsystem says,
  and then it lists all of them, each once, in the order of their names; with more rows the copy
  runs past the array, with fewer it meets an element without a name.
\<close>

theorem fan_table:
  assumes "0 < n" and "list_all (\<lambda>f. fan_speed f \<noteq> None \<and> fan_status f \<noteq> None) rows"
  shows "\<exists>fans. fan_details True nl n rows =
      (if n < length rows then Inl Out_Of_Bounds_Write
       else if length rows < n then Inl Null_Dereference
       else Inr (concat (map (fan_text nl) fans))) \<and>
    mset fans = mset rows \<and> sorted_wrt (\<lambda>f g. strcmp (fan_name f) (fan_name g) \<le> 0) fans"
proof -
  have "fan_line nl f = Inr (fan_text nl f)" if "f \<in> set rows" for f
    using assms(2) that by (auto simp: list_all_iff fan_line_def pad_option_def fan_text_def)
  from by_fan.table [OF this] assms(1) show ?thesis by (simp add: fan_details_def compare_fan_def)
qed

theorem fan_table_witness:
  "\<exists>fans. fan_details True [] 2 [\<lparr>fan_name = ''b'', fan_speed = Some ''slow'', fan_status = Some ''ok''\<rparr>,
       \<lparr>fan_name = ''a'', fan_speed = Some ''fast'', fan_status = Some ''ok''\<rparr>] = Inr (concat (map (fan_text []) fans)) \<and>
     length fans = 2 \<and> sorted_wrt (\<lambda>f g. strcmp (fan_name f) (fan_name g) \<le> 0) fans"
proof -
  let ?rows = "[\<lparr>fan_name = ''b'', fan_speed = Some ''slow'', fan_status = Some ''ok''\<rparr>,
       \<lparr>fan_name = ''a'', fan_speed = Some ''fast'', fan_status = Some ''ok''\<rparr>]"
  obtain fans where f: "fan_details True [] 2 ?rows = Inr (concat (map (fan_text []) fans))" "mset fans = mset ?rows"
    "sorted_wrt (\<lambda>f g. strcmp (fan_name f) (fan_name g) \<le> 0) fans"
    using fan_table [of 2 ?rows "[]"] by auto
  have "length fans = 2" using f(2) by (metis length_Cons list.size(3) numeral_2_eq_2 size_mset)
  with f(1,3) show ?thesis by blast
qed

text \<open>The table of power supplies likewise, when every state has a text.\<close>

definition psu_text :: "show_texts \<Rightarrow> psu_row \<Rightarrow> string" where
  "psu_text texts p = pad 15 (psu_name p) @ pad 10 (the (format_psu_string (psu_texts texts) (psu_status p))) @ vty_newline texts"

lemma psu_table:
  assumes "0 < n" and "list_all (\<lambda>p. format_psu_string (psu_texts texts) (psu_status p) \<noteq> None) rows"
  shows "\<exists>psus. psu_details True texts n rows =
      (if n < length rows then Inl Out_Of_Bounds_Write
       else if length rows < n then Inl Null_Dereference
       else Inr (concat (map (psu_text texts) psus))) \<and>
    mset psus = mset rows \<and> sorted_wrt (\<lambda>p q. strcmp (psu_name p) (psu_name q) \<le> 0) psus"
proof -
  have "psu_line texts p = Inr (psu_text texts p)" if "p \<in> set rows" for p
    using assms(2) that by (auto simp: list_all_iff psu_line_def pad_option_def psu_text_def)
  from by_psu.table [OF this] assms(1) show ?thesis by (simp add: psu_details_def compare_psu_def)
qed

text \<open>
  C33. The shell shows what the daemon stored: for the row that the configuration inserts for a
  subsystem, each entry of the overview, from the product name to the speed of the interfaces, is
  the text of the field of the FRU record or of the port file, empty when the field is missing; no
  entry is looked up under a key that the daemon does not write.
\<close>

theorem show_system_shows_fru:
  "format_sys_output nl (subsystem_other_info fru info) version =
     show_field 30 ''OpenSwitch Version'' version @ nl @
     show_field 30 ''Product Name'' (Some (or_empty (product_name fru))) @ nl @ nl @
     show_field 30 ''Vendor'' (Some (or_empty (vendor fru))) @ nl @
     show_field 30 ''Platform'' (Some (or_empty (platform_name fru))) @ nl @
     show_field 20 ''Manufacturer'' (Some (or_empty (manufacturer fru))) @ nl @
     show_field 20 ''Manufacturer Date'' (Some (manufacture_date fru)) @ nl @ nl @
     show_field 20 ''Serial Number'' (Some (or_empty (serial_number fru))) @
     show_field 10 ''Label Revision'' (Some (or_empty (label_revision fru))) @ nl @ nl @
     show_field 20 ''ONIE Version'' (Some (or_empty (onie_version fru))) @
     show_field 10 ''DIAG Version'' (Some (or_empty (diag_version fru))) @ nl @
     show_field 20 ''Base MAC Address'' (Some (mac_string (take 6 (base_mac_address fru)))) @
     show_field 5 ''Number of MACs'' (Some (show_d (uint (num_macs fru)))) @ nl @
     show_field 20 ''Interface Count'' (Some (show_d (sint (number_ports info)))) @
     show_field 6 ''Max Interface Speed'' (Some (show_d (sint (max_port_speed info)))) @ ''Mbps'' @ nl"
  by (simp add: format_sys_output_def subsystem_other_info_def)

end
