(* ===== verification/Shell.thy ===== *)
theory Shell
  imports Monitor Show_System Platform
begin

text \<open>
  The registration of the shell plugin, \<open>cli_pre_init\<close> and \<open>cli_post_init\<close> of
  \<open>src/cli/system_vty.c\<close>, with the commands that it installs: which command is offered in which
  node of the shell, under which words, and what it runs. The shell itself, which parses the words
  and calls the functions, is a library; of it the outcome of one registration is an argument.
\<close>

section \<open>Commands\<close>

datatype shell_node = VIEW_NODE | ENABLE_NODE | CONFIG_NODE

datatype cmd_element =
    cli_platform_show_system_cmd
  | vtysh_show_system_clock_cmd
  | vtysh_show_date_cmd
  | vtysh_show_system_timezone_cmd
  | cli_platform_timezone_set_cmd
  | cli_platform_timezone_set_cmd_no_form

text \<open>The words of the commands as their definitions give them; the start replaces the last two.\<close>

fun defun_string :: "cmd_element \<Rightarrow> string" where
  "defun_string cli_platform_show_system_cmd = ''show system''"
| "defun_string vtysh_show_system_clock_cmd = ''show system clock''"
| "defun_string vtysh_show_date_cmd = ''show date''"
| "defun_string vtysh_show_system_timezone_cmd = ''show system timezone''"
| "defun_string cli_platform_timezone_set_cmd = ''timezone set ''"
| "defun_string cli_platform_timezone_set_cmd_no_form = ''no timezone set ''"

text \<open>The commands that hand over to another program name it.\<close>

definition execute_command :: "string \<Rightarrow> string list" where
  "execute_command program = [program]"

definition cli_platform_show_system :: "bool \<times> bool \<Rightarrow> show_texts \<Rightarrow> show_db \<Rightarrow> string run" where
  "cli_platform_show_system callocs texts db = cli_system_get_all callocs texts db"

definition vtysh_show_system_clock :: "cmd_result \<times> string list" where
  "vtysh_show_system_clock = (CMD_SUCCESS, execute_command ''date'')"

definition vtysh_show_date :: "cmd_result \<times> string list" where
  "vtysh_show_date = (CMD_SUCCESS, execute_command ''date'')"

section \<open>Registration\<close>

record shell =
  sh_modes :: idl_modes
  sh_elements :: "(shell_node \<times> cmd_element) list"
  sh_string :: "cmd_element \<Rightarrow> string"
  sh_zones :: "zone_db option"
  sh_running_config :: "(ovsdb \<Rightarrow> string list run) list"

definition shell_start :: shell where
  "shell_start = \<lparr>sh_modes = idl_none, sh_elements = [], sh_string = defun_string, sh_zones = None,
     sh_running_config = []\<rparr>"

definition install_element :: "shell_node \<Rightarrow> cmd_element \<Rightarrow> shell \<Rightarrow> shell" where
  "install_element node el sh = sh\<lparr>sh_elements := sh_elements sh @ [(node, el)]\<rparr>"

text \<open>The result of the installation of the zone commands is not looked at.\<close>

definition cli_pre_init :: "bool \<times> bool \<times> bool \<times> bool \<Rightarrow> file_system \<Rightarrow> string \<Rightarrow> string \<Rightarrow> shell \<Rightarrow> shell run option" where
  "cli_pre_init callocs fs doc doc_no_form sh =
     (let sh1 = sh\<lparr>sh_modes := fold idl_register system_ovsdb_init (sh_modes sh)\<rparr>
      in and_next (system_install_timezone_set_command callocs fs doc doc_no_form) (\<lambda>(rc, installed).
           case installed of
             None \<Rightarrow> Some (Inr sh1)
           | Some (z, c) \<Rightarrow>
               Some (Inr (install_element CONFIG_NODE cli_platform_timezone_set_cmd_no_form
                 (install_element CONFIG_NODE cli_platform_timezone_set_cmd
                   (sh1\<lparr>sh_zones := Some z, sh_string := (sh_string sh1)
                     (cli_platform_timezone_set_cmd := set_string c,
                      cli_platform_timezone_set_cmd_no_form := no_string c)\<rparr>))))))"

definition cli_post_init :: "bool \<Rightarrow> shell \<Rightarrow> shell run" where
  "cli_post_init subcontext_ok sh =
     (let sh1 = fold (\<lambda>(node, el). install_element node el)
        [(ENABLE_NODE, cli_platform_show_system_cmd), (VIEW_NODE, cli_platform_show_system_cmd),
         (VIEW_NODE, vtysh_show_system_clock_cmd), (ENABLE_NODE, vtysh_show_system_clock_cmd),
         (VIEW_NODE, vtysh_show_date_cmd), (ENABLE_NODE, vtysh_show_date_cmd),
         (VIEW_NODE, vtysh_show_system_timezone_cmd), (ENABLE_NODE, vtysh_show_system_timezone_cmd)] sh
      in if \<not> subcontext_ok then Inl Assertion_Failure
         else Inr (sh1\<lparr>sh_running_config := sh_running_config sh1 @ [vtysh_config_context_system_callback]\<rparr>))"

definition plugin_init :: "bool \<times> bool \<times> bool \<times> bool \<Rightarrow> bool \<Rightarrow> file_system \<Rightarrow> string \<Rightarrow> string \<Rightarrow> shell run option" where
  "plugin_init callocs subcontext_ok fs doc doc_no_form =
     and_next (cli_pre_init callocs fs doc doc_no_form shell_start) (\<lambda>sh. Some (cli_post_init subcontext_ok sh))"

text \<open>The words a node of the shell offers.\<close>

definition offered :: "shell_node \<Rightarrow> shell \<Rightarrow> string list" where
  "offered node sh = map (sh_string sh \<circ> snd) (filter (\<lambda>(n, el). n = node) (sh_elements sh))"

section \<open>What the plugin offers\<close>

lemma plugin_offers:
  assumes "plugin_init callocs subcontext_ok fs doc doc_no_form = Some (Inr sh)"
  shows "offered VIEW_NODE sh = [''show system'', ''show system clock'', ''show date'', ''show system timezone''] \<and>
    offered ENABLE_NODE sh = offered VIEW_NODE sh \<and> sh_running_config sh = [vtysh_config_context_system_callback] \<and>
    (case sh_zones sh of
       None \<Rightarrow> offered CONFIG_NODE sh = [] \<and> callocs = (False, False, False, False)
     | Some z \<Rightarrow> callocs = (True, True, True, True) \<and>
         (\<exists>c. system_install_timezone_set_command callocs fs doc doc_no_form = Some (Inr (0, Some (z, c))) \<and>
            offered CONFIG_NODE sh = [set_string c, no_string c]))"
proof -
  obtain a b c d where cs: "callocs = (a, b, c, d)" by (cases callocs) auto
  from assms obtain rc inst where ins: "system_install_timezone_set_command callocs fs doc doc_no_form = Some (Inr (rc, inst))"
    by (auto simp: plugin_init_def cli_pre_init_def and_next_eq_Inr Let_def)
  show ?thesis
  proof (cases inst)
    case None
    then have "\<not> (a \<or> b \<or> c \<or> d)"
      using ins unfolding cs
      by (auto simp: system_install_timezone_set_command_def Let_def and_then_eq_Inr split: if_splits bind_splits)
    with None ins assms show ?thesis
      by (auto simp: plugin_init_def cli_pre_init_def cli_post_init_def and_next_eq_Inr Let_def offered_def
          install_element_def shell_start_def cs split: if_splits)
  next
    case (Some zc)
    obtain z k where zc: "zc = (z, k)" by (cases zc)
    have "a \<and> b \<and> c \<and> d \<and> rc = 0"
      using ins Some unfolding cs
      by (auto simp: system_install_timezone_set_command_def Let_def and_then_eq_Inr split: if_splits bind_splits)
    with Some ins assms show ?thesis
      by (auto simp: plugin_init_def cli_pre_init_def cli_post_init_def and_next_eq_Inr Let_def offered_def
          install_element_def shell_start_def cs zc split: if_splits)
  qed
qed

text \<open>
  C18. The plugin is ready for every tree of zone files whose names fit the buffers and the arrays:
  the registration ends without a fault, the view and the enable node offer the four show
  commands, the configuration node the setting of the zone and its \<open>no\<close> form with exactly the files
  of the tree, in the order of the walk and in lower case, and the running configuration has one
  callback. This is for four allocations that succeed and a shell that makes the context of the
  callback; if it does not, the plugin stops with a failed assertion. Each zone that is offered is
  accepted on every database with a system row whose stored zone has fewer than 100 characters,
  whether its transaction starts and commits or not, and when it does, the path of a file of the
  tree with this spelling up to case is stored; a longer stored zone overruns its buffer once the
  transaction is started.
\<close>

theorem shell_plugin_ready:
  assumes "zone_tree_ok fs doc ns" and "length doc < MAX_TIMEZONES_HELP_SIZE"
    and "length doc_no \<le> length (doc @ concat (map help_line (concat (map (files_below []) ns))))"
  defines "files \<equiv> concat (map (files_below []) ns)"
  shows "\<exists>sh z. plugin_init (True, True, True, True) True fs doc doc_no = Some (Inr sh) \<and> sh_zones sh = Some z \<and>
    list_of_zones_caps z = files \<and> sh_running_config sh = [vtysh_config_context_system_callback] \<and>
    offered VIEW_NODE sh = [''show system'', ''show system clock'', ''show date'', ''show system timezone''] \<and>
    offered ENABLE_NODE sh = offered VIEW_NODE sh \<and>
    offered CONFIG_NODE sh = [''timezone set ('' @ concat (map cmd_option files) @ '')'',
      ''no timezone set ('' @ concat (map cmd_option files) @ '')''] \<and>
    plugin_init (True, True, True, True) False fs doc doc_no = Some (Inl Assertion_Failure) \<and>
    (\<forall>f db s rest txn_ok commit_ok. f \<in> set files \<and> db_system db = s # rest \<longrightarrow>
      (\<exists>r \<in> set files. map tolower r = map tolower f \<and>
        cli_platform_timezone_set z txn_ok commit_ok (map tolower f) db =
          (if txn_ok \<and> 100 \<le> length (timezone s) then Inl Out_Of_Bounds_Write
           else Inr (CMD_SUCCESS, [],
             if txn_ok \<and> commit_ok then set_system 0 (\<lambda>t. t\<lparr>timezone := r\<rparr>) db else db))))"
proof -
  obtain z c where z: "system_install_timezone_set_command (True, True, True, True) fs doc doc_no = Some (Inr (0, Some (z, c)))"
    and caps: "list_of_zones_caps z = files" and wf: "zone_db_wf z"
    and words: "set_string c = ''timezone set ('' @ concat (map cmd_option files) @ '')''" "no_string c = ''no '' @ set_string c"
    using zone_commands_result [OF assms(1-3)] unfolding files_def by metis
  obtain sh where sh: "plugin_init (True, True, True, True) True fs doc doc_no = Some (Inr sh)"
    using z by (simp add: plugin_init_def cli_pre_init_def cli_post_init_def Let_def)
  note offers = plugin_offers [OF sh]
  then have zones: "sh_zones sh = Some z" "offered CONFIG_NODE sh = [set_string c, no_string c]"
    using z by (auto split: option.splits)
  have refused: "plugin_init (True, True, True, True) False fs doc doc_no = Some (Inl Assertion_Failure)"
    using z by (simp add: plugin_init_def cli_pre_init_def cli_post_init_def Let_def)
  have "\<exists>r \<in> set files. map tolower r = map tolower f \<and>
      cli_platform_timezone_set z txn_ok commit_ok (map tolower f) db =
        (if txn_ok \<and> 100 \<le> length (timezone s) then Inl Out_Of_Bounds_Write
         else Inr (CMD_SUCCESS, [],
           if txn_ok \<and> commit_ok then set_system 0 (\<lambda>t. t\<lparr>timezone := r\<rparr>) db else db))"
    if "f \<in> set files" "db_system db = s # rest" for f db s rest txn_ok commit_ok
  proof -
    from that(1) caps obtain r where r: "first_zone z (map tolower f) = Some r"
      by (cases "first_zone z (map tolower f)") (auto simp: first_zone_def find_None_iff)
    from timezone_set_known [OF wf that(2) r] first_zone_known [OF r] caps show ?thesis
      by (intro bexI [of _ r]) auto
  qed
  with sh refused zones caps offers words show ?thesis by (intro exI [of _ sh] exI [of _ z]) simp
qed

theorem shell_plugin_ready_witness:
  "\<exists>sh. plugin_init (True, True, True, True) True sample_fs ''Time zone'' ''No'' = Some (Inr sh) \<and>
     offered CONFIG_NODE sh = [''timezone set (europe/berlin | utc | )'', ''no timezone set (europe/berlin | utc | )'']"
proof -
  have files: "concat (map (files_below []) sample_zone_tree) = [''Europe/Berlin'', ''UTC'']"
    by (simp add: sample_zone_tree_def)
  have "length ''Time zone'' < MAX_TIMEZONES_HELP_SIZE"
    "length ''No'' \<le> length (''Time zone'' @ concat (map help_line (concat (map (files_below []) sample_zone_tree))))"
    by (simp_all add: MAX_TIMEZONES_HELP_SIZE_def MAX_TIMEZONES_def)
  from shell_plugin_ready [OF sample_tree_ok this] show ?thesis unfolding files by (auto simp: cmd_option_def)
qed

end
