(* ===== verification/Wakeup.thy ===== *)
theory Wakeup
  imports Monitor Startup
begin

text \<open>
  Sleeping and waking: the boot protocol of \<open>Boot\<close> together with the versions of the replica of
  \<open>Monitor\<close> and the decision of \<open>main\<close> whether to block. A state has the number of versions that the
  daemon has not processed; it blocks exactly when there is none. Versions are 32-bit numbers, and
  the steps keep the number of pending ones below 2 ^ 32.
\<close>

section \<open>The interleaving with versions\<close>

type_synonym live_state = "loop_state \<times> nat"

definition current_version :: "live_state \<Rightarrow> 32 word" where
  "current_version s = (case s of (st, n) \<Rightarrow> idl_seqno st + of_nat n)"

text \<open>
  An iteration that holds the lock processes the current version; what it writes itself, and
  what the other clients do while it waits for its commits, makes \<open>k\<close> new ones, at least one if a
  column with an alert or a row is affected. Its transactions are accepted by the server. A report
  of a hardware daemon and a change by another client likewise; a restarted daemon has the first contents of its replica to process.
\<close>

definition good_iteration :: "manifest \<Rightarrow> live_state \<Rightarrow> loop_env \<Rightarrow> bool" where
  "good_iteration m s e \<longleftrightarrow> external e = id \<and> during_clients e \<and> ce_manifest (config e) = m \<and> \<not> lock_contended e \<and> has_lock e \<and>
     configure_commit_ok e \<and> hw_commit_ok e \<and> new_seqno e = current_version s"

inductive live_step :: "manifest \<Rightarrow> live_state \<Rightarrow> live_state \<Rightarrow> bool" for m where
  live_iteration: "good_iteration m (st, n) e \<Longrightarrow> sysd_run e st = Inr st' \<Longrightarrow>
    (new_version sysd_modes (database st) (database st') \<Longrightarrow> 0 < k) \<Longrightarrow> k < 2 ^ 32 \<Longrightarrow> live_step m (st, n) (st', k)"
| live_report: "0 < h \<Longrightarrow>
    db = report i h (database st) \<Longrightarrow>
    (new_version sysd_modes (database st) db \<Longrightarrow> 0 < k) \<Longrightarrow> n + k < 2 ^ 32 \<Longrightarrow>
    live_step m (st, n) (st\<lparr>database := db\<rparr>, n + k)"
| live_client: "keeps_boot (database st) db \<Longrightarrow>
    (new_version sysd_modes (database st) db \<Longrightarrow> 0 < k) \<Longrightarrow> n + k < 2 ^ 32 \<Longrightarrow>
    live_step m (st, n) (st\<lparr>database := db\<rparr>, n + k)"
| live_restart: "0 < k \<Longrightarrow> k < 2 ^ 32 \<Longrightarrow>
    live_step m (st, n) (st\<lparr>idl_seqno := 0, hw_init_done_set := False, startup_notified := False\<rparr>, k)"

abbreviation live_reachable :: "manifest \<Rightarrow> live_state \<Rightarrow> live_state \<Rightarrow> bool" where
  "live_reachable m \<equiv> (live_step m)\<^sup>*\<^sup>*"

section \<open>What an iteration that sees a new version does\<close>

lemma pending_version: "n < 2 ^ 32 \<Longrightarrow> current_version (st, n) = idl_seqno st \<longleftrightarrow> n = 0"
proof -
  assume n: "n < 2 ^ 32"
  have "(of_nat n :: 32 word) = 0 \<longleftrightarrow> n = 0" using n by (simp add: word_of_nat_eq_0_iff dvd_eq_mod_eq_0)
  then show ?thesis by (simp add: current_version_def)
qed

lemma processing_iteration:
  assumes "external e = id" and "\<not> lock_contended e" and "has_lock e" and "new_seqno e \<noteq> idl_seqno st"
    and "sysd_run e st = Inr st'"
  obtains st1 st2 st3 where "run_system e (st\<lparr>idl_seqno := new_seqno e\<rparr>) = Inr st1" and "run_packages e st1 = Inr st2"
    and "run_timezone e st2 = Inr st3" and "st' = st3\<lparr>startup_notified := True\<rparr>"
proof -
  have idl: "st\<lparr>database := ovsdb_idl_run (external e) (database st)\<rparr> = st"
    by (simp add: ovsdb_idl_run_def assms(1))
  show thesis using assms(2-) that unfolding sysd_run_def Let_def idl by (auto simp: and_then_eq_Inr)
qed

definition published :: "loop_state \<Rightarrow> bool" where
  "published st \<longleftrightarrow> db_system (database st) \<noteq> [] \<and> list_all (\<lambda>c. c = 1) (map sys_cur_hw (db_system (database st)))"

lemma published_rows:
  assumes "map sys_cur_hw (db_system (database st')) = map sys_cur_hw (db_system (database st))"
  shows "published st' = published st"
proof -
  have "db_system (database st') = [] \<longleftrightarrow> db_system (database st) = []" using assms by (metis map_is_Nil_conv)
  then show ?thesis by (simp add: published_def assms)
qed

lemmas published_clients = published_rows [OF client_steps_system]

lemma run_system_publishes:
  assumes "run_system e st = Inr st'" and "hw_commit_ok e" and "during_clients e"
    and "hw_init_done_set st \<longrightarrow> published st" and "hw_init_done_set st'"
  shows "published st'"
proof (cases "hw_init_done_set st")
  case True
  with assms have "map sys_cur_hw (db_system (database st')) = map sys_cur_hw (db_system (database st))" "published st"
    using run_system_done(2) [of st e st'] by (auto simp: published_def)
  then show ?thesis unfolding published_def by (metis map_is_Nil_conv)
next
  case False
  with assms(1,5) have ne: "db_system (database st) \<noteq> []" by (simp add: run_system_flag [OF assms(1)])
  from run_system_row [OF ne assms(1)] obtain db' where db': "update_sw_info_outside e (database st) = Inr db'"
    and st': "st' = (if \<not> hw_init_done_set st \<and> hw_daemons_done (ce_manifest (config e)) (db_daemon db')
      then meanwhile (during_commit e) (sysd_set_hw_done (hw_commit_ok e) (st\<lparr>database := db'\<rparr>))
      else st\<lparr>database := db'\<rparr>)" by blast
  let ?hw = "sysd_set_hw_done (hw_commit_ok e) (st\<lparr>database := db'\<rparr>)"
  have "st' = meanwhile (during_commit e) ?hw" using st' assms(5) False by (simp split: if_splits)
  then have "published st' = published ?hw"
    by (intro published_clients) (simp add: client_steps_idl_run(1) [OF assms(3)])
  moreover have "db_system db' \<noteq> []" using update_sw_info_daemons [OF db'] ne by (metis length_0_conv)
  ultimately show ?thesis
    using assms(2) by (auto simp: sysd_set_hw_done_def Let_def published_def list_all_iff)
qed

text \<open>An iteration on a row only makes steps that the other clients could make as far as the daemon table goes.\<close>

lemma run_system_keeps_daemons:
  assumes "run_system e st = Inr st'" and "db_system (database st) \<noteq> []" and "during_clients e"
  shows "db_system (database st') \<noteq> [] \<and> (\<exists>db1. db_daemon db1 = db_daemon (database st) \<and> client_steps db1 (database st'))"
proof -
  have "\<exists>db1. client_steps db1 (database st') \<and> db_daemon db1 = db_daemon (database st) \<and>
      length (db_system db1) = length (db_system (database st))"
  proof (rule run_system_cases [OF assms(1) refl assms(3)], goal_cases)
    case (1 db1)
    then have "length (db_system db1) = length (db_system (database st))" by (metis keeps_boot_def length_map)
    with 1 show ?case by (auto simp: keeps_boot_def)
  next
    case (3 db1)
    then have "length (db_system db1) = length (db_system (database st))" by (metis length_map)
    with 3 show ?case by blast
  qed (use assms(2) in auto)
  then obtain db1 where db1: "client_steps db1 (database st')" "db_daemon db1 = db_daemon (database st)"
    "length (db_system db1) = length (db_system (database st))" by blast
  have "length (db_system (database st')) = length (db_system db1)"
    using client_steps_system [OF db1(1)] by (metis length_map)
  with db1 assms(2) show ?thesis by auto
qed

lemma daemons_or_version:
  assumes "client_steps db1 db'" and "db_daemon db1 = db_daemon db"
  shows "db_daemon db' = db_daemon db \<or> new_version sysd_modes db db'"
  using client_steps_daemons [OF assms(1)] assms(2) daemon_rows_eq [of "db_daemon db'" "db_daemon db"]
  by (auto simp: new_version_sysd)

lemma iteration_effect:
  assumes "good_iteration m s e" and "current_version s \<noteq> idl_seqno st" and "sysd_run e st = Inr st'"
    and "hw_init_done_set st \<longrightarrow> published st"
  shows "db_system (database st') \<noteq> [] \<and> (hw_init_done_set st' \<longrightarrow> published st') \<and>
    (hw_init_done_set st' \<longleftrightarrow> hw_init_done_set st \<or>
       db_system (database st) \<noteq> [] \<and> hw_daemons_done m (db_daemon (database st))) \<and>
    (if db_system (database st) = [] then new_version sysd_modes (database st) (database st')
     else db_daemon (database st') = db_daemon (database st) \<or> new_version sysd_modes (database st) (database st'))"
proof -
  from assms(1,2) have e: "external e = id" "ce_manifest (config e) = m" "\<not> lock_contended e" "has_lock e"
    "configure_commit_ok e" "hw_commit_ok e" "new_seqno e \<noteq> idl_seqno st" "during_clients e"
    by (simp_all add: good_iteration_def)
  let ?st = "st\<lparr>idl_seqno := new_seqno e\<rparr>"
  obtain st1 st2 st3 where run: "run_system e ?st = Inr st1" "run_packages e st1 = Inr st2"
    "run_timezone e st2 = Inr st3" and st': "st' = st3\<lparr>startup_notified := True\<rparr>"
    by (rule processing_iteration [OF e(1,3,4,7) assms(3)])
  have rest: "client_steps (database st1) (database st')" "hw_init_done_set st' = hw_init_done_set st1"
    using run_rest_clients [OF e(8) run(2,3)] by (simp_all add: st')
  have "published ?st = published st" by (simp add: published_def)
  then have pub: "hw_init_done_set st' \<longrightarrow> published st'"
    using run_system_publishes [OF run(1) e(6,8)] assms(4) published_clients [OF rest(1)] rest(2) by simp
  have flag: "hw_init_done_set st' \<longleftrightarrow> hw_init_done_set st \<or>
       db_system (database st) \<noteq> [] \<and> hw_daemons_done m (db_daemon (database st))"
    using run_system_flag [OF run(1)] rest(2) e(2) by simp
  show ?thesis
  proof (cases "db_system (database st) = []")
    case True
    then have "db_system (database ?st) = []" by simp
    from run_system_no_row [OF this run(1)] obtain db' where "sysd_initial_configure (config e) (database st) = Inr db'"
      and "st1 = meanwhile (during_commit e) (?st\<lparr>database := db'\<rparr>)" using e(5) by auto
    then have "map sys_cur_hw (db_system (database st')) = map sys_cur_hw (db_system (database st)) @ [0]"
      using client_steps_system [OF client_steps_idl_run(1) [OF e(8)], of db'] client_steps_system [OF rest(1)]
        configure_boot [of "config e" "database st" db'] by simp
    then have "db_system (database st') \<noteq> []" by auto
    with True pub flag show ?thesis by (auto simp: new_version_sysd)
  next
    case False
    then have "db_system (database ?st) \<noteq> []" by simp
    from run_system_keeps_daemons [OF run(1) this e(8)] obtain db1 where ne: "db_system (database st1) \<noteq> []"
      and db1: "db_daemon db1 = db_daemon (database st)" "client_steps db1 (database st1)" by auto
    have "db_system (database st') \<noteq> []" using ne client_steps_system [OF rest(1)] by (metis map_is_Nil_conv)
    with False pub flag daemons_or_version [OF rtranclp_trans [OF db1(2) rest(1)] db1(1)] show ?thesis by simp
  qed
qed

section \<open>The invariant\<close>

text \<open>
  Nothing pending means nothing to do: there is a system row, and the hardware initialisation is
  recorded or some hardware daemon is not done. What is recorded is published.
\<close>

definition live_inv :: "manifest \<Rightarrow> live_state \<Rightarrow> bool" where
  "live_inv m s \<longleftrightarrow> (case s of (st, n) \<Rightarrow>
     boot_inv m st \<and> n < 2 ^ 32 \<and> (hw_init_done_set st \<longrightarrow> published st) \<and>
     (n = 0 \<longrightarrow> db_system (database st) \<noteq> [] \<and>
       (hw_init_done_set st \<or> \<not> hw_daemons_done m (db_daemon (database st)))))"

lemma live_is_boot: "live_step m (st, n) (st', n') \<Longrightarrow> boot_step m st st'"
  by (erule live_step.cases) (auto intro: boot_step.intros simp: good_iteration_def)

lemma report_without_version:
  assumes "\<not> new_version sysd_modes db (report i h db)"
  shows "upd_nth i (\<lambda>r. r\<lparr>dr_cur_hw := h\<rparr>) (db_daemon db) = db_daemon db"
proof (cases "i < length (db_daemon db)")
  case True
  then have "dr_cur_hw (db_daemon db ! i) = h" using new_version_hw assms by blast
  then have "(db_daemon db ! i)\<lparr>dr_cur_hw := h\<rparr> = db_daemon db ! i" by auto
  then show ?thesis by (simp add: upd_nth_def)
qed (simp add: upd_nth_def list_update_beyond)

lemma live_inv_step:
  assumes m: "consistent_manifest m" and inv: "live_inv m (st, n)" and step: "live_step m (st, n) (st', n')"
  shows "live_inv m (st', n')"
proof -
  have boot: "boot_inv m st'"
    using boot_inv_step [OF m _ live_is_boot [OF step]] inv by (simp add: live_inv_def)
  from inv have pub: "hw_init_done_set st \<longrightarrow> published st" and n: "n < 2 ^ 32"
    and quiet: "n = 0 \<Longrightarrow> db_system (database st) \<noteq> [] \<and> (hw_init_done_set st \<or> \<not> hw_daemons_done m (db_daemon (database st)))"
    by (simp_all add: live_inv_def)
  from step show ?thesis
  proof (cases rule: live_step.cases)
    case (live_iteration e)
    show ?thesis
    proof (cases "n = 0")
      case True
      then have "st' = st\<lparr>startup_notified := True\<rparr>"
        using live_iteration
        by (auto simp: good_iteration_def sysd_run_def Let_def ovsdb_idl_run_def current_version_def split: if_splits)
      with boot pub quiet True live_iteration show ?thesis by (simp add: live_inv_def published_def)
    next
      case False
      then have "current_version (st, n) \<noteq> idl_seqno st" using pending_version [OF n, of st] by simp
      note iteration_effect [OF live_iteration(1) this live_iteration(2) pub]
      with boot live_iteration(3,4) show ?thesis by (auto simp: live_inv_def split: if_splits)
    qed
  next
    case (live_report h db i k)
    have "published st' = published st" unfolding live_report(1) by (rule published_rows) (simp add: live_report)
    moreover have "db_daemon db = db_daemon (database st)" if "k = 0"
      using report_without_version [of "database st" i h] live_report(4,5) that by auto
    moreover have "db_system db = db_system (database st)" by (simp add: live_report(4))
    ultimately show ?thesis using boot pub quiet live_report(1,2,6) by (auto simp: live_inv_def)
  next
    case (live_client db k)
    have "map sys_cur_hw (db_system db) = map sys_cur_hw (db_system (database st))" "db_daemon db = db_daemon (database st)"
      using live_client(3) by (simp_all add: keeps_boot_def)
    moreover from this have "published st' = published st" unfolding live_client(1) by (intro published_rows) simp
    moreover have "db_system db = [] \<longleftrightarrow> db_system (database st) = []" using calculation(1) by (metis map_is_Nil_conv)
    ultimately show ?thesis using boot pub quiet live_client(1,2,5) by (auto simp: live_inv_def)
  next
    case live_restart
    then show ?thesis using boot by (simp add: live_inv_def)
  qed
qed

lemma live_inv_reachable:
  assumes "consistent_manifest m" and "live_inv m s" and "live_reachable m s s'"
  shows "live_inv m s'"
  using assms(3,2)
proof (induction rule: rtranclp_induct)
  case (step t u)
  then show ?case using live_inv_step [OF assms(1)] by (cases t; cases u) auto
qed

section \<open>Properties\<close>

text \<open>
  C3. The daemon never sleeps over its task: from the start with an empty database, through any
  interleaving of its iterations and restarts, the reports of the hardware daemons and the changes
  of all other clients, also in the middle of an iteration, in which the server accepts the daemon's
  transactions, with a manifest whose counter is right and in which no name of a hardware daemon
  begins another one: when the hardware daemons of a complete table are done, then \<open>cur_hw\<close> is 1 in the system row, or the daemon is not
  blocked, and the next iteration that sees the pending version and ends without a fault sets it.
\<close>

theorem boot_never_stalls:
  assumes "consistent_manifest m" and "db_system (database st0) = []" and "db_daemon (database st0) = []"
    and "\<not> hw_init_done_set st0" and "0 < n0" and "n0 < 2 ^ 32" and "live_reachable m (st0, n0) (st, n)"
    and "db_system (database st) \<noteq> []" and "length (db_daemon (database st)) = length (daemons m)"
    and "all_hw_done (db_daemon (database st))"
  shows "published st \<or>
    main_wait (idl_seqno st) (current_version (st, n)) False \<noteq> Block \<and>
    (\<forall>e st'. good_iteration m (st, n) e \<and> sysd_run e st = Inr st' \<longrightarrow> published st')"
proof -
  have "live_inv m (st0, n0)" using boot_inv_empty [OF assms(2,3)] assms(4-6) by (simp add: live_inv_def)
  then have inv: "live_inv m (st, n)" by (rule live_inv_reachable [OF assms(1) _ assms(7)])
  then have pub: "hw_init_done_set st \<longrightarrow> published st" and n: "n < 2 ^ 32" by (simp_all add: live_inv_def)
  obtain hs where "length hs = length (daemons m)" "db_daemon (database st) = daemon_rows (daemons m) hs"
    using inv assms(9) by (auto simp: live_inv_def boot_inv_def daemon_rows_def)
  then have hw: "hw_daemons_done m (db_daemon (database st))" using assms(10) done_iff_all [OF assms(1)] by simp
  show ?thesis
  proof (cases "n = 0")
    case True
    with inv pub hw show ?thesis by (simp add: live_inv_def)
  next
    case False
    then have awake: "current_version (st, n) \<noteq> idl_seqno st" using pending_version [OF n, of st] by simp
    have "published st'" if "good_iteration m (st, n) e" "sysd_run e st = Inr st'" for e st'
      using iteration_effect [OF that(1) awake that(2) pub] hw assms(8) by blast
    then show ?thesis using awake by (auto simp: main_wait_def)
  qed
qed

text \<open>
  C25. A process without the lock does not sleep: \<open>sysd_run\<close> returns before it takes note of the
  version, so that, once its replica has changed, every iteration of the main loop goes straight to
  the next one, as long as another process holds the lock and nobody tells it to exit. It changes
  neither its variables nor the time zone link meanwhile.
\<close>

theorem standby_spins:
  assumes "main_iterations led m is (st, c) = Inr (st', c', ws)" and "\<not> exiting c"
    and "list_all (\<lambda>(e, calls, seqno). (lock_contended e \<or> \<not> has_lock e) \<and> seqno \<noteq> idl_seqno st \<and>
      \<not> asks_exit calls) is"
  shows "ws = replicate (length is) Run_Again \<and> idl_seqno st' = idl_seqno st \<and>
    hw_init_done_set st' = hw_init_done_set st \<and> localtime st' = localtime st \<and> \<not> exiting c'"
  using assms
proof (induction "is" arbitrary: st c ws)
  case (Cons i "is")
  obtain e calls seqno where i: "i = (e, calls, seqno)" by (cases i)
  obtain st1 c1 ws1 where st1: "sysd_run e st = Inr st1" and c1: "handler_calls led m calls c = Inr c1"
    and rest: "main_iterations led m is (st1, c1) = Inr (st', c', ws1)"
    and ws: "ws = main_wait (idl_seqno st1) seqno (exiting c1) # ws1"
    using Cons.prems by (auto simp: i and_then_eq_Inr split: if_splits)
  have "\<not> exiting c1" using control_exiting [OF c1] Cons.prems(2,3) by (simp add: i)
  moreover have "st1 = st\<lparr>database := ovsdb_idl_run (external e) (database st)\<rparr>"
    using st1 Cons.prems(3) by (auto simp: i sysd_run_def Let_def split: if_splits)
  ultimately show ?case
    using Cons.IH [OF rest] Cons.prems(3) by (auto simp: ws i main_wait_def)
qed simp

theorem standby_spins_witness:
  "main_iterations None manifest_init (replicate 3 (sample_loop_env\<lparr>has_lock := False\<rparr>, [], 1))
     (sample_loop, \<lparr>exiting = False, subsystems_freed = False, led_write = None, replies = []\<rparr>) =
   Inr (sample_loop, \<lparr>exiting = False, subsystems_freed = False, led_write = None, replies = []\<rparr>,
     [Run_Again, Run_Again, Run_Again])"
proof -
  let ?c = "\<lparr>exiting = False, subsystems_freed = False, led_write = None, replies = []\<rparr>"
  let ?is = "replicate 3 (sample_loop_env\<lparr>has_lock := False\<rparr>, [] :: handler_call list, 1 :: 32 word)"
  have run: "\<exists>ws. main_iterations None manifest_init ?is (sample_loop, ?c) = Inr (sample_loop, ?c, ws)"
    by (simp add: numeral_3_eq_3 sysd_run_def Let_def sample_loop_env_def sample_loop_def ovsdb_idl_run_def id_def)
  then obtain ws where "main_iterations None manifest_init ?is (sample_loop, ?c) = Inr (sample_loop, ?c, ws)" ..
  with standby_spins [OF this] show ?thesis by (simp add: sample_loop_env_def sample_loop_def numeral_3_eq_3)
qed

text \<open>The two daemons of \<open>Boot\<close> have reported, and their reports are pending.\<close>

lemma boot_iteration_live:
  assumes "sysd_run boot_env boot_start = Inr st"
  shows "live_step boot_manifest (boot_start, 1) (st, 5)"
proof (rule live_iteration [OF _ assms])
  show "good_iteration boot_manifest (boot_start, 1) boot_env"
    by (simp add: good_iteration_def boot_env_def sample_loop_env_def sample_env_def id_def current_version_def
        boot_start_def sample_loop_def during_clients_def)
qed simp_all

theorem boot_never_stalls_witness:
  "\<exists>st. live_reachable boot_manifest (boot_start, 1) (st, 7) \<and> all_hw_done (db_daemon (database st)) \<and>
     db_daemon (database st) \<noteq> [] \<and> main_wait (idl_seqno st) (current_version (st, 7)) False = Run_Again"
proof -
  obtain st where c: "sysd_run boot_env boot_start = Inr st \<and> map timezone (db_system (database st)) = [DFLT_TIMEZONE] \<and>
     db_daemon (database st) = daemon_table boot_manifest \<and> idl_seqno st = 1 \<and> \<not> hw_init_done_set st"
    using boot_first ..
  define report1 :: "nat \<Rightarrow> loop_state \<Rightarrow> loop_state"
    where "report1 i s = s\<lparr>database := (database s)\<lparr>db_daemon := upd_nth i (\<lambda>r. r\<lparr>dr_cur_hw := 1\<rparr>) (db_daemon (database s))\<rparr>\<rparr>" for i s
  let ?st = "report1 (Suc 0) (report1 0 st)"
  have report1: "live_step boot_manifest (s, n) (report1 i s, n + 1)" if "n < 10" for n i s
    unfolding report1_def by (rule live_report [where h = 1]) (use that in auto)
  have "live_step boot_manifest (st, 5) (report1 0 st, 6)" "live_step boot_manifest (report1 0 st, 6) (?st, 7)"
    using report1 [of 5 st 0] report1 [of 6 "report1 0 st" "Suc 0"] by simp_all
  then have r: "live_reachable boot_manifest (boot_start, 1) (?st, 7)"
    using boot_iteration_live [of st] c by (meson converse_rtranclp_into_rtranclp rtranclp.rtrancl_refl)
  have "db_daemon (database st) = daemon_table boot_manifest" "idl_seqno st = 1"
    "map timezone (db_system (database st)) = [DFLT_TIMEZONE]" using c by blast+
  then have d: "db_daemon (database ?st) = daemon_rows (daemons boot_manifest) [1, 1]" "idl_seqno ?st = 1"
    "db_system (database ?st) \<noteq> []"
    by (auto simp: report1_def upd_nth_def boot_manifest_def daemon_rows_def)
  have "published ?st \<or> main_wait (idl_seqno ?st) (current_version (?st, 7)) False \<noteq> Block"
    using boot_never_stalls [OF boot_manifest_consistent boot_start_empty _ _ _ r d(3)] boot_rows_done
    by (auto simp: d boot_start_def sample_loop_def)
  with r d boot_rows_done show ?thesis
    by (intro exI [of _ ?st]) (auto simp: main_wait_def current_version_def daemon_rows_def boot_manifest_def)
qed

end
