(* ===== verification/Config_Faults.thy ===== *)
theory Config_Faults
  imports Configured
begin

text \<open>
  Exactly when the first configuration meets a fault: the conditions of its parts, collected in the
  order of the code, with the early returns that hide the later ones.
\<close>

section \<open>Speeds\<close>

text \<open>What is written into the buffer: every speed, cut to nine characters with its comma.\<close>

definition speeds_written :: "c_int list \<Rightarrow> string" where
  "speeds_written ss =
     (case ss of
        [] \<Rightarrow> []
      | s # ts \<Rightarrow> take 9 (show_d (sint s)) @ concat (map (\<lambda>t. take 9 (CHR '','' # show_d (sint t))) ts))"

definition speeds_overflow :: "yaml_port \<Rightarrow> bool" where
  "speeds_overflow p \<longleftrightarrow> 128 \<le> length (speeds_written (speeds p))"

lemma speeds_loop_written:
  assumes "9 \<le> len" and "0 < i" and "length str < len"
  shows "speeds_loop len i ss str =
    (let all = str @ concat (map (\<lambda>t. take 9 (CHR '','' # show_d (sint t))) ss)
     in if length all < len then Inr all else Inl Out_Of_Bounds_Write)"
  using assms(2,3)
proof (induction ss arbitrary: i str)
  case (Cons s ss)
  have piece: "strncat str (trunc_copy 10 (CHR '','' # show_d (sint s))) len = str @ take 9 (CHR '','' # show_d (sint s))"
    using assms(1) by (simp add: strncat_def trunc_copy_def min_def del: take_Cons_numeral)
  show ?case
  proof (cases "length (str @ take 9 (CHR '','' # show_d (sint s))) < len")
    case True
    then show ?thesis
      using Cons.IH [of "Suc i" "str @ take 9 (CHR '','' # show_d (sint s))"] Cons.prems
      by (simp add: piece del: take_Cons_numeral)
  next
    case False
    then have "len \<le> length (str @ take 9 (CHR '','' # show_d (sint s)) @ rest)" for rest by simp
    with False show ?thesis using Cons.prems by (simp add: piece Let_def not_less del: take_Cons_numeral length_append)
  qed
qed simp

lemma speeds_string_written:
  assumes "10 \<le> len"
  shows "sysd_get_speeds_string len ss =
    (if length (speeds_written ss) < len then Inr (speeds_written ss) else Inl Out_Of_Bounds_Write)"
proof (cases ss)
  case Nil
  with assms show ?thesis by (simp add: sysd_get_speeds_string_def speeds_written_def)
next
  case (Cons s ts)
  have "strncat [] (trunc_copy 10 (show_d (sint s))) len = take 9 (show_d (sint s))"
    using assms by (simp add: strncat_def trunc_copy_def min_def)
  moreover have "length (take 9 (show_d (sint s))) < len" using assms by simp
  ultimately show ?thesis
    using speeds_loop_written [of len 1 "take 9 (show_d (sint s))" ts] assms
    by (simp add: Cons sysd_get_speeds_string_def speeds_written_def Let_def)
qed

section \<open>Interfaces\<close>

definition written_row :: "config_env \<Rightarrow> subsystem \<Rightarrow> yaml_port \<Rightarrow> interface_row" where
  "written_row env s p = interface_fresh\<lparr>if_name := port_name p, if_type := type_system (ce_names env),
     if_admin_state := Some (admin_state_down (ce_names env)),
     if_hw_intf_info := interface_hw_info (ce_names env) (ce_mac_text env) (system_mac_addr s) p (speeds_written (speeds p))\<rparr>"

text \<open>The pointers of a port that its row is made from.\<close>

definition port_readable :: "yaml_port \<Rightarrow> bool" where
  "port_readable p \<longleftrightarrow> port_name_ptr p \<noteq> None \<and> connector_ptr p \<noteq> None \<and> speeds_ptr p \<noteq> None \<and>
     capabilities_ptr p \<noteq> None"

lemma interfaces_unreadable:
  "list_ex (\<lambda>p. \<not> port_readable p) ps \<Longrightarrow> \<exists>x. add_interfaces names mac_text s ps db = Inl x"
proof (induction ps arbitrary: db)
  case (Cons p ps)
  show ?case
  proof (cases "port_readable p")
    case True
    with Cons.prems have "list_ex (\<lambda>p. \<not> port_readable p) ps" by simp
    then have rest: "\<exists>x. add_interfaces names mac_text s ps db1 = Inl x" for db1 by (rule Cons.IH)
    show ?thesis
    proof (cases "sysd_initial_interface_add names mac_text s p db")
      case (Inr r)
      with rest [of "snd r"] show ?thesis by (auto simp: split: prod.split)
    qed simp
  next
    case False
    have "\<exists>x. sysd_initial_interface_add names mac_text s p db = Inl x"
      using False
      by (cases "sysd_get_speeds_string 128 (speeds p)") (auto simp: sysd_initial_interface_add_def port_readable_def)
    then show ?thesis by auto
  qed
qed simp

lemma interfaces_written:
  "\<not> list_ex (\<lambda>p. \<not> port_readable p) ps \<Longrightarrow> add_interfaces (ce_names env) (ce_mac_text env) s ps db =
     (if list_ex speeds_overflow ps then Inl Out_Of_Bounds_Write
      else Inr ([length (db_interface db)..<length (db_interface db) + length ps],
        db\<lparr>db_interface := db_interface db @ map (written_row env s) ps\<rparr>))"
proof (induction ps arbitrary: db)
  case (Cons p ps)
  have "[length (db_interface db)..<length (db_interface db) + length (p # ps)] =
      length (db_interface db) # [Suc (length (db_interface db))..<Suc (length (db_interface db)) + length ps]"
    by (simp add: upt_conv_Cons del: upt_Suc)
  moreover from Cons.prems obtain nm c sp caps where ptrs: "port_name_ptr p = Some nm" "connector_ptr p = Some c"
    "speeds_ptr p = Some sp" "capabilities_ptr p = Some caps" by (auto simp: port_readable_def)
  ultimately show ?case
    using Cons by (simp add: sysd_initial_interface_add_def speeds_string_written speeds_overflow_def not_less written_row_def
        Let_def del: upt_Suc)
qed simp

section \<open>Subports\<close>

text \<open>A name that the table of split ports has, and a port with more than four of them before its last one.\<close>

definition split_name :: "yaml_port list \<Rightarrow> string \<Rightarrow> bool" where
  "split_name ps nm \<longleftrightarrow> list_ex (\<lambda>q. splittable q \<and> port_name q = nm) ps"

definition split_overflow :: "yaml_port list \<Rightarrow> yaml_port \<Rightarrow> bool" where
  "split_overflow ps p \<longleftrightarrow> 4 \<le> length (filter (split_name ps) (butlast (subports p)))"

lemma length_found_subports: "length (found_subports tab nms) = length (filter (\<lambda>nm. nm \<in> fst ` set tab) nms)"
proof (induction nms)
  case (Cons nm nms)
  have "map_of tab nm = None \<longleftrightarrow> nm \<notin> fst ` set tab" by (rule map_of_eq_None_iff)
  with Cons show ?case by (cases "map_of tab nm") (auto simp: found_subports_def map_filter_simps)
qed (simp add: found_subports_def map_filter_simps)

lemma split_table_names:
  assumes "\<And>k. k < length ps \<Longrightarrow> if_name (db_interface db ! (n + k)) = port_name (ps ! k)"
  shows "nm \<in> fst ` set (split_table [n..<n + length ps] ps db) \<longleftrightarrow> split_name ps nm"
proof -
  have "fst ` set (split_table [n..<n + length ps] ps db) = {port_name p |p. p \<in> set ps \<and> splittable p}"
    using assms by (fastforce simp: split_table_def set_zip image_iff in_set_conv_nth)
  then show ?thesis by (auto simp: split_name_def list_ex_iff)
qed

lemma subports_overflow_iff:
  assumes "\<And>k. k < length ps \<Longrightarrow> if_name (db_interface db ! (n + k)) = port_name (ps ! k)"
  shows "subports_overflow (split_table [n..<n + length ps] ps db) p \<longleftrightarrow> split_overflow ps p"
  by (simp add: subports_overflow_def split_overflow_def length_found_subports split_table_names [OF assms] SYSD_MAX_SPLIT_PORTS_def)

section \<open>The subsystem\<close>

definition subsystem_overflows :: "subsystem \<Rightarrow> bool" where
  "subsystem_overflows s \<longleftrightarrow> \<not> list_all port_complete (interfaces s) \<or> list_ex speeds_overflow (interfaces s) \<or>
     list_ex (split_overflow (interfaces s)) (interfaces s)"

lemma port_complete_iff: "port_complete p \<longleftrightarrow> port_readable p \<and> subports_ptr p \<noteq> None"
  by (auto simp: port_complete_def port_readable_def)

lemma ports_incomplete:
  "\<not> list_all port_complete ps \<longleftrightarrow> list_ex (\<lambda>p. \<not> port_readable p) ps \<or> list_ex (\<lambda>p. subports_ptr p = None) ps"
  by (auto simp: list_all_iff list_ex_iff port_complete_iff)

lemma linked_qos:
  "db_qos (fold (\<lambda>(r, p). set_interface r (linked tab p)) xs db) = db_qos db \<and>
   db_system (fold (\<lambda>(r, p). set_interface r (linked tab p)) xs db) = db_system db"
  by (induction xs arbitrary: db) (auto simp: set_interface_def)

lemma split_info_faults:
  assumes "\<And>k. k < length (interfaces s) \<Longrightarrow> if_name (db_interface db ! (n + k)) = port_name (interfaces s ! k)"
  shows "case sysd_set_splittable_port_info [n..<n + length (interfaces s)] s db of
      Inl _ \<Rightarrow> list_ex (\<lambda>p. subports_ptr p = None) (interfaces s) \<or> list_ex (split_overflow (interfaces s)) (interfaces s)
    | Inr db' \<Rightarrow> \<not> (list_ex (\<lambda>p. subports_ptr p = None) (interfaces s) \<or> list_ex (split_overflow (interfaces s)) (interfaces s)) \<and>
        db_qos db' = db_qos db \<and> db_system db' = db_system db"
proof -
  let ?tab = "split_table [n..<n + length (interfaces s)] (interfaces s) db"
  have "subports_overflow ?tab = split_overflow (interfaces s)"
    using subports_overflow_iff [OF assms] by (simp add: fun_eq_iff)
  then show ?thesis
    using linked_qos [of ?tab] by (simp add: sysd_set_splittable_port_info_def link_ports_result)
qed

text \<open>
  The subsystem is added without a fault, or it has no port information, or its ports are
  incomplete or overflow.
\<close>

lemma subsystem_add_faults:
  fixes env :: config_env
  shows "case sysd_initial_subsystem_add (ce_names env) (ce_mac_text env) calloc_ok dir s db of
     Inl _ \<Rightarrow> intf_cmn_info s = None \<or> calloc_ok \<and> subsystem_overflows s
   | Inr (r, db') \<Rightarrow> \<not> (intf_cmn_info s = None \<or> calloc_ok \<and> subsystem_overflows s) \<and>
       db_qos db' = db_qos db \<and> db_system db' = db_system db"
proof (cases "intf_cmn_info s")
  case None
  then show ?thesis by (simp add: sysd_initial_subsystem_add_def)
next
  case (Some info)
  let ?row = "subsystem_fresh\<lparr>ss_name := subsystem_name s, ss_asset_tag_number := DFLT_ASSET_TAG,
    ss_hw_desc_dir := dir, ss_other_info := subsystem_other_info (Subsystem.fru_eeprom s) info\<rparr>"
  let ?db1 = "db\<lparr>db_subsystem := db_subsystem db @ [?row]\<rparr>"
  let ?n = "length (db_interface db)"
  let ?db2 = "?db1\<lparr>db_interface := db_interface db @ map (written_row env s) (interfaces s)\<rparr>"
  consider "\<not> calloc_ok" | "calloc_ok" "list_ex (\<lambda>p. \<not> port_readable p) (interfaces s)"
    | "calloc_ok" "\<not> list_ex (\<lambda>p. \<not> port_readable p) (interfaces s)" "list_ex speeds_overflow (interfaces s)"
    | "calloc_ok" "\<not> list_ex (\<lambda>p. \<not> port_readable p) (interfaces s)" "\<not> list_ex speeds_overflow (interfaces s)" by blast
  then show ?thesis
  proof cases
    case 1
    with Some show ?thesis by (simp add: sysd_initial_subsystem_add_def Let_def)
  next
    case 2
    obtain x where "add_interfaces (ce_names env) (ce_mac_text env) s (interfaces s) ?db1 = Inl x"
      using interfaces_unreadable [OF 2(2)] by blast
    with 2 Some show ?thesis
      by (simp add: sysd_initial_subsystem_add_def Let_def subsystem_overflows_def ports_incomplete)
  next
    case 3
    with Some show ?thesis
      by (simp add: sysd_initial_subsystem_add_def Let_def interfaces_written subsystem_overflows_def)
  next
    case 4
    have add: "sysd_initial_subsystem_add (ce_names env) (ce_mac_text env) calloc_ok dir s db =
        and_then (sysd_set_splittable_port_info [?n..<?n + length (interfaces s)] s ?db2) (\<lambda>db3.
          Inr (length (db_subsystem db), db3\<lparr>db_subsystem := upd_nth (length (db_subsystem db))
            (\<lambda>row. row\<lparr>ss_next_mac_address := ce_mac_text env (nxt_mac_addr s), ss_macs_remaining := num_free_macs s,
               ss_interfaces := [?n..<?n + length (interfaces s)]\<rparr>) (db_subsystem db3)\<rparr>))"
      using 4 Some interfaces_written [of "interfaces s" env s ?db1]
      by (simp add: sysd_initial_subsystem_add_def Let_def)
    have "if_name (db_interface ?db2 ! (?n + k)) = port_name (interfaces s ! k)" if "k < length (interfaces s)" for k
      using that by (simp add: written_row_def)
    from split_info_faults [of s ?db2 ?n, OF this] show ?thesis
      unfolding add subsystem_overflows_def ports_incomplete using 4 Some
      by (cases "sysd_set_splittable_port_info [?n..<?n + length (interfaces s)] s ?db2") auto
  qed
qed

section \<open>The services\<close>

lemma dscp_faults: "(\<exists>db'. qos_init_dscp_map y sys db = Inr db') \<longleftrightarrow> map_fits 64 (dscp_map_entry_count y) (dscp_map_entry y)"
proof
  assume "\<exists>db'. qos_init_dscp_map y sys db = Inr db'"
  then show "map_fits 64 (dscp_map_entry_count y) (dscp_map_entry y)"
    by (auto simp: qos_init_dscp_map_def init_default_dscp_rows QOS_DSCP_MAP_ENTRY_COUNT_def and_then_eq_Inr
        dscp_rows_result Let_def map_fits_def split: option.splits)
qed (use dscp_core in metis)

lemma cos_faults: "(\<exists>db'. qos_init_cos_map y sys db = Inr db') \<longleftrightarrow> map_fits 8 (cos_map_entry_count y) (cos_map_entry y)"
proof
  assume "\<exists>db'. qos_init_cos_map y sys db = Inr db'"
  then show "map_fits 8 (cos_map_entry_count y) (cos_map_entry y)"
    by (auto simp: qos_init_cos_map_def init_default_cos_rows QOS_COS_MAP_ENTRY_COUNT_def and_then_eq_Inr
        cos_rows_result Let_def map_fits_def split: option.splits)
qed (use cos_core in metis)

lemma services_faults:
  assumes "store_wf (db_qos db)" and "sys < length (db_system db)"
  shows "(\<exists>db'. configure_services env sys db = Inr db') \<longleftrightarrow> qos_fits (ce_qos env) \<and> ce_acl env \<noteq> None"
proof
  assume "qos_fits (ce_qos env) \<and> ce_acl env \<noteq> None"
  then show "\<exists>db'. configure_services env sys db = Inr db'"
    using services_complete [OF assms(1) _ _ assms(2)] by (metis not_None_eq)
next
  let ?y = "ce_qos env"
  let ?db3 = "qos_init_trust ?y sys (set_system sys (\<lambda>s. s\<lparr>timezone := DFLT_TIMEZONE\<rparr>)
    (sysd_update_sw_info (ce_os_release env) sys db))"
  assume "\<exists>db'. configure_services env sys db = Inr db'"
  then obtain db4 db5 dbq db6 db7 where 4: "qos_init_dscp_map ?y sys ?db3 = Inr db4" and 5: "qos_init_cos_map ?y sys db4 = Inr db5"
    and q: "qos_init_queue_profile ?y sys db5 = Inr dbq" and 6: "qos_init_schedule_profile ?y sys dbq = Inr db6"
    and 7: "acl_init_limits (ce_acl env) sys db6 = Inr db7"
    by (auto simp: configure_services_def Let_def and_then_eq_Inr)
  have maps: "map_fits 64 (dscp_map_entry_count ?y) (dscp_map_entry ?y)" "map_fits 8 (cos_map_entry_count ?y) (cos_map_entry ?y)"
    using 4 5 dscp_faults cos_faults by blast+
  have "db_qos db4 = db_qos ?db3" "db_qos db5 = db_qos db4"
    using dscp_core [OF maps(1), of sys ?db3] cos_core [OF maps(2), of sys db4] 4 5 by (metis sum.inject(2))+
  then have wf: "store_wf (db_qos dbq)"
    using assms(1) queue_profile_core [OF q] by (simp add: trust_qos sw_info_qos)
  have "profiles_named ?y \<and> (qos_info ?y = None \<or> list_all has_algorithm (schedule_entries ?y))"
    using schedule_run_complete [OF wf 6] by (cases "qos_info ?y") (auto simp: profiles_named_def)
  moreover have "ce_acl env \<noteq> None" using 7 by (cases "ce_acl env") (auto simp: acl_init_limits_def)
  ultimately show "qos_fits ?y \<and> ce_acl env \<noteq> None" using maps by (simp add: qos_fits_def)
qed

section \<open>The whole configuration\<close>

lemma fault_iff: "(\<exists>x. r = Inl x) \<longleftrightarrow> \<not> (\<exists>y. r = Inr y)"
  by (cases r) auto

lemma base_faults:
  assumes "ce_subsystems env = [s]"
  shows "case configure_base env sys db of
      Inl _ \<Rightarrow> (\<exists>x. mgmt_intf_name (ce_manifest env) = Inl x) \<or> (\<exists>x. ce_set_table_id env [0] 8 = Inl x)
    | Inr base \<Rightarrow> \<not> ((\<exists>x. mgmt_intf_name (ce_manifest env) = Inl x) \<or> (\<exists>x. ce_set_table_id env [0] 8 = Inl x)) \<and>
        db_qos base = db_qos db \<and> length (db_system base) = length (db_system db)"
  using assms
  by (cases "mgmt_intf_name (ce_manifest env)"; cases "ce_set_table_id env [0] 8")
     (simp_all add: configure_base_def Let_def sysd_configure_default_vrf_def sysd_configure_default_bridge_def)

lemma add_daemons_frame: "add_daemons ds db = (ls, db') \<Longrightarrow> db_qos db' = db_qos db \<and> db_system db' = db_system db"
  by (auto simp: add_daemons_rows)

lemma tables_faults:
  assumes "ce_subsystems env = [s]" and "store_wf (db_qos db)" and "sys < length (db_system db)"
  shows "(\<exists>x. configure_tables env sys db = Inl x) \<longleftrightarrow> ce_calloc_subsys_ok env \<and>
    (intf_cmn_info s = None \<or> ce_calloc_intf_ok env \<and> subsystem_overflows s \<or>
     ce_calloc_daemons_ok env \<and> \<not> (qos_fits (ce_qos env) \<and> ce_acl env \<noteq> None))"
proof (cases "ce_calloc_subsys_ok env")
  case True
  note sub = subsystem_add_faults [where env = env and calloc_ok = "ce_calloc_intf_ok env" and dir = "ce_hw_desc_dir env" and s = s and db = db]
  show ?thesis
  proof (cases "sysd_initial_subsystem_add (ce_names env) (ce_mac_text env) (ce_calloc_intf_ok env) (ce_hw_desc_dir env) s db")
    case (Inl x)
    with True sub show ?thesis by (auto simp: configure_tables_def assms(1))
  next
    case (Inr r)
    obtain i db6 where r: "r = (i, db6)" by (cases r)
    let ?db7 = "set_system sys (\<lambda>s. s\<lparr>sys_subsystems := [i]\<rparr>) db6"
    obtain ls db8 where add: "add_daemons (daemons (ce_manifest env)) ?db7 = (ls, db8)" by fastforce
    let ?db9 = "if daemons (ce_manifest env) \<noteq> [] then set_system sys (\<lambda>s. s\<lparr>sys_daemons := ls\<rparr>) db8 else db8"
    have frame: "db_qos db6 = db_qos db" "db_system db6 = db_system db"
      and ok: "\<not> (intf_cmn_info s = None \<or> ce_calloc_intf_ok env \<and> subsystem_overflows s)"
      using sub Inr r by simp_all
    have tables: "configure_tables env sys db =
        (if ce_calloc_daemons_ok env then configure_services env sys ?db9 else Inr ?db7)"
      using True Inr r add by (simp add: configure_tables_def assms(1) Let_def)
    have "db_qos db8 = db_qos db" "length (db_system db8) = length (db_system db)"
      using add_daemons_frame [OF add] frame by simp_all
    then have "db_qos ?db9 = db_qos db" "length (db_system ?db9) = length (db_system db)" by simp_all
    then have "(\<exists>y. configure_services env sys ?db9 = Inr y) \<longleftrightarrow> qos_fits (ce_qos env) \<and> ce_acl env \<noteq> None"
      using assms(2,3) by (intro services_faults) simp_all
    then show ?thesis unfolding tables using True ok by (cases "ce_calloc_daemons_ok env") (auto simp: fault_iff)
  qed
qed (simp add: configure_tables_def)



end
