(* ===== verification/Spec2Isabelle.thy ===== *)
theory Spec2Isabelle
  imports Daemon Handover Shell Wakeup Config_Faults
begin

text \<open>
  ops-sysd is the system daemon of OpenSwitch. It starts before every other daemon, reads what the
  image and the hardware say about the switch, fills the empty database with the rows that the
  other daemons work on, and then waits for the hardware daemons: when they have all published
  \<open>cur_hw\<close> in their daemon row, it publishes \<open>cur_hw\<close> of the system row, which releases the
  configuration daemon. A shell plugin shows the system and sets the time zone.

  \<^bold>\<open>How the parts interact.\<close> \<open>main\<close> (\<open>src/sysd.c\<close>) parses its command line, opens the control
  socket and the connection to the database, reads the manifest, links the hardware
  description, opens the YAML files, builds the subsystem with its MAC address pool and its ports,
  and enters a loop of \<open>sysd_run\<close> (\<open>src/sysd_ovsdb_if.c\<close>). An iteration looks at the replica of the
  database only when it has changed. An empty system table is filled by \<open>sysd_initial_configure\<close>
  in one transaction; with a filled one the hardware check runs. Then an empty package table is
  loaded, and the time zone link follows the time zone column. The parts share global variables,
  which are fields of the states below, and the database.

  \<^bold>\<open>Theories.\<close> Paths are below \<open>src/\<close> unless they start with \<open>include/\<close>.

  \<^item> Sysd_Prelude: the result type \<open>run\<close> of code that can fault (\<open>Inl\<close> an access outside an
    object, a null dereference or an abort; \<open>Inr\<close> a result), its sequencing \<open>and_then\<close>, the
    named collections, and two interfaces: \<open>state_machine\<close> (a step that keeps an invariant keeps
    it over every run) and \<open>keyed_rows\<close> (looking a row up by key after it was ensured). Two more are
    \<open>code_point_table\<close> of Qos and \<open>comparison\<close> of Show_System, the contract of \<open>qsort\<close>.
  \<^item> C_Strings: \<open>strcmp\<close>, \<open>strncmp\<close>, \<open>strncpy\<close>, \<open>strncat\<close>, \<open>snprintf\<close> and
    the printing of numbers; the array behind a pointer, what a copy without a NUL leaves in it, and
    the reads of it.
  \<^item> Manifest: \<open>sysd_process_json\<close> and the functions it calls (\<open>sysd_util.c\<close>). The parsed document
    is a \<open>json\<close> tree, the daemon table and the management interface a record \<open>manifest\<close>. The
    name of the management interface is the array behind its pointer, which the code allocates
    without an element; \<open>mgmt_intf_name\<close> is what a read of it gives, and after any real start that
    is a fault. A daemon name is kept as the manifest has it, which is what is read back for fewer than
    128 characters; the copies that overrun or leave no NUL are recorded.
  \<^item> Platform: the output of the platform commands and the link to the hardware description
    (\<open>sysd_util.c\<close>, both build variants).
  \<^item> Fru: the decoder of the EEPROM (\<open>sysd_fru.c\<close>, \<open>include/sysd_fru.h\<close>) on a list of bytes.
  \<^item> Subsystem: the YAML access layer (\<open>sysd_cfg_yaml.c\<close>) and the discovery of subsystem and
    ports (\<open>sysd.c\<close>).
  \<^item> Profile_Store and Ovsdb: the tables that the program uses, as its client library presents
    them inside a transaction: lists of rows, pointers as indices.
  \<^item> Qos, Acl, Sw_Info: \<open>qos_init.c\<close>, \<open>acl_init.c\<close>, and the os-release scanner and the time zone
    link of \<open>sysd_ovsdb_if.c\<close>.
  \<^item> Package_Info: \<open>sysd_add_package_info\<close>, a machine that consumes the events of the YAML parser.
  \<^item> Configure: \<open>sysd_initial_configure\<close> and everything it calls. Configured: the data for which it
    comes to its end, and what it leaves. Config_Faults: exactly the data for which it does not.
  \<^item> Main_Loop: \<open>sysd_run\<close> with the hardware check, and \<open>sysd_dump\<close>. What the other clients
    change arrives at the start of an iteration (\<open>external\<close>) and when a blocking commit returns
    (\<open>during_commit\<close>, \<open>during_load\<close>); the changes that arrive with the several commits of the
    package loader are put together at its end, because it reads no other table.
  \<^item> Boot: the step relation \<open>boot_step\<close> in which iterations and restarts of ops-sysd, the hardware
    daemons and all other clients of the database are interleaved, the clients also in the middle of
    an iteration. An iteration is a step when it ends without a fault; so what is said of the boot
    after the first configuration is said of an array of the management interface that can be read.
    Handover: the abstract protocol of three phases that it implements.
  \<^item> Monitor: the registration of tables and columns (\<open>sysd_ovsdb_conn_init\<close>, \<open>system_ovsdb_init\<close>)
    and the changes that make a new version of the replica. Wakeup: the interleaving of Boot with
    these versions and with the decision whether to block.
  \<^item> Startup: the steps of \<open>main\<close> up to its loop, the access to the YAML files, the commands of the
    control socket, the status LED. Options: the command line, over a model of \<open>getopt_long\<close>.
    Daemon: \<open>main\<close> as a whole, from its arguments to the loop.
  \<^item> Zone_Cli, Show_System, Shell: the shell plugin (\<open>cli/system_vty.c\<close>,
    \<open>cli/vtysh_ovsdb_system_context.c\<close>): its time zone commands, \<open>show system\<close>, and the registration
    of all commands.
  \<^item> Spec2Isabelle (this theory): properties that span components, from the start to the configured
    database and from the shell to the time zone link.

  \<^bold>\<open>What the lemmas show.\<close>

  \<^item> The hand-over at boot: \<open>cur_hw\<close> of the system row is only set when the hardware daemons are
    done, in any interleaving (\<open>boot_order\<close>), every interleaving follows the abstract protocol
    (\<open>boot_refines_handover\<close>), the release comes once they are done (\<open>boot_completes\<close>), the daemon
    never sleeps over it (\<open>boot_never_stalls\<close>), and no change that it waits for goes unnoticed
    (\<open>no_wakeup_lost\<close>). \<open>hw_done_declared\<close>, \<open>hw_check_all_daemons\<close>, \<open>hw_check_passes_early\<close> and
    \<open>failed_hw_commit_is_final\<close> say exactly what one iteration checks, what it accepts too early and
    what it never repeats; \<open>standby_spins\<close> that a process without the lock does not block.
  \<^item> The first configuration: it comes to its end for data that fit and leaves the rows that the
    platform describes (\<open>first_configuration_completes\<close>), provided that the name of the
    management interface can be read. As the daemon starts it cannot, and the first iteration faults
    there; with a readable array in its place the start leads to the configured database
    (\<open>started_daemon_configures\<close>, \<open>main_ready\<close>). The configuration faults exactly in the cases of
    \<open>first_configuration_faults\<close>; on every path that ends, every reference of the database points to
    a row (\<open>configuration_integrity\<close>), and so it stays in any run of the loop (\<open>main_loop_safe\<close>). Its
    parts: split ports linked both ways (\<open>split_ports_linked\<close>), speeds (\<open>speeds_string\<close>), quality of
    service against a view of the tables without pointers (\<open>queue_profiles_initialised\<close>,
    \<open>schedule_profiles_initialised\<close>, \<open>queue_profile_created\<close>, \<open>schedule_profile_replaced\<close>,
    \<open>code_point_maps_initialised\<close>), software information, access lists.
  \<^item> Packages: the table gets the packages of the file (\<open>package_info_loaded\<close>), and exactly which
    sequences of events fault (\<open>package_loader_faults\<close>).
  \<^item> Decoders: the EEPROM reader inverts an encoder (\<open>fru_eeprom_roundtrip\<close>) and agrees with a
    declarative reading of an image (\<open>eeprom_image_decoded\<close>); the manifest walk refines a walk over
    the sections of the document (\<open>manifest_walk_refines_sections\<close>), with its exact result, errors
    and overruns (\<open>manifest_read_result\<close>, \<open>manifest_accepted_iff\<close>, \<open>manifest_overruns_exactly\<close>).
  \<^item> The start: how a command line is read (\<open>command_line_settings\<close>), what the loop starts from
    (\<open>main_ready\<close>), that it fits the declarations of the global variables
    (\<open>started_state_typed\<close>), the platform commands and the link (\<open>command_output\<close>, \<open>hw_desc_link\<close>),
    the MAC address pool (\<open>mac_pool_allocation\<close>), the FRU record; and what the control socket
    answers (\<open>control_commands\<close>, \<open>dump_is_prefix\<close>).
  \<^item> The shell: the plugin offers its commands and exactly the files of the zone directory, and
    accepts what it offers (\<open>shell_plugin_ready\<close>), a zone that is set becomes a link to a file
    (\<open>timezone_link_is_a_zone_file\<close>) and survives the running configuration
    (\<open>running_config_restores\<close>); \<open>show system\<close> shows what the daemon stored.

  \<^bold>\<open>Conventions.\<close> Machine integers that the code computes with are words of their width, others
  \<open>int\<close> or \<open>nat\<close>. Allocation results, commit results and what the operating system answers are
  arguments (\<open>config_env\<close>, \<open>loop_env\<close>, \<open>startup_env\<close>, \<open>platform_env\<close>), so that a theorem that does
  not restrict them covers every failure. No fuel is used: loops over data are structural, the
  EEPROM loop terminates by the bytes that are left, the option loop by the characters that are
  left, and the two loops that may not end, the line reader of Platform and the directory walk of
  Zone_Cli, are partial functions with the value \<open>None\<close> for not ending; the theorems about them
  state when they end. The sizes of buffers are the
  constants of the sources. Versions of the replica are 32-bit numbers; Wakeup bounds the number of
  versions that are pending at one time by 2 ^ 32, below which they cannot be mistaken.

  \<^bold>\<open>Parameters.\<close> The JSON and YAML parsers (their output is the input of the model), the
  options and handlers that the OVS library adds to the command line, the zlib checksum, the I2C
  reads, \<open>rand\<close>, the conversion between MAC addresses and numbers, the file system and the commands,
  and the texts of the power supply states, which the repository does not contain. Of the database client library the documented behaviour inside a transaction is used: an
  inserted row is visible at once and the last one, a setter changes one column, a commit succeeds
  or not; and what registration says about new versions of the replica.

  \<^bold>\<open>Not modelled.\<close> Logging and the event log; forking and the pid file, which the OVS library
  does; the shell that parses the words and calls the commands; the priority code point of the DSCP
  map, which is compiled out; releasing of memory, except where memory is used or released again
  after it; the Python schema plugin, the tests and the build files.
\<close>

section \<open>From the platform to the configured database\<close>

text \<open>The iteration that would configure the database, when the name of the management interface cannot be read.\<close>

lemma first_iteration_faults:
  assumes "mgmt_intf_name (ds_manifest d) = Inl x"
    and "\<not> lock_contended le" and "has_lock le" and "new_seqno le \<noteq> idl_seqno st"
    and "ovsdb_idl_run (external le) (database st) = db" and "db_system db = []"
  shows "sysd_run (le\<lparr>config := started_config d c\<rparr>) st = Inl x"
proof -
  have "sysd_initial_configure (started_config d c) db = Inl x"
    by (simp add: sysd_initial_configure_def Let_def configure_base_name_fault [OF assms(1)])
  then show ?thesis using assms(2-6) by (simp add: sysd_run_def run_system_def Let_def)
qed

text \<open>
  C6. From the start to the first iteration that holds the lock and sees the empty system table.
  As the start leaves the data, the iteration faults: it reads the name of the management interface
  past the object without a character that the manifest reader has allocated, or, for a manifest
  that names none, through the null pointer. This is all that is in the way: with a readable array \<open>buf\<close>
  in place of that object, the iteration ends without a fault, when the port,
  quality-of-service and access list data fit the code's buffers and tables, the daemon names have
  fewer than 128 characters, the generated setter of table_id works, the memory is there, the loader
  does not fault on the file of packages, the commit of the configuration succeeds, and no other
  client changes the database while the daemon waits for its commits. The database is then intact;
  its daemon table has the daemons of all daemon sections of the manifest, in document order, its
  interface table the bridge and the ports of the port file, in its order; the subsystem names the
  directory that the hardware description link points to; the one system row still says \<open>cur_hw\<close> 0;
  an empty package table has been loaded with the packages of the file; and the time zone link
  points to UTC, or is gone if it could be removed but not made, or is the old one if it could not
  be removed.
\<close>

theorem started_daemon_configures:
  assumes "main_init e p = Some (Inr (Started d))"
    and "\<not> lock_contended le" and "has_lock le" and "new_seqno le \<noteq> idl_seqno st" and "configure_commit_ok le"
    and "ovsdb_idl_run (external le) (database st) = db" and "during_commit le = id" and "during_load le = id"
    and "db_system db = []" and "refs_ok db"
    and "sysd_add_package_info (yaml_parser_ok le) (pkg_insert_ok le) (pkg_commit_ok le) (version_detail le) ovsdb_empty = Inr loaded"
    and "c_string_at buf = Inr nm" and "ce_set_table_id c [0] 8 = Inr ids"
    and "list_all subsystem_fits (ds_subsystems d)" and "qos_fits (ce_qos c)" and "ce_acl c \<noteq> None"
    and "ce_calloc_intf_ok c" and "ce_calloc_subsys_ok c" and "ce_calloc_daemons_ok c"
    and "list_all (\<lambda>x. length (daemon_name x) < MAX_DAEMON_NAME_LEN) (daemons (ds_manifest d))"
  shows "\<exists>st' j. manifest_file e = Some j \<and>
    sysd_run (le\<lparr>config := started_config d c\<rparr>) st =
      Inl (if names_intf (sections j) then Out_Of_Bounds_Read else Null_Dereference) \<and>
    sysd_run (le\<lparr>config := started_config (with_intf_array buf d) c\<rparr>) st = Inr st' \<and> server_accepts (database st') \<and>
    map sys_cur_hw (db_system (database st')) = [0] \<and>
    db_daemon (database st') = db_daemon db @ map daemon_row_of (concat (map section_daemons (sections j))) \<and>
    map ss_hw_desc_dir (db_subsystem (database st')) =
      map ss_hw_desc_dir (db_subsystem db) @ [g_hw_desc_dir (ds_platform d)] \<and>
    hwdesc_link (ds_platform d) = Some (g_hw_desc_dir (ds_platform d)) \<and>
    map if_name (db_interface (database st')) = map if_name (db_interface db) @ default_bridge_name (ce_names c) #
      map (\<lambda>k. case port_info e k of None \<Rightarrow> [] | Some q \<Rightarrow> port_name q) [0..<nat (port_count e)] \<and>
    db_package_info (database st') = (if db_package_info db = [] then db_package_info loaded else db_package_info db) \<and>
    localtime st' = utc_link le (localtime st) \<and>
    startup_notified st' \<and> hw_init_done_set st' = hw_init_done_set st"
proof -
  obtain j m p' where j: "manifest_file e = Some j"
    and m: "sysd_read_manifest_file (calloc_daemon_ok e) (Some j) manifest_init = Inr (0, m)"
    and p': "sysd_find_hw_desc_files (platform_env e) p = Some (Inr (0, p'))" and hw: "main_hardware e m p' = Inr (Started d)"
    by (rule main_init_started [OF assms(1)])
  note h = main_hardware_started [OF hw]
  from h obtain s where s: "ds_subsystems d = [s]" "int (length (interfaces s)) = port_count e"
    and ports: "\<forall>k < length (interfaces s). port_info e k = Some (interfaces s ! k)" by blast
  have link: "hwdesc_link p' = Some (g_hw_desc_dir p')" using hw_desc_search [OF p'] by simp
  have daemons: "daemons m = concat (map section_daemons (sections j))"
    using read_manifest_success [OF m] by (simp add: manifest_init_def)
  have port_names: "map port_name (interfaces s) =
      map (\<lambda>k. case port_info e k of None \<Rightarrow> [] | Some q \<Rightarrow> port_name q) [0..<nat (port_count e)]"
    using ports s(2) by (intro nth_equalityI) auto
  let ?cfg = "started_config (with_intf_array buf d) c"
  obtain a where "ce_acl c = Some a" using assms(16) by blast
  with assms(12-19) s(1) have env: "mgmt_intf_name (ce_manifest ?cfg) = Inr nm" "ce_set_table_id ?cfg [0] 8 = Inr ids"
    "ce_subsystems ?cfg = [s]" "subsystem_fits s" "qos_fits (ce_qos ?cfg)" "ce_acl ?cfg = Some a"
    "ce_calloc_intf_ok ?cfg" "ce_calloc_subsys_ok ?cfg" "ce_calloc_daemons_ok ?cfg"
    by (simp_all add: started_config_def)
  obtain db' where db': "sysd_initial_configure ?cfg db = Inr db'" "refs_ok db'"
    "db_daemon db' = db_daemon db @ map daemon_row_of (daemons (ce_manifest ?cfg))"
    "db_subsystem db' = db_subsystem db @ [subsystem_row_of ?cfg s (Suc (length (db_interface db)))]"
    "map unlinked (db_interface db') = map unlinked (db_interface db) @
      unlinked (bridge_interface (ce_names ?cfg)) # map (port_row ?cfg s) (interfaces s)"
    "length (db_system db') = 1" "timezone (db_system db' ! 0) = DFLT_TIMEZONE" "sys_cur_hw (db_system db' ! 0) = 0"
    "db_package_info db' = db_package_info db"
    using configuration_run [OF env assms(10)] assms(9) by auto
  obtain r where r: "db_system db' = [r]" "timezone r = DFLT_TIMEZONE" "sys_cur_hw r = 0"
    using db'(6-8) by (cases "db_system db'") auto
  have "server_accepts (first_packages loaded db')"
    using db'(2) r by (auto simp: server_accepts_def first_packages_def refs_ok_packages)
  moreover have "sysd_run (le\<lparr>config := ?cfg\<rparr>) st = Inr (st\<lparr>database := first_packages loaded db', idl_seqno := new_seqno le,
      localtime := utc_link le (localtime st), startup_notified := True\<rparr>)"
    using first_iteration [of "le\<lparr>config := ?cfg\<rparr>"] assms(2-9,11) db'(1) r(1,2) by (simp add: utc_link_def)
  moreover have "mgmt_intf_name (ds_manifest d) = Inl (if names_intf (sections j) then Out_Of_Bounds_Read else Null_Dereference)"
    using mgmt_intf_name_read [OF m] h by simp
  note first_iteration_faults [OF this assms(2-4,6,9), of c]
  ultimately show ?thesis
    using interface_names [OF db'(5)] port_names j link h daemons db'(3,4,9) r
    by (simp add: first_packages_def started_config_def subsystem_row_of_def)
qed

theorem started_daemon_configures_witness:
  "\<exists>d st'. main_init sample_startup \<lparr>g_hw_desc_dir = ''/'', hwdesc_link = None\<rparr> = Some (Inr (Started d)) \<and>
     sysd_run (sample_loop_env\<lparr>config := started_config d sample_env\<rparr>) (sample_loop\<lparr>database := ovsdb_empty\<rparr>) =
       Inl Out_Of_Bounds_Read \<and>
     sysd_run (sample_loop_env\<lparr>config := started_config (with_intf_array (''eth0'' @ [CHR 0x00]) d) sample_env\<rparr>)
       (sample_loop\<lparr>database := ovsdb_empty\<rparr>) = Inr st' \<and>
     map dr_name (db_daemon (database st')) = [''ops-sysd'', ''ops-pmd'', ''ops-tempd'', ''ops-ledd'', ''ops-powerd'', ''ops-fand''] \<and>
     map if_name (db_interface (database st')) = [''bridge_normal'', ''1'']"
proof -
  let ?le = sample_loop_env and ?st = "sample_loop\<lparr>database := ovsdb_empty\<rparr>"
  obtain d where d: "main_init sample_startup \<lparr>g_hw_desc_dir = ''/'', hwdesc_link = None\<rparr> = Some (Inr (Started d))"
    using sample_started ..
  have env: "\<not> lock_contended ?le" "has_lock ?le" "new_seqno ?le \<noteq> idl_seqno ?st" "configure_commit_ok ?le"
    "ovsdb_idl_run (external ?le) (database ?st) = ovsdb_empty" "during_commit ?le = id" "during_load ?le = id"
    "db_system ovsdb_empty = []"
    by (simp_all add: sample_loop_env_def sample_loop_def ovsdb_idl_run_def ovsdb_empty_def)
  have detail: "sysd_add_package_info (yaml_parser_ok ?le) (pkg_insert_ok ?le) (pkg_commit_ok ?le)
      (version_detail ?le) ovsdb_empty = Inr ovsdb_empty"
    by (simp add: sample_loop_env_def sysd_add_package_info_def)
  have intf: "c_string_at (''eth0'' @ [CHR 0x00]) = Inr ''eth0''" by (simp add: c_string_at_def)
  have data: "qos_fits (ce_qos sample_env)" "ce_acl sample_env \<noteq> None" "ce_calloc_intf_ok sample_env"
    "ce_calloc_subsys_ok sample_env" "ce_calloc_daemons_ok sample_env" "ce_set_table_id sample_env [0] 8 = Inr [0]"
    by (simp_all add: sample_env_def qos_fits_def map_fits_def sample_qos_def profiles_named_def)
  note fits = sample_started_fits [OF d]
  have ports: "yaml_library sample_startup = sample_yaml" "manifest_file sample_startup = Some image_manifest"
    "default_bridge_name (ce_names sample_env) = ''bridge_normal''" "port_name sample_port_file = ''1''"
    by (simp_all add: sample_startup_def sample_env_def sample_names_def sample_port_file_def sample_port_def port_defs)
  show ?thesis
    using d started_daemon_configures [OF d env refs_ok_empty detail intf data(6) fits(2) data(1-5) fits(3)]
    by (auto simp: ports sample_yaml_values ovsdb_empty_def sections_image_manifest hw_daemon_entry_def daemon_row_of_def
        new_daemon_def names_intf_def MGMT_INTF_NAME_TAG_def)
qed

section \<open>From the shell to the time zone link\<close>

text \<open>
  C16. From the shell to the link: with the zone list that was read from a directory tree, take a
  \<open>timezone set\<close> that reports success, for an argument of fewer than 500 characters and a system row
  whose stored zone has fewer than 100. When its transaction starts and commits, its argument
  is the name of a file of the tree up to case, the name of such a file is stored, and the next time that the
  daemon handles the zone, without running over its buffer of 200 characters, /etc/localtime
  points to this file below the zone directory, if the old link could be removed (or there was none)
  and the new one made; it is the old link if that could not be removed, and gone if only the new
  one could not be made. When the transaction does not start or does not commit, success is
  reported all the same and the database is unchanged.
\<close>

theorem timezone_link_is_a_zone_file:
  assumes "zone_tree_ok fs doc ns" and "length doc < MAX_TIMEZONES_HELP_SIZE"
    and "length doc_no \<le> length (doc @ concat (map help_line (concat (map (files_below []) ns))))"
    and "system_install_timezone_set_command (True, True, True, True) fs doc doc_no = Some (Inr (0, Some (z, c)))"
    and "db_system db = ovs # rest" and "length (timezone ovs) < 100" and "length arg < 500"
    and "cli_platform_timezone_set z txn_ok commit_ok arg db = Inr (CMD_SUCCESS, out, db')"
  shows "if txn_ok \<and> commit_ok
    then \<exists>file. file \<in> set (concat (map (files_below []) ns)) \<and> map tolower file = arg \<and>
      db' = set_system 0 (\<lambda>s. s\<lparr>timezone := file\<rparr>) db \<and>
      sysd_handle_timezone_update db' unlinks links old_link =
        Inr (if \<not> unlinks \<and> old_link \<noteq> None then old_link
             else if links then Some (ZONE_DIR @ ''/'' @ file) else None)
    else db' = db"
proof (cases "txn_ok \<and> commit_ok")
  case True
  have z: "list_of_zones_caps z = concat (map (files_below []) ns)" "zone_db_wf z"
    using zone_commands_result [OF assms(1-3)] assms(4) by auto
  obtain r where r: "first_zone z arg = Some r" and db': "db' = set_system 0 (\<lambda>s. s\<lparr>timezone := r\<rparr>) db"
    using timezone_commands [OF z(2) assms(5-7), of True] assms(8) True by (auto split: option.splits)
  note known = first_zone_known [OF r]
  then have "length r < 100" using z(2) by (auto simp: zone_db_wf_def MAX_TIMEZONE_NAME_SIZE_def list_all_iff)
  moreover have "length ZONEINFO_BASE = 26" "ZONEINFO_BASE @ r = ZONE_DIR @ ''/'' @ r"
    by (simp_all add: ZONEINFO_BASE_def ZONE_DIR_def)
  ultimately have "sysd_handle_timezone_update db' unlinks links old_link =
      Inr (if \<not> unlinks \<and> old_link \<noteq> None then old_link else if links then Some (ZONE_DIR @ ''/'' @ r) else None)"
    using assms(5) by (simp add: db' sysd_handle_timezone_update_def set_system_def upd_nth_def TIMEZONE_CMD_SIZE_def Let_def)
  with known z(1) db' True show ?thesis by auto
next
  case False
  have "zone_db_wf z" using zone_commands_result [OF assms(1-3)] assms(4) by auto
  from timezone_commands [OF this assms(5-7), of commit_ok] assms(5,8) False show ?thesis
    by (cases txn_ok) (auto simp: cli_platform_timezone_set_def cli_set_timezone_def split: option.splits)
qed

text \<open>The tree of the zone commands' witness, with the zone of Berlin set on a system in UTC.\<close>

theorem timezone_link_is_a_zone_file_witness:
  "\<exists>z c db'. system_install_timezone_set_command (True, True, True, True) sample_fs ''Time zone'' ''No'' = Some (Inr (0, Some (z, c))) \<and>
     cli_platform_timezone_set z True True ''europe/berlin'' (sample_zone_ovsdb ''UTC'') = Inr (CMD_SUCCESS, [], db') \<and>
     sysd_handle_timezone_update db' True True None = Inr (Some ''/usr/share/zoneinfo/posix/Europe/Berlin'') \<and>
     sysd_handle_timezone_update db' False True (Some ''old'') = Inr (Some ''old'') \<and>
     cli_platform_timezone_set z True False ''europe/berlin'' (sample_zone_ovsdb ''UTC'') =
       Inr (CMD_SUCCESS, [], sample_zone_ovsdb ''UTC'')"
proof -
  have files: "concat (map (files_below []) sample_zone_tree) = [''Europe/Berlin'', ''UTC'']"
    by (simp add: sample_zone_tree_def)
  have doc: "length ''Time zone'' < MAX_TIMEZONES_HELP_SIZE"
    "length ''No'' \<le> length (''Time zone'' @ concat (map help_line (concat (map (files_below []) sample_zone_tree))))"
    by (simp_all add: MAX_TIMEZONES_HELP_SIZE_def MAX_TIMEZONES_def)
  obtain z c where z: "system_install_timezone_set_command (True, True, True, True) sample_fs ''Time zone'' ''No'' = Some (Inr (0, Some (z, c)))"
    "list_of_zones_caps z = [''Europe/Berlin'', ''UTC'']" "zone_db_wf z"
    using zone_commands_result [OF sample_tree_ok doc] unfolding files by blast
  let ?db = "sample_zone_ovsdb ''UTC''" and ?ovs = "system_fresh\<lparr>timezone := ''UTC''\<rparr>"
  have db: "db_system ?db = ?ovs # []" "length (timezone ?ovs) < 100" by (simp_all add: sample_zone_ovsdb_def)
  have "first_zone z ''europe/berlin'' = Some ''Europe/Berlin''" using z(2) by (simp add: first_zone_def)
  from timezone_set_known [OF z(3) db(1) this] db(2)
  have set: "cli_platform_timezone_set z True True ''europe/berlin'' ?db =
      Inr (CMD_SUCCESS, [], set_system 0 (\<lambda>s. s\<lparr>timezone := ''Europe/Berlin''\<rparr>) ?db)"
    "cli_platform_timezone_set z True False ''europe/berlin'' ?db = Inr (CMD_SUCCESS, [], ?db)"
    by simp_all
  have "length ''europe/berlin'' < 500" by simp
  note c = timezone_link_is_a_zone_file [OF sample_tree_ok doc z(1) db this set(1)]
  from c [of True True None] c [of False True "Some ''old''"] z(1) set show ?thesis
    unfolding files by (auto simp: ZONE_DIR_def)
qed

end
